(* ===== verification/Merovingian_Prelude.thy ===== *)
theory Merovingian_Prelude
  imports Main "HOL-Library.Word" "HOL-Library.Char_ord" "HOL-Library.List_Lexorder"
    "HOL-Library.Multiset" "HOL-Library.Sublist" "HOL-Library.AList" "HOL-Library.Code_Target_Numeral"
begin

text \<open>
  What the components share: bytes and byte strings, the decimal integer
  conversions of the C++ standard library (\<open>std::to_string\<close> and
  \<open>std::from_chars\<close> on \<open>std::int64_t\<close>), \<open>std::stable_sort\<close> with a comparison
  function, and the ordering contract its callers rely on.

  A \<open>std::string\<close> is a \<^typ>\<open>string\<close>, one \<^typ>\<open>char\<close> per byte. The order
  of HOL-Library.List_Lexorder over HOL-Library.Char_ord is the order of
  \<open>std::string\<close>: lexicographic on bytes read as unsigned numbers.
\<close>

named_theorems decimal_facts \<open>facts about decimal printing and reading\<close>
named_theorems sort_facts \<open>facts about stable_sort\<close>

section \<open>Bytes and strings\<close>

abbreviation byte :: "char \<Rightarrow> nat" where
  "byte c \<equiv> of_char c"

text \<open>\<open>std::string_view::find\<close> of one character; \<^const>\<open>None\<close> is \<open>npos\<close>.\<close>

fun find_char :: "char \<Rightarrow> string \<Rightarrow> nat option" where
  "find_char c [] = None"
| "find_char c (x # xs) = (if x = c then Some 0 else map_option Suc (find_char c xs))"

definition is_digit :: "char \<Rightarrow> bool" where
  "is_digit c \<longleftrightarrow> 48 \<le> byte c \<and> byte c \<le> 57"

definition digit_val :: "char \<Rightarrow> nat" where
  "digit_val c = byte c - 48"

definition digit_char :: "nat \<Rightarrow> char" where
  "digit_char d = char_of (48 + d)"

definition contains_no_control_or_space :: "string \<Rightarrow> bool" where
  "contains_no_control_or_space s = list_all (\<lambda>c. \<not> (byte c \<le> 32 \<or> byte c = 127)) s"

section \<open>Decimal integers\<close>

text \<open>The range of \<open>std::int64_t\<close>.\<close>

definition int64_ok :: "int \<Rightarrow> bool" where
  "int64_ok i \<longleftrightarrow> - (2 ^ 63) \<le> i \<and> i < 2 ^ 63"

fun nat_to_string :: "nat \<Rightarrow> string" where
  "nat_to_string n =
     (if n < 10 then [digit_char n] else nat_to_string (n div 10) @ [digit_char (n mod 10)])"

declare nat_to_string.simps [simp del]

definition to_string :: "int \<Rightarrow> string" where
  "to_string i = (if i < 0 then CHR ''-'' # nat_to_string (nat (- i)) else nat_to_string (nat i))"

definition digits_value :: "string \<Rightarrow> nat" where
  "digits_value s = foldl (\<lambda>n c. 10 * n + digit_val c) 0 s"

text \<open>
  \<open>std::from_chars\<close> for \<open>std::int64_t\<close> in base ten: an optional minus sign, then
  the longest run of digits. \<open>Parsed v rest\<close> carries the bytes from the returned
  pointer on.
\<close>

datatype FromChars = InvalidArgument | ResultOutOfRange | Parsed int string

definition from_chars_int64 :: "string \<Rightarrow> FromChars" where
  "from_chars_int64 s =
     (let neg = (case s of [] \<Rightarrow> False | c # _ \<Rightarrow> c = CHR ''-'');
          body = (if neg then tl s else s);
          ds = takeWhile is_digit body;
          rest = dropWhile is_digit body;
          v = (if neg then - int (digits_value ds) else int (digits_value ds))
      in if ds = [] then InvalidArgument
         else if int64_ok v then Parsed v rest else ResultOutOfRange)"

lemma find_char_at: "c \<notin> set a \<Longrightarrow> find_char c (a @ c # b) = Some (length a)"
  by (induction a) auto

lemma find_char_missing: "find_char c s = None \<longleftrightarrow> c \<notin> set s"
  by (induction s) auto

lemma find_char_split:
  "find_char c s = Some i \<Longrightarrow> s = take i s @ c # drop (Suc i) s \<and> c \<notin> set (take i s)"
  by (induction s arbitrary: i) (auto split: if_splits)

lemma find_char_append_Some: "find_char c a = Some i \<Longrightarrow> find_char c (a @ b) = Some i"
  by (induction a arbitrary: i) (auto split: if_splits)

lemma byte_inj: "byte c = byte d \<longleftrightarrow> c = d"
  by (metis char_of_char)

lemma byte_digit_char [simp]: "d < 10 \<Longrightarrow> byte (digit_char d) = 48 + d"
  by (simp add: digit_char_def)

lemma is_digit_digit_char [simp]: "d < 10 \<Longrightarrow> is_digit (digit_char d)"
  by (simp add: is_digit_def)

lemma digit_val_digit_char [simp]: "d < 10 \<Longrightarrow> digit_val (digit_char d) = d"
  by (simp add: digit_val_def)

lemma digits_value_snoc [simp]: "digits_value (s @ [c]) = 10 * digits_value s + digit_val c"
  by (simp add: digits_value_def)

lemma digits_value_Nil [simp]: "digits_value [] = 0"
  by (simp add: digits_value_def)

lemma digits_value_nat_to_string [simp, decimal_facts]: "digits_value (nat_to_string n) = n"
proof (induction n rule: nat_to_string.induct)
  case (1 n)
  show ?case
  proof (cases "n < 10")
    case True
    then show ?thesis
      by (simp add: nat_to_string.simps [of n] digits_value_def)
  next
    case False
    with "1.IH" show ?thesis
      by (simp add: nat_to_string.simps [of n])
  qed
qed

lemma nat_to_string_digits [simp, decimal_facts]: "\<forall>c \<in> set (nat_to_string n). is_digit c"
proof (induction n rule: nat_to_string.induct)
  case (1 n)
  show ?case
  proof (cases "n < 10")
    case False
    with "1.IH" show ?thesis by (auto simp: nat_to_string.simps [of n])
  qed (simp add: nat_to_string.simps [of n])
qed

lemma nat_to_string_not_Nil [simp, decimal_facts]: "nat_to_string n \<noteq> []"
  by (subst nat_to_string.simps) simp

lemma nat_to_string_takeWhile_id [simp]:
  "takeWhile is_digit (nat_to_string n) = nat_to_string n"
  "dropWhile is_digit (nat_to_string n) = []"
  by (simp_all add: takeWhile_eq_all_conv)

lemma nat_to_string_takeWhile:
  assumes "r = [] \<or> \<not> is_digit (hd r)"
  shows "takeWhile is_digit (nat_to_string n @ r) = nat_to_string n"
    and "dropWhile is_digit (nat_to_string n @ r) = r"
  using assms by (cases r; simp)+

lemma minus_not_digit [simp]: "\<not> is_digit (CHR ''-'')"
  by (simp add: is_digit_def)

lemma nat_to_string_hd: "is_digit (hd (nat_to_string n))"
  using nat_to_string_digits [of n] by (cases "nat_to_string n") auto

lemma nat_to_string_not_minus: "nat_to_string n = c # s \<Longrightarrow> c \<noteq> CHR ''-''"
  using nat_to_string_hd [of n] by auto

text \<open>The first digit of a printed number is zero only for the number zero.\<close>

lemma nat_to_string_hd_pos:
  "0 < n \<Longrightarrow> 49 \<le> byte (hd (nat_to_string n)) \<and> byte (hd (nat_to_string n)) \<le> 57"
proof (induction n rule: nat_to_string.induct)
  case (1 n)
  show ?case
  proof (cases "n < 10")
    case True
    with "1.prems" show ?thesis by (simp add: nat_to_string.simps [of n])
  next
    case False
    with "1.IH" show ?thesis by (simp add: nat_to_string.simps [of n])
  qed
qed

lemma nat_to_string_0 [simp]: "nat_to_string 0 = ''0''"
  by (subst nat_to_string.simps) (simp add: digit_char_def char_of_def bit_0)

lemma to_string_not_Nil [simp]: "to_string i \<noteq> []"
  by (simp add: to_string_def)

lemma from_chars_to_string:
  assumes "int64_ok i" and "r = [] \<or> \<not> is_digit (hd r)"
  shows "from_chars_int64 (to_string i @ r) = Parsed i r"
proof (cases "i < 0")
  case True
  then show ?thesis
    using assms by (cases r) (simp_all add: from_chars_int64_def to_string_def Let_def)
next
  case False
  then obtain n where i: "i = int n" by (metis nonneg_int_cases not_le)
  have "(case nat_to_string n @ r of [] \<Rightarrow> False | c # _ \<Rightarrow> c = CHR ''-'') = False"
    using nat_to_string_not_minus [of n] by (cases "nat_to_string n") auto
  then show ?thesis
    using assms i by (cases r) (simp_all add: from_chars_int64_def to_string_def Let_def)
qed

text \<open>A printed integer ends where its digits end, so it can be read back off a longer text.\<close>

lemma nat_to_string_cancel:
  assumes "nat_to_string n @ r = nat_to_string m @ r'"
    and "r = [] \<or> \<not> is_digit (hd r)" and "r' = [] \<or> \<not> is_digit (hd r')"
  shows "n = m \<and> r = r'"
proof -
  from assms have "nat_to_string n = nat_to_string m" and "r = r'"
    using nat_to_string_takeWhile [of r n] nat_to_string_takeWhile [of r' m] by metis+
  then show ?thesis by (metis digits_value_nat_to_string)
qed

lemma to_string_cancel:
  assumes eq: "to_string i @ r = to_string j @ r'"
    and r: "r = [] \<or> \<not> is_digit (hd r)" and r': "r' = [] \<or> \<not> is_digit (hd r')"
  shows "i = j \<and> r = r'"
proof (cases "i < 0"; cases "j < 0")
  assume "i < 0" "j < 0"
  with eq have "nat_to_string (nat (- i)) @ r = nat_to_string (nat (- j)) @ r'"
    by (simp add: to_string_def)
  from nat_to_string_cancel [OF this r r'] show ?thesis
    using \<open>i < 0\<close> \<open>j < 0\<close> by auto
next
  assume "\<not> i < 0" "\<not> j < 0"
  with eq have "nat_to_string (nat i) @ r = nat_to_string (nat j) @ r'"
    by (simp add: to_string_def)
  from nat_to_string_cancel [OF this r r'] show ?thesis
    using \<open>\<not> i < 0\<close> \<open>\<not> j < 0\<close> by auto
next
  assume "i < 0" "\<not> j < 0"
  with eq show ?thesis
    using nat_to_string_not_minus [of "nat j"]
    by (cases "nat_to_string (nat j)") (auto simp: to_string_def)
next
  assume "\<not> i < 0" "j < 0"
  with eq show ?thesis
    using nat_to_string_not_minus [of "nat i"]
    by (cases "nat_to_string (nat i)") (auto simp: to_string_def)
qed

section \<open>Sorting with a comparison function\<close>

fun insert_by :: "('a \<Rightarrow> 'a \<Rightarrow> bool) \<Rightarrow> 'a \<Rightarrow> 'a list \<Rightarrow> 'a list" where
  "insert_by lt x [] = [x]"
| "insert_by lt x (y # ys) = (if lt y x then y # insert_by lt x ys else x # y # ys)"

text \<open>
  \<open>std::stable_sort\<close>: elements the comparison does not separate keep their order.
\<close>

definition stable_sort :: "('a \<Rightarrow> 'a \<Rightarrow> bool) \<Rightarrow> 'a list \<Rightarrow> 'a list" where
  "stable_sort lt xs = foldr (insert_by lt) xs []"

lemma mset_insert_by [simp]: "mset (insert_by lt x ys) = add_mset x (mset ys)"
  by (induction ys) auto

lemma mset_stable_sort [simp, sort_facts]: "mset (stable_sort lt xs) = mset xs"
  unfolding stable_sort_def by (induction xs) auto

lemma set_insert_by [simp]: "set (insert_by lt x ys) = insert x (set ys)"
  by (metis mset_insert_by set_mset_add_mset_insert set_mset_mset)

lemma set_stable_sort [simp, sort_facts]: "set (stable_sort lt xs) = set xs"
  by (metis mset_stable_sort set_mset_mset)

lemma distinct_stable_sort [simp, sort_facts]: "distinct (stable_sort lt xs) = distinct xs"
  by (metis mset_eq_imp_distinct_iff mset_stable_sort)

lemma length_stable_sort [simp]: "length (stable_sort lt xs) = length xs"
  by (metis mset_stable_sort size_mset)

text \<open>
  The contract of a comparison: irreflexive, transitive, and it separates any two
  elements with different identities. Every caller of a sort in the event engine
  relies on it, since room state must not depend on the order the input arrived in.
\<close>

locale identity_order =
  fixes lt :: "'a \<Rightarrow> 'a \<Rightarrow> bool"
    and ident :: "'a \<Rightarrow> 'k"
  assumes lt_irrefl: "\<not> lt x x"
    and lt_trans: "lt x y \<Longrightarrow> lt y z \<Longrightarrow> lt x z"
    and lt_separates: "ident x \<noteq> ident y \<Longrightarrow> lt x y \<or> lt y x"
begin

lemma lt_asym: "lt x y \<Longrightarrow> \<not> lt y x"
  using lt_irrefl lt_trans by blast

lemma insert_by_sorted:
  assumes "sorted_wrt lt ys" and "\<forall>y \<in> set ys. ident y \<noteq> ident x"
  shows "sorted_wrt lt (insert_by lt x ys)"
  using assms
proof (induction ys)
  case (Cons y ys)
  show ?case
  proof (cases "lt y x")
    case True
    with Cons show ?thesis by auto
  next
    case False
    with Cons.prems lt_separates [of x y] have "lt x y" by auto
    with Cons.prems have "\<forall>z \<in> set ys. lt x z" by (auto intro: lt_trans)
    with False Cons.prems \<open>lt x y\<close> show ?thesis by simp
  qed
qed simp

lemma stable_sort_sorted:
  assumes "inj_on ident (set xs)" and "distinct xs"
  shows "sorted_wrt lt (stable_sort lt xs)"
  using assms
proof (induction xs)
  case (Cons x xs)
  then have "sorted_wrt lt (stable_sort lt xs)" by simp
  moreover have "\<forall>y \<in> set (stable_sort lt xs). ident y \<noteq> ident x"
    using Cons.prems by (metis distinct.simps(2) inj_on_eq_iff list.set_intros set_stable_sort)
  ultimately show ?case
    using insert_by_sorted by (simp add: stable_sort_def)
qed (simp add: stable_sort_def)

lemma sorted_unique:
  assumes "sorted_wrt lt xs" and "sorted_wrt lt ys" and "mset xs = mset ys"
  shows "xs = ys"
  using assms
proof (induction xs arbitrary: ys)
  case (Cons x xs)
  then obtain y ys' where ys: "ys = y # ys'" by (cases ys) auto
  have "x = y"
  proof (rule ccontr)
    assume "x \<noteq> y"
    from Cons.prems(3) ys have "x \<in> set (y # ys')" and "y \<in> set (x # xs)"
      by (metis list.set_intros(1) mset_eq_setD)+
    with \<open>x \<noteq> y\<close> have "x \<in> set ys'" and "y \<in> set xs" by auto
    with Cons.prems(1,2) ys have "lt y x" and "lt x y" by auto
    then show False by (blast dest: lt_asym)
  qed
  moreover have "xs = ys'"
    using Cons.IH [of ys'] Cons.prems ys \<open>x = y\<close> by simp
  ultimately show ?case using ys by simp
qed simp

text \<open>The sort forgets the order of its input.\<close>

lemma stable_sort_order_free:
  assumes "mset xs = mset ys" and "inj_on ident (set xs)" and "distinct xs"
  shows "stable_sort lt xs = stable_sort lt ys"
proof (rule sorted_unique)
  show "sorted_wrt lt (stable_sort lt xs)"
    using assms by (intro stable_sort_sorted)
  have "inj_on ident (set ys)" and "distinct ys"
    using assms by (metis mset_eq_setD, metis mset_eq_imp_distinct_iff)
  then show "sorted_wrt lt (stable_sort lt ys)"
    by (rule stable_sort_sorted)
  show "mset (stable_sort lt xs) = mset (stable_sort lt ys)"
    using assms by simp
qed

end

text \<open>A list that is already sorted is a fixed point of the sort.\<close>

lemma insert_by_head: "\<forall>y \<in> set ys. \<not> lt y x \<Longrightarrow> insert_by lt x ys = x # ys"
  by (cases ys) auto

lemma stable_sort_id:
  assumes "sorted_wrt (\<lambda>x y. \<not> lt y x) xs"
  shows "stable_sort lt xs = xs"
  using assms unfolding stable_sort_def
  by (induction xs) (auto simp: insert_by_head)

lemma map_insert_by:
  assumes "\<And>a b. lt' (f a) (f b) = lt a b"
  shows "map f (insert_by lt x ys) = insert_by lt' (f x) (map f ys)"
  by (induction ys) (auto simp: assms)

lemma map_stable_sort:
  assumes "\<And>a b. lt' (f a) (f b) = lt a b"
  shows "map f (stable_sort lt xs) = stable_sort lt' (map f xs)"
  unfolding stable_sort_def
  by (induction xs) (auto simp: map_insert_by [of lt' f lt] assms)

text \<open>Comparisons that agree on a list sort it the same way.\<close>

lemma insert_by_cong:
  "(\<And>y. y \<in> set ys \<Longrightarrow> lt y x = lt' y x) \<Longrightarrow> insert_by lt x ys = insert_by lt' x ys"
  by (induction ys) auto

lemma stable_sort_cong:
  "(\<And>x y. x \<in> set xs \<Longrightarrow> y \<in> set xs \<Longrightarrow> lt x y = lt' x y) \<Longrightarrow> stable_sort lt xs = stable_sort lt' xs"
proof (induction xs)
  case (Cons x xs)
  then have "stable_sort lt xs = stable_sort lt' xs" by simp
  moreover have "insert_by lt x (stable_sort lt' xs) = insert_by lt' x (stable_sort lt' xs)"
    using Cons.prems by (intro insert_by_cong) simp
  ultimately show ?case by (simp add: stable_sort_def)
qed (simp add: stable_sort_def)

section \<open>Filtering maps\<close>

lemma length_map_filter: "length (List.map_filter f xs) \<le> length xs"
  by (induction xs) (auto simp: map_filter_simps split: option.split)

lemma map_filter_all: "length (List.map_filter f xs) = length xs \<longleftrightarrow> (\<forall>x \<in> set xs. f x \<noteq> None)"
proof (induction xs)
  case (Cons x xs)
  then show ?case
    using length_map_filter [of f xs] by (cases "f x") (simp_all add: map_filter_simps)
qed (simp add: map_filter_simps)

lemma map_filter_total: "\<forall>x \<in> set xs. f x \<noteq> None \<Longrightarrow> List.map_filter f xs = map (\<lambda>x. the (f x)) xs"
  by (induction xs) (auto simp: map_filter_simps)

lemma mset_filter_eq: "mset xs = mset ys \<Longrightarrow> mset (filter P xs) = mset (filter P ys)"
  by (metis mset_filter)

lemma distinct_map_remdups: "distinct (map f (remdups xs)) \<Longrightarrow> inj_on f (set xs)"
  by (simp add: distinct_map)

end
