(* ===== verification/Json_Value.thy ===== *)
theory Json_Value
  imports Merovingian_Prelude
begin

text \<open>
  The JSON tree of \<open>include/merovingian/canonicaljson/value.hpp\<close> and the read-only
  accessors the event engine uses on it. \<open>Value\<close> is the \<open>std::variant\<close> of the source,
  constructor by constructor. An object is its vector of members, in order and with
  whatever duplicates it holds: nothing in the type keeps keys distinct, the parser
  and the serializer do.

  A \<open>double\<close> is its 64-bit pattern. An \<open>std::int64_t\<close> is an \<^typ>\<open>int\<close>;
  \<^const>\<open>int64_ok\<close> is its range. A member always owns a child value: \<open>make_member\<close>, the only
  way the sources build one, allocates it.
\<close>

datatype Value =
    VNull
  | VBool bool
  | VInt int
  | VDouble "64 word"
  | VString string
  | VArray "Value list"
  | VObject "(string \<times> Value) list"

type_synonym Object = "(string \<times> Value) list"

definition make_member :: "string \<Rightarrow> Value \<Rightarrow> string \<times> Value" where
  "make_member key v = (key, v)"

text \<open>\<open>std::get_if\<close> on the storage variant.\<close>

fun get_if_string :: "Value \<Rightarrow> string option" where
  "get_if_string (VString s) = Some s"
| "get_if_string _ = None"

fun get_if_int :: "Value \<Rightarrow> int option" where
  "get_if_int (VInt i) = Some i"
| "get_if_int _ = None"

fun get_if_bool :: "Value \<Rightarrow> bool option" where
  "get_if_bool (VBool b) = Some b"
| "get_if_bool _ = None"

fun get_if_array :: "Value \<Rightarrow> Value list option" where
  "get_if_array (VArray xs) = Some xs"
| "get_if_array _ = None"

fun value_is_object :: "Value \<Rightarrow> Object option" where
  "value_is_object (VObject ms) = Some ms"
| "value_is_object _ = None"

definition value_has_content :: "Value \<Rightarrow> bool" where
  "value_has_content v \<longleftrightarrow> v \<noteq> VNull"

text \<open>The first member with the key; \<open>nullptr\<close> is \<^const>\<open>None\<close>.\<close>

definition object_member :: "Object \<Rightarrow> string \<Rightarrow> Value option" where
  "object_member obj key = map_of obj key"

definition string_member :: "Object \<Rightarrow> string \<Rightarrow> string option" where
  "string_member obj key = Option.bind (object_member obj key) get_if_string"

definition integer_member :: "Object \<Rightarrow> string \<Rightarrow> int option" where
  "integer_member obj key = Option.bind (object_member obj key) get_if_int"

definition object_member_as_object :: "Object \<Rightarrow> string \<Rightarrow> Object option" where
  "object_member_as_object obj key = Option.bind (object_member obj key) value_is_object"

definition array_member :: "Object \<Rightarrow> string \<Rightarrow> Value list option" where
  "array_member obj key = Option.bind (object_member obj key) get_if_array"

lemmas member_defs = object_member_def string_member_def integer_member_def
  object_member_as_object_def array_member_def

section \<open>Inversion of the accessors\<close>

lemma get_if_string_Some [simp]: "get_if_string v = Some s \<longleftrightarrow> v = VString s"
  by (cases v) auto

lemma get_if_int_Some [simp]: "get_if_int v = Some i \<longleftrightarrow> v = VInt i"
  by (cases v) auto

lemma get_if_bool_Some [simp]: "get_if_bool v = Some b \<longleftrightarrow> v = VBool b"
  by (cases v) auto

lemma get_if_array_Some [simp]: "get_if_array v = Some xs \<longleftrightarrow> v = VArray xs"
  by (cases v) auto

lemma value_is_object_Some [simp]: "value_is_object v = Some ms \<longleftrightarrow> v = VObject ms"
  by (cases v) auto

lemma string_member_Some: "string_member obj k = Some s \<longleftrightarrow> object_member obj k = Some (VString s)"
  by (auto simp: string_member_def bind_eq_Some_conv)

lemma object_member_as_object_Some:
  "object_member_as_object obj k = Some ms \<longleftrightarrow> object_member obj k = Some (VObject ms)"
  by (auto simp: object_member_as_object_def bind_eq_Some_conv)

lemma object_member_in_set: "object_member obj k = Some v \<Longrightarrow> (k, v) \<in> set obj"
  by (simp add: object_member_def map_of_SomeD)

section \<open>Removing members\<close>

text \<open>
  \<open>clone_without_fields\<close> of \<open>event_id.cpp\<close>: the object less the members with the listed
  keys, order kept.
\<close>

definition clone_without_fields :: "Object \<Rightarrow> string list \<Rightarrow> Object" where
  "clone_without_fields obj fields = filter (\<lambda>m. \<not> list_ex (\<lambda>field. fst m = field) fields) obj"

lemma clone_without_fields_eq:
  "clone_without_fields obj fields = filter (\<lambda>m. fst m \<notin> set fields) obj"
  unfolding clone_without_fields_def by (rule filter_cong) (auto simp: list_ex_iff)

lemma object_member_without:
  "object_member (clone_without_fields obj fields) k =
     (if k \<in> set fields then None else object_member obj k)"
  unfolding clone_without_fields_eq object_member_def
  by (induction obj) auto

lemma clone_without_fields_twice:
  "clone_without_fields (clone_without_fields obj fs) gs = clone_without_fields obj (fs @ gs)"
  unfolding clone_without_fields_eq by (auto intro: filter_cong)

lemma map_of_filter_keys:
  "P k \<Longrightarrow> map_of (filter (\<lambda>m. P (fst m)) obj) k = map_of obj k"
  by (induction obj) auto

end
