(* ===== verification/Json_Utf8.thy ===== *)
theory Json_Utf8
  imports Merovingian_Prelude
begin

text \<open>
  The UTF-8 validator \<open>utf8_is_valid\<close> of \<open>src/canonicaljson/parser.cpp\<close>. It guards the
  input of both JSON parsers and every string the canonical serializer writes. The
  theorem of this theory is that it accepts exactly the encodings of sequences of
  Unicode scalar values, the definition of well-formed UTF-8: overlong forms,
  surrogates and code points past U+10FFFF are all refused, nothing else is.
\<close>

unbundle bit_operations_syntax

named_theorems utf8_bits \<open>the validator's bit masks as ranges\<close>

text \<open>
  Classification of a lead byte above \<open>0x7F\<close>: sequence length, least code point of
  that length, and the payload bits of the lead byte.
\<close>

definition utf8_lead :: "nat \<Rightarrow> (nat \<times> nat \<times> nat) option" where
  "utf8_lead first =
     (if first AND 0xE0 = 0xC0 then Some (2, 0x80, first AND 0x1F)
      else if first AND 0xF0 = 0xE0 then Some (3, 0x800, first AND 0x0F)
      else if first AND 0xF8 = 0xF0 then Some (4, 0x10000, first AND 0x07)
      else None)"

text \<open>
  The loop over the continuation bytes. The accumulator of the source is a
  \<open>std::uint32_t\<close>; at most 3 + 3 * 6 = 21 bits are ever set, so it does not wrap.
\<close>

fun utf8_continue :: "nat \<Rightarrow> string \<Rightarrow> nat option" where
  "utf8_continue codepoint [] = Some codepoint"
| "utf8_continue codepoint (c # cs) =
     (if byte c AND 0xC0 \<noteq> 0x80 then None
      else utf8_continue (push_bit 6 codepoint OR (byte c AND 0x3F)) cs)"

definition utf8_codepoint_ok :: "nat \<Rightarrow> nat \<Rightarrow> bool" where
  "utf8_codepoint_ok min_codepoint codepoint \<longleftrightarrow>
     \<not> (codepoint < min_codepoint \<or> codepoint > 0x10FFFF
        \<or> (codepoint \<ge> 0xD800 \<and> codepoint \<le> 0xDFFF))"

function utf8_is_valid :: "string \<Rightarrow> bool" where
  "utf8_is_valid [] = True"
| "utf8_is_valid (c # cs) =
     (if byte c \<le> 0x7F then utf8_is_valid cs
      else case utf8_lead (byte c) of
             None \<Rightarrow> False
           | Some (len, min_codepoint, codepoint) \<Rightarrow>
               if length (c # cs) < len then False
               else case utf8_continue codepoint (take (len - 1) cs) of
                      None \<Rightarrow> False
                    | Some codepoint' \<Rightarrow>
                        if utf8_codepoint_ok min_codepoint codepoint'
                        then utf8_is_valid (drop (len - 1) cs) else False)"
  by pat_completeness auto
termination
  by (relation "measure length") auto

section \<open>The specification: encodings of scalar values\<close>

definition scalar_value :: "nat \<Rightarrow> bool" where
  "scalar_value u \<longleftrightarrow> u \<le> 0x10FFFF \<and> \<not> (0xD800 \<le> u \<and> u \<le> 0xDFFF)"

definition utf8_encode :: "nat \<Rightarrow> nat list" where
  "utf8_encode u =
     (if u < 0x80 then [u]
      else if u < 0x800 then [192 + u div 64, 128 + u mod 64]
      else if u < 0x10000 then [224 + u div 4096, 128 + u div 64 mod 64, 128 + u mod 64]
      else [240 + u div 262144, 128 + u div 4096 mod 64, 128 + u div 64 mod 64, 128 + u mod 64])"

definition utf8_text :: "string \<Rightarrow> bool" where
  "utf8_text s \<longleftrightarrow> (\<exists>us. list_all scalar_value us \<and> map byte s = concat (map utf8_encode us))"

section \<open>Masks as ranges\<close>

lemma and_high_mask: "(b::nat) AND push_bit n (mask k) = b div 2 ^ n mod 2 ^ k * 2 ^ n"
proof -
  have "b AND push_bit n (mask k) = push_bit n (take_bit k (drop_bit n b))"
    by (rule bit_eqI) (auto simp: bit_simps)
  then show ?thesis by (simp add: push_bit_eq_mult take_bit_eq_mod drop_bit_eq_div)
qed

lemma and_low_mask: "(b::nat) AND mask n = b mod 2 ^ n"
  using take_bit_eq_mask [of n b] by (simp add: take_bit_eq_mod)

lemma low_masks [utf8_bits]:
  "(b::nat) AND 0x1F = b mod 32" "b AND 0x0F = b mod 16" "b AND 0x07 = b mod 8" "b AND 0x3F = b mod 64"
  using and_low_mask [of b 5] and_low_mask [of b 4] and_low_mask [of b 3] and_low_mask [of b 6]
  by (simp_all add: mask_eq_exp_minus_1)

lemma lead_masks [utf8_bits]:
  assumes "b < 256"
  shows "((b::nat) AND 0xE0 = 0xC0) = (192 \<le> b \<and> b < 224)"
    and "(b AND 0xF0 = 0xE0) = (224 \<le> b \<and> b < 240)"
    and "(b AND 0xF8 = 0xF0) = (240 \<le> b \<and> b < 248)"
    and "(b AND 0xC0 = 0x80) = (128 \<le> b \<and> b < 192)"
  using assms and_high_mask [of b 5 3] and_high_mask [of b 4 4] and_high_mask [of b 3 5]
    and_high_mask [of b 6 2]
  by (auto simp add: mask_eq_exp_minus_1 push_bit_eq_mult)

lemma append_six_bits [utf8_bits]: "push_bit 6 c OR (b AND 0x3F) = c * 64 + (b::nat) mod 64"
proof -
  have "push_bit 6 c AND take_bit 6 b = 0"
    by (rule bit_eqI) (auto simp: bit_simps)
  then have "push_bit 6 c OR take_bit 6 b = push_bit 6 c + take_bit 6 b"
    by (simp add: disjunctive_add_eq_or)
  then show ?thesis by (simp add: utf8_bits take_bit_eq_mod push_bit_eq_mult)
qed

lemma byte_bound: "byte c < 256"
  by simp

lemma mod_offset:
  "128 \<le> b \<Longrightarrow> b < 192 \<Longrightarrow> b mod 64 = b - (128::nat)"
  "192 \<le> b \<Longrightarrow> b < 224 \<Longrightarrow> b mod 32 = b - 192"
  "224 \<le> b \<Longrightarrow> b < 240 \<Longrightarrow> b mod 16 = b - 224"
  "240 \<le> b \<Longrightarrow> b < 248 \<Longrightarrow> b mod 8 = b - 240"
  by (rule mod_nat_eqI; simp add: mod_eq_0_iff_dvd)+

lemma div_chain:
  "u div 4096 = u div 64 div (64::nat)" "u div 262144 = u div 64 div 64 div (64::nat)"
  by (simp_all add: div_mult2_eq [symmetric])

lemma utf8_lead_eq:
  "utf8_lead (byte c) =
     (if 192 \<le> byte c \<and> byte c < 224 then Some (2, 0x80, byte c - 192)
      else if 224 \<le> byte c \<and> byte c < 240 then Some (3, 0x800, byte c - 224)
      else if 240 \<le> byte c \<and> byte c < 248 then Some (4, 0x10000, byte c - 240)
      else None)"
  unfolding utf8_lead_def by (simp add: lead_masks [OF byte_bound] low_masks mod_offset)

lemma utf8_continue_Cons:
  "utf8_continue u (c # cs) =
     (if 128 \<le> byte c \<and> byte c < 192 then utf8_continue (u * 64 + (byte c - 128)) cs else None)"
proof (cases "128 \<le> byte c \<and> byte c < 192")
  case True
  then have "byte c mod 64 = byte c - 128" by (simp add: mod_offset)
  with True show ?thesis by (simp add: lead_masks [OF byte_bound] append_six_bits)
qed (auto simp: lead_masks [OF byte_bound] utf8_continue.simps)

declare utf8_continue.simps(2) [simp del] utf8_is_valid.simps(2) [simp del]

lemma six_bits:
  "z < 64 \<Longrightarrow> (t * 64 + z) div 64 = (t::nat)" "z < 64 \<Longrightarrow> (t * 64 + z) mod 64 = (z::nat)"
  by simp_all

section \<open>Soundness and completeness of the validator\<close>

lemma map_byte_eq [simp]: "map byte s = map byte r \<longleftrightarrow> s = r"
  by (metis byte_inj inj_mapD inj_onI inj_on_def list.inj_map_strong)

text \<open>One step of the validator consumes one encoded scalar value.\<close>

lemma utf8_is_valid_multibyte:
  assumes "127 < byte c" and "utf8_lead (byte c) = Some (Suc (length ds), m, u)"
  shows "utf8_is_valid (c # ds @ r) =
     (case utf8_continue u ds of None \<Rightarrow> False | Some u' \<Rightarrow> utf8_codepoint_ok m u' \<and> utf8_is_valid r)"
  using assms by (auto simp: utf8_is_valid.simps split: option.splits)

lemma utf8_step_complete:
  assumes u: "scalar_value u" and s: "map byte s = utf8_encode u @ map byte r"
  shows "utf8_is_valid s = utf8_is_valid r"
proof -
  consider "u < 0x80" | "0x80 \<le> u" "u < 0x800" | "0x800 \<le> u" "u < 0x10000" | "0x10000 \<le> u"
    by linarith
  then show ?thesis
  proof cases
    case 1
    with s obtain c cs where "s = c # cs" "byte c = u" "cs = r"
      by (auto simp: utf8_encode_def)
    with 1 show ?thesis by (simp add: utf8_is_valid.simps)
  next
    case 2
    with s obtain c d where cd: "s = c # [d] @ r" "byte c = 192 + u div 64" "byte d = 128 + u mod 64"
      by (auto simp: utf8_encode_def)
    have lead: "utf8_lead (byte c) = Some (Suc (length [d]), 0x80, u div 64)"
      using 2 cd(2) unfolding utf8_lead_eq by auto
    moreover have "utf8_continue (u div 64) [d] = Some u"
      using cd(3) by (simp add: utf8_continue_Cons)
    ultimately show ?thesis
      using 2 u cd(1,2) utf8_is_valid_multibyte [OF _ lead, of r]
      by (simp add: utf8_codepoint_ok_def scalar_value_def)
  next
    case 3
    with s obtain c d e where cd: "s = c # [d, e] @ r" "byte c = 224 + u div 64 div 64"
      "byte d = 128 + u div 64 mod 64" "byte e = 128 + u mod 64"
      by (auto simp: utf8_encode_def div_chain)
    have lead: "utf8_lead (byte c) = Some (Suc (length [d, e]), 0x800, u div 64 div 64)"
      using 3 cd(2) unfolding utf8_lead_eq by auto
    moreover have "utf8_continue (u div 64 div 64) [d, e] = Some u"
      using cd(3,4) by (simp add: utf8_continue_Cons)
    ultimately show ?thesis
      using 3 u cd(1,2) utf8_is_valid_multibyte [OF _ lead, of r]
      by (simp add: utf8_codepoint_ok_def scalar_value_def)
  next
    case 4
    with s obtain c d e f where cd: "s = c # [d, e, f] @ r" "byte c = 240 + u div 64 div 64 div 64"
      "byte d = 128 + u div 64 div 64 mod 64" "byte e = 128 + u div 64 mod 64" "byte f = 128 + u mod 64"
      by (auto simp: utf8_encode_def div_chain)
    have "u div 64 div 64 div 64 < 8" using u by (auto simp: scalar_value_def)
    then have lead: "utf8_lead (byte c) = Some (Suc (length [d, e, f]), 0x10000, u div 64 div 64 div 64)"
      using cd(2) unfolding utf8_lead_eq by auto
    moreover have "utf8_continue (u div 64 div 64 div 64) [d, e, f] = Some u"
      using cd(3-5) by (simp add: utf8_continue_Cons)
    ultimately show ?thesis
      using 4 u cd(1,2) utf8_is_valid_multibyte [OF _ lead, of r]
      by (simp add: utf8_codepoint_ok_def scalar_value_def)
  qed
qed

text \<open>And whatever the validator accepts starts with an encoded scalar value.\<close>

lemma utf8_sequence_encodes:
  assumes lead: "utf8_lead (byte c) = Some (Suc (length ds), m, v)"
    and cont: "utf8_continue v ds = Some u" and ok: "utf8_codepoint_ok m u"
  shows "map byte (c # ds) = utf8_encode u"
proof -
  from lead consider "length ds = 1" | "length ds = 2" | "length ds = 3"
    by (auto simp: utf8_lead_eq split: if_splits)
  then show ?thesis
  proof cases
    case 1
    then obtain d where ds: "ds = [d]" by (auto simp: length_Suc_conv)
    from lead ds obtain x where x: "byte c = 192 + x" "x < 32" "v = x" "m = 0x80"
      by (auto simp: utf8_lead_eq split: if_splits intro: that [of "byte c - 192"])
    from cont ds obtain y where "byte d = 128 + y" "y < 64" "u = v * 64 + y"
      by (auto simp: utf8_continue_Cons split: if_splits intro: that [of "byte d - 128"])
    with x ds ok show ?thesis by (auto simp: utf8_encode_def utf8_codepoint_ok_def)
  next
    case 2
    then obtain d e where ds: "ds = [d, e]" by (auto simp: length_Suc_conv numeral_2_eq_2)
    from lead ds obtain x where x: "byte c = 224 + x" "x < 16" "v = x" "m = 0x800"
      by (auto simp: utf8_lead_eq split: if_splits intro: that [of "byte c - 224"])
    from cont ds obtain y z where "byte d = 128 + y" "y < 64" "byte e = 128 + z" "z < 64"
      "u = (v * 64 + y) * 64 + z"
      by (auto simp: utf8_continue_Cons split: if_splits intro: that [of "byte d - 128" "byte e - 128"])
    moreover from this have "u div 64 = v * 64 + y" "u mod 64 = z" "u div 64 div 64 = v" "u div 64 mod 64 = y"
      by (simp_all only: six_bits)
    moreover have "0x800 \<le> u" "u < 0x10000"
      using x ok calculation by (auto simp: utf8_codepoint_ok_def)
    ultimately show ?thesis using x ds by (simp add: utf8_encode_def div_chain)
  next
    case 3
    then obtain d e f where ds: "ds = [d, e, f]" by (auto simp: length_Suc_conv numeral_3_eq_3)
    from lead ds obtain x where x: "byte c = 240 + x" "x < 8" "v = x" "m = 0x10000"
      by (auto simp: utf8_lead_eq split: if_splits intro: that [of "byte c - 240"])
    from cont ds obtain y z w where parts: "byte d = 128 + y" "y < 64" "byte e = 128 + z" "z < 64"
      "byte f = 128 + w" "w < 64" and u: "u = ((v * 64 + y) * 64 + z) * 64 + w"
      by (auto simp: utf8_continue_Cons split: if_splits
          intro: that [of "byte d - 128" "byte e - 128" "byte f - 128"])
    have bits: "u mod 64 = w" "u div 64 mod 64 = z" "u div 64 div 64 mod 64 = y" "u div 64 div 64 div 64 = v"
      using parts u by (simp_all only: six_bits)
    have "0x10000 \<le> u"
      using x ok by (auto simp: utf8_codepoint_ok_def)
    then show ?thesis using x ds parts bits by (simp add: utf8_encode_def div_chain)
  qed
qed

lemma utf8_step_sound:
  assumes "utf8_is_valid (c # cs)"
  obtains u r where "scalar_value u" "map byte (c # cs) = utf8_encode u @ map byte r"
    "utf8_is_valid r" "length r \<le> length cs"
proof (cases "byte c \<le> 127")
  case True
  with assms show ?thesis
    by (intro that [of "byte c" cs]) (auto simp: utf8_is_valid.simps scalar_value_def utf8_encode_def)
next
  case False
  with assms obtain len m v where lead: "utf8_lead (byte c) = Some (len, m, v)"
    by (auto simp: utf8_is_valid.simps split: option.splits)
  define ds where "ds = take (len - 1) cs"
  define r where "r = drop (len - 1) cs"
  have cs: "cs = ds @ r" by (simp add: ds_def r_def)
  from assms False lead have "len \<le> Suc (length cs)"
    by (auto simp: utf8_is_valid.simps split: if_splits)
  with lead have len: "len = Suc (length ds)"
    by (auto simp: ds_def utf8_lead_eq split: if_splits)
  with assms False lead cs obtain u where u: "utf8_continue v ds = Some u" "utf8_codepoint_ok m u"
    and r: "utf8_is_valid r"
    by (auto simp: utf8_is_valid_multibyte split: option.splits)
  have "map byte (c # ds) = utf8_encode u"
    using lead len u utf8_sequence_encodes by blast
  then show ?thesis
    using u r cs by (intro that [of u r]) (auto simp: utf8_codepoint_ok_def scalar_value_def)
qed

lemma utf8_is_valid_sound: "utf8_is_valid s \<Longrightarrow> utf8_text s"
proof (induction "length s" arbitrary: s rule: less_induct)
  case less
  show ?case
  proof (cases s)
    case Nil
    then show ?thesis by (auto simp: utf8_text_def intro: exI [of _ "[]"])
  next
    case (Cons c cs)
    with less.prems obtain u r where ur: "scalar_value u" "map byte s = utf8_encode u @ map byte r"
      "utf8_is_valid r" "length r \<le> length cs"
      by (metis utf8_step_sound)
    with less.hyps [of r] Cons obtain us where "list_all scalar_value us"
      "map byte r = concat (map utf8_encode us)"
      by (auto simp: utf8_text_def)
    with ur show ?thesis
      unfolding utf8_text_def by (intro exI [of _ "u # us"]) simp
  qed
qed

lemma utf8_is_valid_complete:
  "list_all scalar_value us \<Longrightarrow> map byte s = concat (map utf8_encode us) \<Longrightarrow> utf8_is_valid s"
proof (induction us arbitrary: s)
  case (Cons u us)
  define r where "r = drop (length (utf8_encode u)) s"
  have "map byte r = concat (map utf8_encode us)"
    using Cons.prems(2) by (simp add: r_def drop_map [symmetric])
  moreover from this Cons.prems(2) have "map byte s = utf8_encode u @ map byte r" by simp
  ultimately show ?case
    using Cons utf8_step_complete [of u s r] by simp
qed simp

lemma utf8_is_valid_text: "utf8_is_valid s = utf8_text s"
  using utf8_is_valid_sound utf8_is_valid_complete by (auto simp: utf8_text_def)

text \<open>C33: \<open>utf8_is_valid\<close> accepts a byte string exactly when it is well-formed UTF-8, that is,
  the concatenated encodings of a sequence of Unicode scalar values.\<close>

theorem utf8_is_valid_iff: "utf8_is_valid s \<longleftrightarrow> utf8_text s"
  by (rule utf8_is_valid_text)

end
