(* ===== verification/Json_Serializer.thy ===== *)
theory Json_Serializer
  imports Json_Value Json_Utf8
begin

text \<open>
  The canonical JSON serializer, \<open>src/canonicaljson/serializer.cpp\<close>, and the signable
  view of \<open>src/canonicaljson/signable.cpp\<close>.

  A \<open>SerializeResult\<close> is \<open>Inl\<close> of the error or \<open>Inr\<close> of the output. The conversions of
  the C library that only the non-strict path reaches (\<open>snprintf\<close> with \<open>%.*g\<close>,
  \<open>strtod\<close>, \<open>localeconv\<close>) are the fields of \<open>NumericEnv\<close>; the strict path,
  which signing and hashing use, never calls them.

  The theorem: which values serialize at all. The lemmas after it show that the text of a
  value determines the value; \<open>Json_Canonical\<close> turns that into the contract of canonical bytes.
\<close>

section \<open>Data\<close>

datatype CanonicalJsonError = duplicate_object_key | invalid_string | float_not_allowed

type_synonym SerializeResult = "CanonicalJsonError + string"

record NumericEnv =
  snprintf_g :: "nat \<Rightarrow> 64 word \<Rightarrow> string"
  strtod :: "string \<Rightarrow> 64 word \<times> nat"
  decimal_point :: "string option"

definition canonical_json_error_name :: "CanonicalJsonError \<Rightarrow> string" where
  "canonical_json_error_name e =
     (case e of duplicate_object_key \<Rightarrow> ''duplicate_object_key''
              | invalid_string \<Rightarrow> ''invalid_string''
              | float_not_allowed \<Rightarrow> ''float_not_allowed'')"

section \<open>Strings\<close>

definition hex_digit :: "nat \<Rightarrow> char" where
  "hex_digit b = ''0123456789abcdef'' ! (b AND 0x0F)"

text \<open>The bytes \<open>0x5C\<close> and \<open>0x22\<close> are the backslash and the double quote.\<close>

definition append_control_escape :: "nat \<Rightarrow> string" where
  "append_control_escape b = CHR 0x5C # ''u00'' @ [hex_digit (drop_bit 4 b), hex_digit b]"

definition escape_char :: "char \<Rightarrow> string" where
  "escape_char c =
     (if c = CHR 0x22 then [CHR 0x5C, CHR 0x22]
      else if c = CHR 0x5C then [CHR 0x5C, CHR 0x5C]
      else if c = CHR 0x08 then [CHR 0x5C, CHR ''b'']
      else if c = CHR 0x0C then [CHR 0x5C, CHR ''f'']
      else if c = CHR 0x0A then [CHR 0x5C, CHR ''n'']
      else if c = CHR 0x0D then [CHR 0x5C, CHR ''r'']
      else if c = CHR 0x09 then [CHR 0x5C, CHR ''t'']
      else if byte c < 0x20 then append_control_escape (byte c)
      else [c])"

definition append_escaped_string :: "string \<Rightarrow> string" where
  "append_escaped_string s = CHR 0x22 # concat (map escape_char s) @ [CHR 0x22]"

definition string_is_valid_for_json :: "string \<Rightarrow> bool" where
  "string_is_valid_for_json s = utf8_is_valid s"

section \<open>Doubles, on the non-strict path\<close>

text \<open>\<open>==\<close> on \<open>double\<close>: a NaN equals nothing, and the two zeros are equal.\<close>

definition double_is_nan :: "64 word \<Rightarrow> bool" where
  "double_is_nan d \<longleftrightarrow> 0x7FF0000000000000 < (d AND 0x7FFFFFFFFFFFFFFF)"

definition double_eq :: "64 word \<Rightarrow> 64 word \<Rightarrow> bool" where
  "double_eq a b \<longleftrightarrow> \<not> double_is_nan a \<and> \<not> double_is_nan b
     \<and> (a = b \<or> (a AND 0x7FFFFFFFFFFFFFFF = 0 \<and> b AND 0x7FFFFFFFFFFFFFFF = 0))"

fun replace_first :: "string \<Rightarrow> string \<Rightarrow> string \<Rightarrow> string" where
  "replace_first pat rep [] = []"
| "replace_first pat rep (c # cs) =
     (if prefix pat (c # cs) then rep @ drop (length pat) (c # cs)
      else c # replace_first pat rep cs)"

definition normalize_decimal_point :: "NumericEnv \<Rightarrow> string \<Rightarrow> string" where
  "normalize_decimal_point env txt =
     (case decimal_point env of
        None \<Rightarrow> txt
      | Some dp \<Rightarrow> if dp = [] \<or> dp = ''.'' then txt else replace_first dp ''.'' txt)"

text \<open>
  The least precision from 1 to 17 whose text fits the 32-byte buffer and reads back
  as the same number.
\<close>

definition double_text_round_trips :: "NumericEnv \<Rightarrow> 64 word \<Rightarrow> nat \<Rightarrow> bool" where
  "double_text_round_trips env d precision =
     (let txt = snprintf_g env precision d
      in 0 < length txt \<and> length txt < 32
         \<and> (case strtod env txt of (r, used) \<Rightarrow> used = length txt \<and> double_eq r d))"

definition format_double :: "NumericEnv \<Rightarrow> 64 word \<Rightarrow> string" where
  "format_double env d =
     (case find (double_text_round_trips env d) [1..<18] of
        Some precision \<Rightarrow> normalize_decimal_point env (snprintf_g env precision d)
      | None \<Rightarrow> normalize_decimal_point env (snprintf_g env 17 d))"

section \<open>Values\<close>

definition object_has_duplicate_keys :: "Object \<Rightarrow> bool" where
  "object_has_duplicate_keys obj \<longleftrightarrow> \<not> distinct (map fst obj)"

definition member_less :: "string \<times> 'a \<Rightarrow> string \<times> 'a \<Rightarrow> bool" where
  "member_less lhs rhs \<longleftrightarrow> fst lhs < fst rhs"

text \<open>The output loops: items between commas, members as \<open>"key":value\<close>.\<close>

fun join_comma :: "string list \<Rightarrow> string" where
  "join_comma [] = []"
| "join_comma [x] = x"
| "join_comma (x # y # ys) = x @ CHR '','' # join_comma (y # ys)"

definition member_text :: "string \<times> string \<Rightarrow> string" where
  "member_text m = append_escaped_string (fst m) @ CHR '':'' # snd m"

fun serialize_value :: "NumericEnv \<Rightarrow> bool \<Rightarrow> Value \<Rightarrow> SerializeResult"
and serialize_array :: "NumericEnv \<Rightarrow> bool \<Rightarrow> Value list \<Rightarrow> CanonicalJsonError + string list"
and serialize_object :: "NumericEnv \<Rightarrow> bool \<Rightarrow> Object \<Rightarrow> CanonicalJsonError + (string \<times> string) list"
where
  "serialize_value env reject_floats VNull = Inr ''null''"
| "serialize_value env reject_floats (VBool b) = Inr (if b then ''true'' else ''false'')"
| "serialize_value env reject_floats (VInt i) = Inr (to_string i)"
| "serialize_value env reject_floats (VDouble d) =
     (if reject_floats then Inl float_not_allowed else Inr (format_double env d))"
| "serialize_value env reject_floats (VString s) =
     (if \<not> string_is_valid_for_json s then Inl invalid_string else Inr (append_escaped_string s))"
| "serialize_value env reject_floats (VArray xs) =
     (case serialize_array env reject_floats xs of
        Inl e \<Rightarrow> Inl e
      | Inr items \<Rightarrow> Inr (''['' @ join_comma items @ '']''))"
| "serialize_value env reject_floats (VObject ms) =
     (if object_has_duplicate_keys ms then Inl duplicate_object_key
      else case serialize_object env reject_floats ms of
             Inl e \<Rightarrow> Inl e
           | Inr members \<Rightarrow>
               Inr (''{'' @ join_comma (map member_text (stable_sort member_less members)) @ ''}''))"
| "serialize_array env reject_floats [] = Inr []"
| "serialize_array env reject_floats (x # xs) =
     (case serialize_value env reject_floats x of
        Inl e \<Rightarrow> Inl e
      | Inr item \<Rightarrow> map_sum id (\<lambda>items. item # items) (serialize_array env reject_floats xs))"
| "serialize_object env reject_floats [] = Inr []"
| "serialize_object env reject_floats ((key, v) # ms) =
     (if \<not> string_is_valid_for_json key then Inl invalid_string
      else case serialize_value env reject_floats v of
             Inl e \<Rightarrow> Inl e
           | Inr txt \<Rightarrow> map_sum id (\<lambda>members. (key, txt) # members) (serialize_object env reject_floats ms))"

definition serialize_canonical :: "NumericEnv \<Rightarrow> Value \<Rightarrow> SerializeResult" where
  "serialize_canonical env v = serialize_value env False v"

text \<open>The strict path never looks at the numeric environment, so any one will do.\<close>

definition no_numeric_env :: NumericEnv where
  "no_numeric_env = \<lparr>snprintf_g = \<lambda>_ _. [], strtod = \<lambda>_. (0, 0), decimal_point = None\<rparr>"

definition serialize_canonical_strict :: "Value \<Rightarrow> SerializeResult" where
  "serialize_canonical_strict v = serialize_value no_numeric_env True v"

definition make_signable_object_view :: "Value \<Rightarrow> SerializeResult" where
  "make_signable_object_view v =
     (case value_is_object v of
        Some obj \<Rightarrow> serialize_canonical_strict
                      (VObject (filter (\<lambda>m. \<not> (fst m = ''signatures'' \<or> fst m = ''unsigned'')) obj))
      | None \<Rightarrow> serialize_canonical_strict v)"

section \<open>Which values serialize\<close>

text \<open>
  The conditions the serializer checks, as a predicate on the whole tree: every string
  and key is UTF-8, no object repeats a key, and there is no float anywhere.
\<close>

fun serializable :: "Value \<Rightarrow> bool" where
  "serializable (VDouble d) = False"
| "serializable (VString s) = utf8_is_valid s"
| "serializable (VArray xs) = (\<forall>x \<in> set xs. serializable x)"
| "serializable (VObject ms) =
     (distinct (map fst ms) \<and> (\<forall>m \<in> set ms. utf8_is_valid (fst m) \<and> serializable (snd m)))"
| "serializable _ = True"

text \<open>Members sorted by key at every level: the canonical representative of a value.\<close>

fun canon :: "Value \<Rightarrow> Value" where
  "canon (VArray xs) = VArray (map canon xs)"
| "canon (VObject ms) = VObject (stable_sort member_less (map (\<lambda>m. (fst m, canon (snd m))) ms))"
| "canon v = v"

text \<open>The text of a value, printed in the order its members have.\<close>

fun print_value :: "Value \<Rightarrow> string" where
  "print_value VNull = ''null''"
| "print_value (VBool b) = (if b then ''true'' else ''false'')"
| "print_value (VInt i) = to_string i"
| "print_value (VDouble d) = []"
| "print_value (VString s) = append_escaped_string s"
| "print_value (VArray xs) = ''['' @ join_comma (map print_value xs) @ '']''"
| "print_value (VObject ms) =
     ''{'' @ join_comma (map (\<lambda>m. member_text (fst m, print_value (snd m))) ms) @ ''}''"

interpretation key_order: identity_order "member_less :: string \<times> 'a \<Rightarrow> string \<times> 'a \<Rightarrow> bool" fst
  by unfold_locales (auto simp: member_less_def)

lemma map_sum_Inr: "map_sum id f r = Inr y \<longleftrightarrow> (\<exists>x. r = Inr x \<and> y = f x)"
  by (cases r) auto

lemma list_all2_function:
  "list_all2 (\<lambda>x s. P x \<and> s = f x) xs ys \<longleftrightarrow> (\<forall>x \<in> set xs. P x) \<and> ys = map f xs"
  by (induction xs arbitrary: ys) (auto simp: list_all2_Cons1)

lemma serialize_array_Inr:
  "serialize_array env rf xs = Inr items \<longleftrightarrow> list_all2 (\<lambda>x s. serialize_value env rf x = Inr s) xs items"
proof (induction xs arbitrary: items)
  case (Cons x xs)
  then show ?case
    by (auto simp: list_all2_Cons1 map_sum_Inr split: sum.split)
qed auto

lemma serialize_object_Inr:
  "serialize_object env rf ms = Inr members \<longleftrightarrow>
     list_all2 (\<lambda>m s. utf8_is_valid (fst m) \<and> fst s = fst m
                       \<and> serialize_value env rf (snd m) = Inr (snd s)) ms members"
proof (induction ms arbitrary: members)
  case (Cons m ms)
  then show ?case
    by (cases m) (auto simp: list_all2_Cons1 map_sum_Inr string_is_valid_for_json_def split: sum.split)
qed auto

text \<open>A value serializes strictly when the checks pass, and then to its canonical text.\<close>

lemma serialize_value_strict:
  "serialize_value env True v = Inr s \<longleftrightarrow> serializable v \<and> s = print_value (canon v)"
proof (induction v arbitrary: s)
  case (VArray xs)
  have items: "serialize_array env True xs = Inr items \<longleftrightarrow>
     (\<forall>x \<in> set xs. serializable x) \<and> items = map (\<lambda>x. print_value (canon x)) xs" for items
    unfolding serialize_array_Inr list_all2_function [symmetric]
    using VArray by (intro list.rel_cong) auto
  show ?case
  proof (cases "serialize_array env True xs")
    case (Inl e)
    with items [of "map (\<lambda>x. print_value (canon x)) xs"] show ?thesis by auto
  next
    case (Inr b)
    with items [of b] show ?thesis by (auto simp: o_def)
  qed
next
  case (VObject ms)
  let ?txt = "\<lambda>m. (fst m, print_value (canon (snd m)))"
  have members: "serialize_object env True ms = Inr members \<longleftrightarrow>
     (\<forall>m \<in> set ms. utf8_is_valid (fst m) \<and> serializable (snd m)) \<and> members = map ?txt ms" for members
    unfolding serialize_object_Inr list_all2_function [symmetric]
    using VObject by (intro list.rel_cong) (auto simp: prod_eq_iff intro: snds.intros)
  let ?canon = "map (\<lambda>m. (fst m, canon (snd m))) ms"
  have "map (\<lambda>m. member_text (fst m, print_value (snd m))) (stable_sort member_less ?canon) =
      map member_text (map (\<lambda>m. (fst m, print_value (snd m))) (stable_sort member_less ?canon))"
    by simp
  also have "map (\<lambda>m. (fst m, print_value (snd m))) (stable_sort member_less ?canon) =
      stable_sort member_less (map ?txt ms)"
    by (subst map_stable_sort [of member_less _ member_less]) (simp_all add: member_less_def o_def)
  finally have canon_text: "print_value (canon (VObject ms)) =
      ''{'' @ join_comma (map member_text (stable_sort member_less (map ?txt ms))) @ ''}''"
    by simp
  show ?case
  proof (cases "serialize_object env True ms")
    case (Inl e)
    with members [of "map ?txt ms"]
    have "\<not> (\<forall>m \<in> set ms. utf8_is_valid (fst m) \<and> serializable (snd m))" by simp
    with Inl show ?thesis by auto
  next
    case (Inr b)
    with members [of b]
    have "\<forall>m \<in> set ms. utf8_is_valid (fst m) \<and> serializable (snd m)" and "b = map ?txt ms"
      by simp_all
    with Inr show ?thesis
      unfolding canon_text by (auto simp: object_has_duplicate_keys_def)
  qed
qed (auto simp: string_is_valid_for_json_def)

section \<open>The text determines the value\<close>

lemma hex_digit_inj: "a < 16 \<Longrightarrow> b < 16 \<Longrightarrow> hex_digit a = hex_digit b \<Longrightarrow> a = b"
  using nth_eq_iff_index_eq [of "''0123456789abcdef''" a b] by (simp add: hex_digit_def low_masks)

lemma control_escape_inj:
  assumes "append_control_escape a @ x = append_control_escape b @ y" and "a < 256" and "b < 256"
  shows "a = b \<and> x = y"
proof -
  have "hex_digit c = hex_digit (c mod 16)" for c by (simp add: hex_digit_def low_masks)
  with assms have "hex_digit (a div 16) = hex_digit (b div 16)" "hex_digit (a mod 16) = hex_digit (b mod 16)"
    "x = y"
    by (auto simp: append_control_escape_def drop_bit_eq_div)
  with assms(2,3) have "a div 16 = b div 16" "a mod 16 = b mod 16"
    by (auto dest!: hex_digit_inj [rotated 2])
  then have "a = b" by (metis div_mult_mod_eq)
  with \<open>x = y\<close> show ?thesis by simp
qed

text \<open>
  Escapes are prefix free: the first escape of a text determines the first character.
  A two-byte escape is read back by its letter.
\<close>

definition letter_value :: "char \<Rightarrow> char" where
  "letter_value e = (if e = CHR ''b'' then CHR 0x08 else if e = CHR ''f'' then CHR 0x0C
     else if e = CHR ''n'' then CHR 0x0A else if e = CHR ''r'' then CHR 0x0D
     else if e = CHR ''t'' then CHR 0x09 else e)"

lemma escape_char_shape:
  "(escape_char c = [c] \<and> c \<noteq> CHR 0x5C)
   \<or> (\<exists>e. escape_char c = [CHR 0x5C, e] \<and> e \<noteq> CHR ''u'' \<and> c = letter_value e)
   \<or> escape_char c = append_control_escape (byte c)"
  by (simp add: escape_char_def letter_value_def)

lemma escape_char_cases:
  obtains (plain) "escape_char c = [c]" "c \<noteq> CHR 0x5C"
    | (letter) e where "escape_char c = [CHR 0x5C, e]" "e \<noteq> CHR ''u''" "c = letter_value e"
    | (control) "escape_char c = append_control_escape (byte c)"
  using escape_char_shape [of c] by blast

lemma escape_char_cancel:
  assumes eq: "escape_char c @ x = escape_char d @ y"
  shows "c = d \<and> x = y"
proof (cases rule: escape_char_cases [of c])
  case plain
  with eq show ?thesis
    by (cases rule: escape_char_cases [of d]) (auto simp: append_control_escape_def)
next
  case (letter e)
  with eq show ?thesis
    by (cases rule: escape_char_cases [of d]) (auto simp: append_control_escape_def)
next
  case control
  show ?thesis
  proof (cases rule: escape_char_cases [of d])
    assume "escape_char d = append_control_escape (byte d)"
    with control eq show ?thesis
      using control_escape_inj [of "byte c" x "byte d" y] byte_bound by (auto simp: byte_inj)
  qed (use control eq in \<open>auto simp: append_control_escape_def\<close>)
qed

lemma escape_char_hd: "\<exists>a x. escape_char c = a # x \<and> a \<noteq> CHR 0x22"
  by (auto simp: escape_char_def append_control_escape_def)

lemma escaped_body_cancel:
  "concat (map escape_char s) @ CHR 0x22 # x = concat (map escape_char t) @ CHR 0x22 # y \<Longrightarrow> s = t \<and> x = y"
proof (induction s arbitrary: t)
  case Nil
  then show ?case
    using escape_char_hd by (cases t) (auto, metis append_Cons list.inject)
next
  case (Cons c s)
  show ?case
  proof (cases t)
    case Nil
    with Cons.prems show ?thesis
      using escape_char_hd [of c] by auto
  next
    case (Cons d t')
    with Cons.prems have "c = d" and
      "concat (map escape_char s) @ CHR 0x22 # x = concat (map escape_char t') @ CHR 0x22 # y"
      using escape_char_cancel [of c _ d] by auto
    with Cons.IH [of t'] Cons show ?thesis by simp
  qed
qed

lemma append_escaped_string_cancel:
  "append_escaped_string s @ x = append_escaped_string t @ y \<Longrightarrow> s = t \<and> x = y"
  by (auto simp: append_escaped_string_def dest: escaped_body_cancel)

text \<open>Where a value's text may end inside a larger text.\<close>

definition value_end :: "string \<Rightarrow> bool" where
  "value_end r \<longleftrightarrow> r = [] \<or> hd r = CHR '','' \<or> hd r = CHR '']'' \<or> hd r = CHR ''}''"

fun float_free :: "Value \<Rightarrow> bool" where
  "float_free (VDouble d) = False"
| "float_free (VArray xs) = (\<forall>x \<in> set xs. float_free x)"
| "float_free (VObject ms) = (\<forall>m \<in> set ms. float_free (snd m))"
| "float_free _ = True"

lemma value_end_not_digit: "value_end r \<Longrightarrow> r = [] \<or> \<not> is_digit (hd r)"
  by (auto simp: value_end_def is_digit_def)

lemma to_string_hd: "\<exists>a x. to_string i = a # x \<and> (a = CHR ''-'' \<or> is_digit a)"
  using nat_to_string_hd [of "nat i"]
  by (cases "nat_to_string (nat i)") (auto simp: to_string_def)

text \<open>The first character tells which kind of value follows.\<close>

fun value_kind :: "Value \<Rightarrow> nat" where
  "value_kind VNull = 0"
| "value_kind (VBool b) = (if b then 1 else 2)"
| "value_kind (VString s) = 4"
| "value_kind (VArray xs) = 5"
| "value_kind (VObject ms) = 6"
| "value_kind _ = 3"

definition char_kind :: "char \<Rightarrow> nat" where
  "char_kind c = (if c = CHR ''n'' then 0 else if c = CHR ''t'' then 1 else if c = CHR ''f'' then 2
     else if c = CHR 0x22 then 4 else if c = CHR ''['' then 5 else if c = CHR ''{'' then 6 else 3)"

lemma digit_not_structural:
  "is_digit a \<Longrightarrow> a \<notin> {CHR ''n'', CHR ''t'', CHR ''f'', CHR 0x22, CHR ''['', CHR ''{'', CHR '','', CHR '']'', CHR ''}''}"
  by (auto simp: is_digit_def)

lemma print_value_hd:
  assumes "float_free v"
  shows "\<exists>a x. print_value v = a # x \<and> char_kind a = value_kind v
           \<and> a \<noteq> CHR '','' \<and> a \<noteq> CHR '']'' \<and> a \<noteq> CHR ''}''"
proof (cases v)
  case (VInt i)
  obtain a x where "to_string i = a # x" and a: "a = CHR ''-'' \<or> is_digit a"
    using to_string_hd [of i] by blast
  moreover from a digit_not_structural [of a]
  have "char_kind a = 3 \<and> a \<noteq> CHR '','' \<and> a \<noteq> CHR '']'' \<and> a \<noteq> CHR ''}''"
    by (elim disjE) (simp_all add: char_kind_def)
  ultimately show ?thesis using VInt by simp
next
  case (VBool b)
  then show ?thesis by (cases b) (simp_all add: char_kind_def)
qed (use assms in \<open>simp_all add: append_escaped_string_def char_kind_def\<close>)

lemma print_value_kind:
  assumes "float_free v" and "float_free w" and "print_value v @ x = print_value w @ y"
  shows "value_kind v = value_kind w"
  using print_value_hd [OF assms(1)] print_value_hd [OF assms(2)] assms(3) by auto

text \<open>Items between commas come apart again when each item does.\<close>

lemma join_comma_cancel:
  assumes item: "\<And>a b x y. a \<in> set as \<Longrightarrow> b \<in> set bs \<Longrightarrow> value_end x \<Longrightarrow> value_end y \<Longrightarrow>
      f a @ x = f b @ y \<Longrightarrow> a = b \<and> x = y"
    and hd: "\<And>a. a \<in> set as \<union> set bs \<Longrightarrow> \<exists>c s. f a = c # s \<and> c \<noteq> e"
    and e: "e = CHR '']'' \<or> e = CHR ''}''"
    and eq: "join_comma (map f as) @ e # x = join_comma (map f bs) @ e # y"
  shows "as = bs \<and> x = y"
  using assms
proof (induction as arbitrary: bs)
  case Nil
  show ?case
  proof (cases bs)
    case (Cons b bs')
    then show ?thesis using Nil.prems(2) [of b] Nil.prems(4) by (cases bs') auto
  qed (use Nil in auto)
next
  case (Cons a as)
  show ?case
  proof (cases bs)
    case Nil
    then show ?thesis using Cons.prems(2) [of a] Cons.prems(4) by (cases as) auto
  next
    case bs: (Cons b bs')
    define rest where "rest cs z = (if cs = [] then e # z else CHR '','' # join_comma (map f cs) @ e # z)"
      for cs and z :: string
    have split: "join_comma (map f (c # cs)) @ e # z = f c @ rest cs z" for c cs z
      by (cases cs) (auto simp: rest_def)
    have "value_end (rest cs z)" for cs z
      using Cons.prems(3) by (auto simp: rest_def value_end_def)
    then have "a = b" and rest: "rest as x = rest bs' y"
      using Cons.prems(1) [of a b "rest as x" "rest bs' y"] Cons.prems(4) bs
        split [of a as x] split [of b bs' y] by auto
    have "as = bs' \<and> x = y"
    proof (cases "as = [] \<or> bs' = []")
      case True
      with rest Cons.prems(3) show ?thesis by (auto simp: rest_def split: if_splits)
    next
      case False
      with rest have "join_comma (map f as) @ e # x = join_comma (map f bs') @ e # y"
        by (simp add: rest_def)
      then show ?thesis
        using Cons.prems bs by (intro Cons.IH) auto
    qed
    with \<open>a = b\<close> bs show ?thesis by simp
  qed
qed

lemma print_value_cancel:
  assumes "float_free v" and "float_free w" and "value_end x" and "value_end y"
    and "print_value v @ x = print_value w @ y"
  shows "v = w \<and> x = y"
  using assms
proof (induction v arbitrary: w x y)
  case (VInt i)
  from print_value_kind [OF VInt.prems(1,2,5)] VInt.prems(2) obtain j where "w = VInt j"
    by (cases w) (auto split: if_splits)
  with VInt.prems show ?case
    using to_string_cancel [of i x j y] by (simp add: value_end_not_digit)
next
  case (VString s)
  from print_value_kind [OF VString.prems(1,2,5)] obtain t where "w = VString t"
    by (cases w) (auto split: if_splits)
  with VString.prems show ?case
    using append_escaped_string_cancel [of s x t y] by simp
next
  case (VArray xs)
  from print_value_kind [OF VArray.prems(1,2,5)] obtain ys where w: "w = VArray ys"
    by (cases w) (auto split: if_splits)
  have "xs = ys \<and> x = y"
  proof (rule join_comma_cancel [where f = print_value and e = "CHR '']''"])
    show "join_comma (map print_value xs) @ CHR '']'' # x = join_comma (map print_value ys) @ CHR '']'' # y"
      using VArray.prems(5) w by simp
    show "\<exists>c s. print_value a = c # s \<and> c \<noteq> CHR '']''" if "a \<in> set xs \<union> set ys" for a
      using print_value_hd [of a] VArray.prems(1,2) w that by auto
  qed (use VArray w in auto)
  with w show ?case by simp
next
  case (VObject ms)
  from print_value_kind [OF VObject.prems(1,2,5)] obtain ns where w: "w = VObject ns"
    by (cases w) (auto split: if_splits)
  let ?txt = "\<lambda>m. member_text (fst m, print_value (snd m))"
  have "ms = ns \<and> x = y"
  proof (rule join_comma_cancel [where f = ?txt and e = "CHR ''}''"])
    show "join_comma (map ?txt ms) @ CHR ''}'' # x = join_comma (map ?txt ns) @ CHR ''}'' # y"
      using VObject.prems(5) w by simp
    show "\<exists>c s. ?txt a = c # s \<and> c \<noteq> CHR ''}''" for a :: "string \<times> Value"
      by (simp add: member_text_def append_escaped_string_def)
    fix a b u z
    assume ab: "a \<in> set ms" "b \<in> set ns" "value_end u" "value_end z" "?txt a @ u = ?txt b @ z"
    then have "fst a = fst b" and "print_value (snd a) @ u = print_value (snd b) @ z"
      using append_escaped_string_cancel [of "fst a" _ "fst b"] by (auto simp: member_text_def)
    moreover have "float_free (snd a)" "float_free (snd b)"
      using VObject.prems(1,2) w ab(1,2) by auto
    ultimately have "snd a = snd b \<and> u = z"
      using VObject.IH [of a "snd a"] ab by (auto intro: snds.intros)
    with \<open>fst a = fst b\<close> show "a = b \<and> u = z" by (simp add: prod_eq_iff)
  qed simp
  with w show ?case by simp
next
  case VNull
  from print_value_kind [OF VNull.prems(1,2,5)] VNull.prems show ?case
    by (cases w) (auto split: if_splits)
next
  case (VBool b)
  from print_value_kind [OF VBool.prems(1,2,5)] VBool.prems show ?case
    by (cases w) (auto split: if_splits)
qed simp

lemma serializable_float_free: "serializable v \<Longrightarrow> float_free v"
  by (induction v) (auto intro: snds.intros)

lemma float_free_canon [simp]: "float_free (canon v) = float_free v"
  by (induction v) (auto intro: snds.intros)

lemma serializable_canon [simp]: "serializable (canon v) = serializable v"
proof (induction v)
  case (VObject ms)
  have "mset (map fst (stable_sort member_less (map (\<lambda>m. (fst m, canon (snd m))) ms))) = mset (map fst ms)"
    by (simp add: image_mset.compositionality o_def)
  then have "distinct (map fst (stable_sort member_less (map (\<lambda>m. (fst m, canon (snd m))) ms)))
      = distinct (map fst ms)"
    by (rule mset_eq_imp_distinct_iff)
  moreover have "serializable (canon (snd m)) = serializable (snd m)" if "m \<in> set ms" for m
    using VObject [of m "snd m"] that by (cases m) auto
  ultimately show ?case by simp
qed auto

text \<open>Strict canonical serialization succeeds exactly on the trees whose strings and keys are
  UTF-8, whose objects repeat no key and which hold no float; it never consults the locale.\<close>

theorem serialize_canonical_strict_total:
  "(\<exists>s. serialize_canonical_strict v = Inr s) \<longleftrightarrow> serializable v"
  by (auto simp: serialize_canonical_strict_def serialize_value_strict)

end
