(* ===== verification/Json_Canonical.thy ===== *)
theory Json_Canonical
  imports Json_Serializer
begin

text \<open>
  What the event engine may assume of canonical bytes, as an interface: two values that
  serialize have the same bytes exactly when they agree up to member order. The interface is a
  locale over a serializer and a notion of canonical form; it is interpreted on the serializer
  of \<open>src/canonicaljson/serializer.cpp\<close>.

  The rest of the theory says what reading an object gives when only its canonical form is
  known, as after a round trip through bytes.
\<close>

section \<open>The interface\<close>

locale canonical_text =
  fixes ser :: "'v \<Rightarrow> 'e + 't"
    and form :: "'v \<Rightarrow> 'v"
  assumes bytes_identify: "ser v = Inr s \<Longrightarrow> ser w = Inr s \<longleftrightarrow> form w = form v"
begin

lemma same_form_same_bytes: "ser v = Inr s \<Longrightarrow> form w = form v \<Longrightarrow> ser w = Inr s"
  using bytes_identify by blast

lemma same_bytes_same_form: "ser v = Inr s \<Longrightarrow> ser w = Inr s \<Longrightarrow> form w = form v"
  using bytes_identify by blast

text \<open>Bytes bind whatever is computed before serialization, up to the canonical form.\<close>

lemma bytes_bind:
  "ser (f x) = Inr s \<Longrightarrow> ser (f y) = Inr s \<longleftrightarrow> form (f y) = form (f x)"
  by (rule bytes_identify)

end

lemma strict_bytes:
  "serialize_canonical_strict v = Inr s \<longleftrightarrow> serializable v \<and> s = print_value (canon v)"
  by (simp add: serialize_canonical_strict_def serialize_value_strict)

interpretation canonical_json: canonical_text serialize_canonical_strict canon
proof
  fix v w s
  assume v: "serialize_canonical_strict v = Inr s"
  show "serialize_canonical_strict w = Inr s \<longleftrightarrow> canon w = canon v"
  proof
    assume "serialize_canonical_strict w = Inr s"
    with v have "serializable v" "serializable w" "print_value (canon w) = print_value (canon v)"
      by (simp_all add: strict_bytes)
    then show "canon w = canon v"
      using print_value_cancel [of "canon w" "canon v" "[]" "[]"]
      by (simp add: serializable_float_free value_end_def)
  next
    assume eq: "canon w = canon v"
    then have "serializable w = serializable v"
      using serializable_canon [of w] serializable_canon [of v] by simp
    with v eq show "serialize_canonical_strict w = Inr s"
      by (simp add: strict_bytes)
  qed
qed

text \<open>C10: canonical bytes identify the value: once a value serializes, another value has the same
  bytes exactly when the two differ only in the order of object members.\<close>

theorem canonical_bytes_identify_value:
  assumes "serialize_canonical_strict v = Inr s"
  shows "serialize_canonical_strict w = Inr s \<longleftrightarrow> canon w = canon v"
  using assms by (rule canonical_json.bytes_identify)

definition sample_value :: Value where
  "sample_value = VObject [(''b'', VInt 1), (''a'', VArray [VBool True, VNull])]"

theorem canonical_bytes_identify_value_witness:
  "serialize_canonical_strict sample_value = Inr (print_value (canon sample_value))
   \<and> (serialize_canonical_strict (VObject [(''a'', VArray [VBool True, VNull]), (''b'', VInt 1)])
        = Inr (print_value (canon sample_value)))
   \<and> serialize_canonical_strict (VObject [(''a'', VInt 1)]) \<noteq> Inr (print_value (canon sample_value))"
proof -
  have ok: "serialize_canonical_strict sample_value = Inr (print_value (canon sample_value))"
    by code_simp
  have "canon (VObject [(''a'', VArray [VBool True, VNull]), (''b'', VInt 1)]) = canon sample_value"
    "canon (VObject [(''a'', VInt 1)]) \<noteq> canon sample_value"
    by code_simp+
  with ok show ?thesis
    using canonical_bytes_identify_value [OF ok] by blast
qed

section \<open>Objects with the same canonical form\<close>

definition canon_members :: "Object \<Rightarrow> Object" where
  "canon_members ms = map (\<lambda>m. (fst m, canon (snd m))) ms"

lemma canon_object: "canon (VObject ms) = VObject (stable_sort member_less (canon_members ms))"
  by (simp add: canon_members_def)

declare canon.simps(2) [simp del]

lemma canon_members_keys [simp]: "map fst (canon_members ms) = map fst ms"
  by (simp add: canon_members_def o_def)

lemma canon_members_filter:
  "canon_members (filter (\<lambda>m. P (fst m)) ms) = filter (\<lambda>m. P (fst m)) (canon_members ms)"
  by (simp add: canon_members_def filter_map o_def)

lemma distinct_keys: "distinct (map fst ms) \<Longrightarrow> inj_on fst (set ms) \<and> distinct ms"
  by (simp add: distinct_map)

lemma canon_object_eqI:
  assumes "distinct (map fst ms)" and "mset (canon_members ms) = mset (canon_members ns)"
  shows "canon (VObject ms) = canon (VObject ns)"
  unfolding canon_object
  using assms distinct_keys [of "canon_members ms"]
  by (auto intro: key_order.stable_sort_order_free)

lemma canon_object_eqD:
  "canon (VObject ms) = canon (VObject ns) \<Longrightarrow> mset (canon_members ms) = mset (canon_members ns)"
  unfolding canon_object by (metis Value.inject(6) mset_stable_sort)

lemma canon_is_object: "canon v = canon (VObject ms) \<Longrightarrow> \<exists>ns. v = VObject ns"
  by (cases v) (auto simp: canon_object)

lemma canon_is_string: "canon v = VString s \<longleftrightarrow> v = VString s"
  by (cases v) (auto simp: canon_object)

lemma get_if_string_same_form: "canon v = canon w \<Longrightarrow> get_if_string v = get_if_string w"
  by (cases v; cases w) (simp_all add: canon_object)

lemma serializable_member:
  "serializable (VObject ms) \<Longrightarrow> object_member ms k = Some v \<Longrightarrow> serializable v"
  using object_member_in_set [of ms k v] by auto

lemma serializable_same_form: "canon v = canon w \<Longrightarrow> serializable v = serializable w"
  by (metis serializable_canon)

lemma map_of_canon_members: "map_of (canon_members ms) k = map_option canon (map_of ms k)"
  unfolding canon_members_def by (induction ms) auto

text \<open>Lookups agree up to the canonical form of what they find.\<close>

lemma object_member_same_form:
  assumes "canon (VObject ms) = canon (VObject ns)" and "distinct (map fst ms)"
  shows "map_option canon (object_member ms k) = map_option canon (object_member ns k)"
proof -
  have eq: "mset (canon_members ms) = mset (canon_members ns)"
    using assms(1) by (rule canon_object_eqD)
  then have "mset (map fst ms) = mset (map fst ns)"
    by (metis canon_members_keys mset_map)
  with assms(2) have "distinct (map fst ns)"
    by (metis mset_eq_imp_distinct_iff)
  with assms(2) eq have "map_of (canon_members ms) = map_of (canon_members ns)"
    by (intro map_of_inject_set [THEN iffD2]) (auto dest: mset_eq_setD)
  then show ?thesis
    by (metis map_of_canon_members object_member_def)
qed

lemma object_member_same_form_Some:
  assumes "canon (VObject ms) = canon (VObject ns)" and "distinct (map fst ms)"
    and "object_member ms k = Some v"
  shows "\<exists>w. object_member ns k = Some w \<and> canon w = canon v"
  using object_member_same_form [OF assms(1,2), of k] assms(3)
  by (cases "object_member ns k") auto

section \<open>Canonical forms are their own canonical form\<close>

lemma canon_idem: "serializable v \<Longrightarrow> canon (canon v) = canon v"
proof (induction v)
  case (VObject ms)
  have members: "canon_members (canon_members ms) = canon_members ms"
  proof -
    have "canon (canon (snd m)) = canon (snd m)" if "m \<in> set ms" for m
      using VObject.IH [of m "snd m"] VObject.prems that by (cases m) force
    then show ?thesis by (simp add: canon_members_def)
  qed
  have mset_canon: "mset (canon_members (stable_sort lt xs)) = mset (canon_members xs)" for lt xs
    by (simp add: canon_members_def)
  have "canon (VObject ms) = canon (VObject (stable_sort member_less (canon_members ms)))"
    using VObject.prems by (intro canon_object_eqI) (simp_all add: mset_canon members)
  then show ?case by (simp only: canon_object [symmetric])
qed auto

section \<open>Operations that respect the canonical form\<close>

text \<open>
  Keeping some members by key and transforming each value by an operation that respects the
  canonical form respects it too. Redaction is built from such operations.
\<close>

lemma canon_members_map_filter:
  assumes "serializable (VObject ms)"
    and "\<And>k v w. canon v = canon w \<Longrightarrow> serializable v \<Longrightarrow> canon (g k v) = canon (g k w)"
  shows "canon_members (map (\<lambda>m. (fst m, g (fst m) (snd m))) (filter (\<lambda>m. P (fst m)) ms))
       = map (\<lambda>m. (fst m, canon (g (fst m) (snd m)))) (filter (\<lambda>m. P (fst m)) (canon_members ms))"
proof -
  have "canon (g (fst m) (snd m)) = canon (g (fst m) (canon (snd m)))" if "m \<in> set ms" for m
  proof (rule assms(2))
    have "serializable (snd m)" using assms(1) that by simp
    then show "serializable (snd m)" "canon (snd m) = canon (canon (snd m))"
      by (simp_all add: canon_idem)
  qed
  then show ?thesis by (simp add: canon_members_def filter_map o_def)
qed

lemma canon_map_filter:
  assumes "canon (VObject ms) = canon (VObject ns)" and "serializable (VObject ms)"
    and "\<And>k v w. canon v = canon w \<Longrightarrow> serializable v \<Longrightarrow> canon (g k v) = canon (g k w)"
  shows "canon (VObject (map (\<lambda>m. (fst m, g (fst m) (snd m))) (filter (\<lambda>m. P (fst m)) ms)))
       = canon (VObject (map (\<lambda>m. (fst m, g (fst m) (snd m))) (filter (\<lambda>m. P (fst m)) ns)))"
proof (rule canon_object_eqI)
  show "distinct (map fst (map (\<lambda>m. (fst m, g (fst m) (snd m))) (filter (\<lambda>m. P (fst m)) ms)))"
    using assms(2) by (simp add: o_def distinct_map_filter)
  have "serializable (VObject ns)" using assms(1,2) serializable_same_form by blast
  then show "mset (canon_members (map (\<lambda>m. (fst m, g (fst m) (snd m))) (filter (\<lambda>m. P (fst m)) ms)))
      = mset (canon_members (map (\<lambda>m. (fst m, g (fst m) (snd m))) (filter (\<lambda>m. P (fst m)) ns)))"
    using canon_object_eqD [OF assms(1)] assms(2,3)
    by (simp only: canon_members_map_filter mset_map mset_filter)
qed

end
