(* ===== verification/Json_Parser.thy ===== *)
theory Json_Parser
  imports Json_Canonical
begin

text \<open>
  The JSON reader, \<open>src/canonicaljson/parser.cpp\<close>, over the third-party parser yyjson.

  What yyjson hands to \<open>yyjson_adapter.c\<close> is a \<open>YyjsonValue\<close> tree: strings already
  unescaped, numbers as raw text under \<open>YYJSON_READ_NUMBER_AS_RAW\<close>, otherwise as the
  64-bit payload of an integer or as a double. \<open>yyjson_read_opts\<close> itself is a parameter:
  given the raw-number flag and the input it yields a read code or a document with the
  number of bytes it consumed. The results of its accessors are never null pointers for
  the types they belong to, so only the document's root is optional.

  The theorems: a number token is accepted exactly when it is the decimal text of a safe
  integer; what \<open>parse_lossless\<close> accepts is within every bound the code names and can be
  serialized again; and conversion inverts the obvious embedding of values into trees.
\<close>

section \<open>Data\<close>

datatype ParseError =
    trailing_data | unexpected_end | unexpected_token | invalid_literal | parse_invalid_string
  | invalid_escape | invalid_unicode_escape | invalid_number | integer_out_of_range
  | parse_duplicate_object_key | nesting_too_deep | too_many_object_members

datatype YyjsonReadCode =
    ERROR_INVALID_PARAMETER | ERROR_MEMORY_ALLOCATION | ERROR_EMPTY_CONTENT
  | ERROR_UNEXPECTED_CONTENT | ERROR_UNEXPECTED_END | ERROR_UNEXPECTED_CHARACTER
  | ERROR_JSON_STRUCTURE | ERROR_INVALID_COMMENT | ERROR_INVALID_NUMBER
  | ERROR_INVALID_STRING | ERROR_LITERAL | ERROR_FILE_OPEN | ERROR_FILE_READ | ERROR_MORE

datatype YyjsonValue =
    YNull
  | YBool bool
  | YRaw string
  | YInteger "64 word"
  | YReal "64 word"
  | YString string
  | YArray "YyjsonValue list"
  | YObject "(string \<times> YyjsonValue) list"
  | YUnknown

record YyjsonDoc =
  doc_root :: "YyjsonValue option"
  dat_read :: nat

type_synonym YyjsonReader = "bool \<Rightarrow> string \<Rightarrow> YyjsonReadCode + YyjsonDoc"

type_synonym ConvertResult = "ParseError + Value"

abbreviation max_depth :: nat where
  "max_depth \<equiv> 64"

abbreviation max_safe_integer :: int where
  "max_safe_integer \<equiv> 9007199254740991"

abbreviation min_safe_integer :: int where
  "min_safe_integer \<equiv> - 9007199254740991"

abbreviation max_object_members :: nat where
  "max_object_members \<equiv> 65536"

section \<open>Errors\<close>

definition map_yyjson_error :: "YyjsonReadCode \<Rightarrow> ParseError" where
  "map_yyjson_error code = (case code of
      ERROR_EMPTY_CONTENT \<Rightarrow> unexpected_end
    | ERROR_UNEXPECTED_END \<Rightarrow> unexpected_end
    | ERROR_MORE \<Rightarrow> unexpected_end
    | ERROR_UNEXPECTED_CONTENT \<Rightarrow> trailing_data
    | ERROR_INVALID_NUMBER \<Rightarrow> invalid_number
    | ERROR_INVALID_STRING \<Rightarrow> parse_invalid_string
    | ERROR_LITERAL \<Rightarrow> invalid_literal
    | _ \<Rightarrow> unexpected_token)"

definition parse_error_name :: "ParseError \<Rightarrow> string" where
  "parse_error_name e = (case e of
      trailing_data \<Rightarrow> ''trailing_data''
    | unexpected_end \<Rightarrow> ''unexpected_end''
    | unexpected_token \<Rightarrow> ''unexpected_token''
    | invalid_literal \<Rightarrow> ''invalid_literal''
    | parse_invalid_string \<Rightarrow> ''invalid_string''
    | invalid_escape \<Rightarrow> ''invalid_escape''
    | invalid_unicode_escape \<Rightarrow> ''invalid_unicode_escape''
    | invalid_number \<Rightarrow> ''invalid_number''
    | integer_out_of_range \<Rightarrow> ''integer_out_of_range''
    | parse_duplicate_object_key \<Rightarrow> ''duplicate_object_key''
    | nesting_too_deep \<Rightarrow> ''nesting_too_deep''
    | too_many_object_members \<Rightarrow> ''too_many_object_members'')"

section \<open>Number tokens\<close>

definition input_is_blank :: "string \<Rightarrow> bool" where
  "input_is_blank s = list_all (\<lambda>c. c = CHR '' '' \<or> c = CHR 0x0A \<or> c = CHR 0x0D \<or> c = CHR 0x09) s"

definition is_canonical_int64_token :: "string \<Rightarrow> bool" where
  "is_canonical_int64_token token = (case token of
      [] \<Rightarrow> False
    | c # rest \<Rightarrow>
        (let has_minus = (c = CHR ''-'') in
         if has_minus \<and> rest = [] then False
         else case (if has_minus then rest else token) of
                [] \<Rightarrow> False
              | d # digits \<Rightarrow>
                  if d = CHR ''0'' then \<not> has_minus \<and> digits = []
                  else if byte d < 49 \<or> byte d > 57 then False
                  else list_all is_digit digits))"

definition raw_number_as_int64 :: "string \<Rightarrow> ConvertResult" where
  "raw_number_as_int64 token =
     (if list_ex (\<lambda>c. c = CHR ''.'' \<or> c = CHR ''e'' \<or> c = CHR ''E'') token then Inl invalid_number
      else if \<not> is_canonical_int64_token token then Inl invalid_number
      else case from_chars_int64 token of
             ResultOutOfRange \<Rightarrow> Inl integer_out_of_range
           | InvalidArgument \<Rightarrow> Inl invalid_number
           | Parsed parsed rest \<Rightarrow>
               if rest \<noteq> [] then Inl invalid_number
               else if parsed < min_safe_integer \<or> parsed > max_safe_integer
               then Inl integer_out_of_range
               else Inr (VInt parsed))"

section \<open>Conversion\<close>

text \<open>
  \<open>convert_items\<close> and \<open>convert_members\<close> are the callbacks of the two \<open>foreach\<close> loops
  of the adapter, folded over the children; \<open>seen\<close> is the set of keys inserted so far.
\<close>

fun convert_yyjson_value :: "YyjsonValue \<Rightarrow> nat \<Rightarrow> ConvertResult"
  and convert_items :: "YyjsonValue list \<Rightarrow> nat \<Rightarrow> ParseError + Value list"
  and convert_members :: "(string \<times> YyjsonValue) list \<Rightarrow> nat \<Rightarrow> string list \<Rightarrow> ParseError + Object" where
  "convert_yyjson_value v depth =
     (if depth > max_depth then Inl nesting_too_deep
      else case v of
             YNull \<Rightarrow> Inr VNull
           | YBool b \<Rightarrow> Inr (VBool b)
           | YRaw raw \<Rightarrow> raw_number_as_int64 raw
           | YInteger w \<Rightarrow> Inr (VInt (sint w))
           | YReal d \<Rightarrow> Inr (VDouble d)
           | YString s \<Rightarrow> Inr (VString s)
           | YArray items \<Rightarrow> map_sum id VArray (convert_items items depth)
           | YObject members \<Rightarrow>
               if length members > max_object_members then Inl too_many_object_members
               else map_sum id VObject (convert_members members depth [])
           | YUnknown \<Rightarrow> Inl unexpected_token)"
| "convert_items [] depth = Inr []"
| "convert_items (x # xs) depth =
     (case convert_yyjson_value x (depth + 1) of
        Inl e \<Rightarrow> Inl e
      | Inr v \<Rightarrow> map_sum id (\<lambda>vs. v # vs) (convert_items xs depth))"
| "convert_members [] depth seen = Inr []"
| "convert_members ((key, x) # ms) depth seen =
     (if key \<in> set seen then Inl parse_duplicate_object_key
      else case convert_yyjson_value x (depth + 1) of
             Inl e \<Rightarrow> Inl e
           | Inr v \<Rightarrow> map_sum id (\<lambda>rest. make_member key v # rest)
                        (convert_members ms depth (key # seen)))"

declare convert_yyjson_value.simps [simp del]

definition convert_root :: "YyjsonValue option \<Rightarrow> ConvertResult" where
  "convert_root root = (case root of None \<Rightarrow> Inl unexpected_token | Some v \<Rightarrow> convert_yyjson_value v 0)"

definition parse_document :: "bool \<Rightarrow> YyjsonReader \<Rightarrow> string \<Rightarrow> ConvertResult" where
  "parse_document raw_numbers yyjson_read_opts input =
     (if input_is_blank input then Inl unexpected_end
      else if \<not> utf8_is_valid input then Inl parse_invalid_string
      else case yyjson_read_opts raw_numbers input of
             Inl code \<Rightarrow> Inl (map_yyjson_error code)
           | Inr document \<Rightarrow>
               if dat_read document \<noteq> length input then Inl trailing_data
               else convert_root (doc_root document))"

definition parse_lossless :: "YyjsonReader \<Rightarrow> string \<Rightarrow> ConvertResult" where
  "parse_lossless yyjson_read_opts input = parse_document True yyjson_read_opts input"

definition parse_json :: "YyjsonReader \<Rightarrow> string \<Rightarrow> ConvertResult" where
  "parse_json yyjson_read_opts input = parse_document False yyjson_read_opts input"

section \<open>Number tokens are decimal texts\<close>

lemma digit_char_digit_val: "is_digit c \<Longrightarrow> digit_char (digit_val c) = c"
  by (simp add: is_digit_def digit_val_def digit_char_def)

lemma nat_to_string_digits_value:
  assumes "list_all is_digit ds" and "ds \<noteq> []" and "hd ds \<noteq> CHR ''0''"
  shows "nat_to_string (digits_value ds) = ds"
  using assms
proof (induction ds rule: rev_induct)
  case (snoc c ds)
  have c: "is_digit c" and "digit_val c < 10"
    using snoc.prems(1) by (auto simp: is_digit_def digit_val_def)
  show ?case
  proof (cases "ds = []")
    case True
    then show ?thesis
      using c \<open>digit_val c < 10\<close> nat_to_string.simps [of "digit_val c"]
      by (simp add: digits_value_def digit_char_digit_val)
  next
    case False
    with snoc have ds: "nat_to_string (digits_value ds) = ds" by simp
    with False snoc.prems(3) have "digits_value ds \<noteq> 0"
      by (metis hd_append2 list.sel(1) nat_to_string_0)
    then show ?thesis
      using \<open>digit_val c < 10\<close> c ds
        nat_to_string.simps [of "10 * digits_value ds + digit_val c"]
      by (simp add: digit_char_digit_val)
  qed
qed simp

lemma nat_to_string_pos_Cons:
  "0 < n \<Longrightarrow> \<exists>d ds. nat_to_string n = d # ds \<and> d \<noteq> CHR ''0'' \<and> d \<noteq> CHR ''-'' \<and> 49 \<le> byte d \<and> byte d \<le> 57
     \<and> list_all is_digit ds"
  using nat_to_string_hd_pos [of n] nat_to_string_digits [of n]
  by (cases "nat_to_string n") (auto simp: list_all_iff)

lemma is_canonical_int64_token_to_string: "is_canonical_int64_token (to_string i)"
proof (cases "i = 0")
  case True
  then show ?thesis by (simp add: to_string_def is_canonical_int64_token_def)
next
  case False
  then show ?thesis
    using nat_to_string_pos_Cons [of "nat i"] nat_to_string_pos_Cons [of "nat (- i)"]
    by (cases "i < 0") (auto simp: to_string_def is_canonical_int64_token_def)
qed

lemma is_canonical_int64_token_iff:
  "is_canonical_int64_token token \<longleftrightarrow> (\<exists>i. token = to_string i)"
proof
  assume tok: "is_canonical_int64_token token"
  then obtain c rest where token: "token = c # rest"
    by (auto simp: is_canonical_int64_token_def split: list.splits)
  show "\<exists>i. token = to_string i"
  proof (cases "c = CHR ''-''")
    case True
    with tok token obtain d ds where rest: "rest = d # ds" "d \<noteq> CHR ''0''" "49 \<le> byte d" "byte d \<le> 57" "list_all is_digit ds"
      by (auto simp: is_canonical_int64_token_def split: list.splits if_splits)
    then have "nat_to_string (digits_value rest) = rest"
      by (intro nat_to_string_digits_value) (auto simp: is_digit_def)
    moreover from this rest have "digits_value rest \<noteq> 0"
      by (metis list.sel(1) nat_to_string_0)
    ultimately have "token = to_string (- int (digits_value rest))"
      using token True by (simp add: to_string_def)
    then show ?thesis by blast
  next
    case False
    show ?thesis
    proof (cases "c = CHR ''0''")
      case True
      with tok token False have "token = to_string 0"
        by (simp add: is_canonical_int64_token_def to_string_def)
      then show ?thesis by blast
    next
      case nz: False
      with tok token False have "49 \<le> byte c" "byte c \<le> 57" "list_all is_digit rest"
        by (auto simp: is_canonical_int64_token_def split: if_splits)
      with nz token have "nat_to_string (digits_value token) = token"
        by (intro nat_to_string_digits_value) (auto simp: is_digit_def)
      then have "token = to_string (int (digits_value token))"
        by (simp add: to_string_def)
      then show ?thesis by blast
    qed
  qed
next
  assume "\<exists>i. token = to_string i"
  then show "is_canonical_int64_token token"
    using is_canonical_int64_token_to_string by blast
qed

lemma to_string_chars: "list_all (\<lambda>c. is_digit c \<or> c = CHR ''-'') (to_string i)"
  using nat_to_string_digits by (auto simp: to_string_def list_all_iff)

lemma to_string_no_fraction:
  "\<not> list_ex (\<lambda>c. c = CHR ''.'' \<or> c = CHR ''e'' \<or> c = CHR ''E'') (to_string i)"
proof -
  have "\<not> is_digit c" if "c = CHR ''.'' \<or> c = CHR ''e'' \<or> c = CHR ''E''" for c
    using that by (auto simp: is_digit_def)
  then show ?thesis
    using to_string_chars [of i] by (auto simp: list_all_iff list_ex_iff)
qed

lemma from_chars_whole:
  "from_chars_int64 (to_string i) = (if int64_ok i then Parsed i [] else ResultOutOfRange)"
proof (cases "i < 0")
  case True
  then show ?thesis by (simp add: from_chars_int64_def to_string_def)
next
  case False
  then obtain n where i: "i = int n" by (metis nonneg_int_cases not_le)
  have "(case nat_to_string n of [] \<Rightarrow> False | c # _ \<Rightarrow> c = CHR ''-'') = False"
    using nat_to_string_not_minus [of n] by (cases "nat_to_string n") auto
  then show ?thesis using i by (simp add: from_chars_int64_def to_string_def)
qed

lemma to_string_inj: "to_string i = to_string j \<longleftrightarrow> i = j"
  using to_string_cancel [of i "[]" j "[]"] by auto

lemma raw_number_to_string:
  "raw_number_as_int64 (to_string i) =
     (if i < min_safe_integer \<or> i > max_safe_integer then Inl integer_out_of_range else Inr (VInt i))"
  using to_string_no_fraction [of i] is_canonical_int64_token_to_string [of i] from_chars_whole [of i]
  by (auto simp: raw_number_as_int64_def int64_ok_def)

text \<open>A raw number token becomes a value exactly when it is the decimal text of a safe
  integer; it is out of range exactly when it is the decimal text of another integer, and every
  other token (sign, leading zero, negative zero, fraction, exponent) is an invalid number.\<close>

theorem raw_number_as_int64_iff:
  "(raw_number_as_int64 token = Inr v \<longleftrightarrow>
      (\<exists>i. token = to_string i \<and> v = VInt i \<and> min_safe_integer \<le> i \<and> i \<le> max_safe_integer))
   \<and> (raw_number_as_int64 token = Inl integer_out_of_range \<longleftrightarrow>
      (\<exists>i. token = to_string i \<and> (i < min_safe_integer \<or> max_safe_integer < i)))
   \<and> (raw_number_as_int64 token = Inl invalid_number \<longleftrightarrow> \<not> (\<exists>i. token = to_string i))"
proof (cases "\<exists>i. token = to_string i")
  case True
  then show ?thesis by (auto simp: raw_number_to_string to_string_inj split: if_splits)
next
  case False
  then show ?thesis
    by (auto simp: raw_number_as_int64_def is_canonical_int64_token_iff)
qed

section \<open>What conversion accepts\<close>

text \<open>The tree yyjson builds for a value when numbers stay raw text.\<close>

fun tree_of :: "Value \<Rightarrow> YyjsonValue" where
  "tree_of VNull = YNull"
| "tree_of (VBool b) = YBool b"
| "tree_of (VInt i) = YRaw (to_string i)"
| "tree_of (VDouble d) = YReal d"
| "tree_of (VString s) = YString s"
| "tree_of (VArray xs) = YArray (map tree_of xs)"
| "tree_of (VObject ms) = YObject (map (\<lambda>m. (fst m, tree_of (snd m))) ms)"

text \<open>A tree read under the raw-number flag, and one whose strings are UTF-8.\<close>

fun raw_tree :: "YyjsonValue \<Rightarrow> bool" where
  "raw_tree (YInteger w) = False"
| "raw_tree (YReal d) = False"
| "raw_tree (YArray xs) = (\<forall>x \<in> set xs. raw_tree x)"
| "raw_tree (YObject ms) = (\<forall>m \<in> set ms. raw_tree (snd m))"
| "raw_tree _ = True"

fun utf8_tree :: "YyjsonValue \<Rightarrow> bool" where
  "utf8_tree (YString s) = utf8_text s"
| "utf8_tree (YArray xs) = (\<forall>x \<in> set xs. utf8_tree x)"
| "utf8_tree (YObject ms) = (\<forall>m \<in> set ms. utf8_text (fst m) \<and> utf8_tree (snd m))"
| "utf8_tree _ = True"

text \<open>The bounds of the parser on a value that sits \<open>d\<close> levels deep.\<close>

fun within_limits :: "nat \<Rightarrow> Value \<Rightarrow> bool" where
  "within_limits d (VInt i) = (d \<le> max_depth \<and> min_safe_integer \<le> i \<and> i \<le> max_safe_integer)"
| "within_limits d (VArray xs) = (d \<le> max_depth \<and> (\<forall>x \<in> set xs. within_limits (d + 1) x))"
| "within_limits d (VObject ms) =
     (d \<le> max_depth \<and> length ms \<le> max_object_members \<and> distinct (map fst ms)
      \<and> (\<forall>m \<in> set ms. within_limits (d + 1) (snd m)))"
| "within_limits d _ = (d \<le> max_depth)"

lemma convert_items_Inr:
  "convert_items xs d = Inr vs \<longleftrightarrow> list_all2 (\<lambda>x v. convert_yyjson_value x (d + 1) = Inr v) xs vs"
proof (induction xs arbitrary: vs)
  case (Cons x xs)
  then show ?case by (auto simp: list_all2_Cons1 map_sum_Inr split: sum.split)
qed auto

lemma convert_members_Inr:
  "convert_members ms d seen = Inr ns \<longleftrightarrow>
     distinct (map fst ms) \<and> set (map fst ms) \<inter> set seen = {}
     \<and> list_all2 (\<lambda>m n. fst m = fst n \<and> convert_yyjson_value (snd m) (d + 1) = Inr (snd n)) ms ns"
proof (induction ms arbitrary: seen ns)
  case (Cons m ms)
  then show ?case
    by (cases m) (auto simp: list_all2_Cons1 map_sum_Inr make_member_def split: sum.split)
qed auto

lemma list_all2_inverse:
  "list_all2 (\<lambda>y x. y = f x \<and> P x) ys xs \<longleftrightarrow> ys = map f xs \<and> (\<forall>x \<in> set xs. P x)"
  by (induction xs arbitrary: ys) (auto simp: list_all2_Cons2)

lemma convert_array_Inr:
  "convert_yyjson_value (YArray xs) d = Inr v \<longleftrightarrow>
     d \<le> max_depth \<and> (\<exists>vs. v = VArray vs \<and> convert_items xs d = Inr vs)"
  by (auto simp: convert_yyjson_value.simps map_sum_Inr)

lemma convert_object_Inr:
  "convert_yyjson_value (YObject ms) d = Inr v \<longleftrightarrow>
     d \<le> max_depth \<and> length ms \<le> max_object_members
     \<and> (\<exists>ns. v = VObject ns \<and> convert_members ms d [] = Inr ns)"
  by (auto simp: convert_yyjson_value.simps map_sum_Inr)

lemma raw_number_Inr:
  "raw_number_as_int64 token = Inr v \<longleftrightarrow>
     (\<exists>i. token = to_string i \<and> v = VInt i \<and> min_safe_integer \<le> i \<and> i \<le> max_safe_integer)"
proof (cases "\<exists>i. token = to_string i")
  case False
  then show ?thesis by (auto simp: raw_number_as_int64_def is_canonical_int64_token_iff)
qed (auto simp: raw_number_to_string to_string_inj split: if_splits)

lemma tree_of_leaf:
  "YNull = tree_of v \<longleftrightarrow> v = VNull" "YBool b = tree_of v \<longleftrightarrow> v = VBool b"
  "YString s = tree_of v \<longleftrightarrow> v = VString s" "YUnknown \<noteq> tree_of v"
  by (cases v; auto)+

lemma convert_yyjson_value_Inr:
  "raw_tree y \<Longrightarrow> convert_yyjson_value y d = Inr v \<longleftrightarrow> y = tree_of v \<and> within_limits d v"
proof (induction y arbitrary: d v)
  case (YRaw raw)
  show ?case by (cases v) (auto simp: convert_yyjson_value.simps raw_number_Inr)
next
  case (YArray xs)
  have "list_all2 (\<lambda>x v. convert_yyjson_value x (d + 1) = Inr v) xs vs \<longleftrightarrow>
      list_all2 (\<lambda>x v. x = tree_of v \<and> within_limits (d + 1) v) xs vs" for vs
    using YArray by (intro list.rel_cong) auto
  then have "convert_items xs d = Inr vs \<longleftrightarrow> xs = map tree_of vs \<and> (\<forall>v \<in> set vs. within_limits (d + 1) v)" for vs
    unfolding convert_items_Inr by (simp only: list_all2_inverse)
  then show ?case
    unfolding convert_array_Inr by (cases v) (simp_all add: conj_ac)
next
  case (YObject ms)
  have sub: "convert_yyjson_value (snd m) (Suc d) = Inr v \<longleftrightarrow> snd m = tree_of v \<and> within_limits (Suc d) v"
    if "m \<in> set ms" for m v
    using YObject.IH [of m "snd m" "Suc d" v] YObject.prems that by (cases m) force
  have "list_all2 (\<lambda>m n. fst m = fst n \<and> convert_yyjson_value (snd m) (d + 1) = Inr (snd n)) ms ns \<longleftrightarrow>
      list_all2 (\<lambda>m n. m = (fst n, tree_of (snd n)) \<and> within_limits (d + 1) (snd n)) ms ns" for ns
    by (intro list.rel_cong) (simp_all add: prod_eq_iff sub)
  then have "convert_members ms d [] = Inr ns \<longleftrightarrow> distinct (map fst ms) \<and> ms = map (\<lambda>n. (fst n, tree_of (snd n))) ns
      \<and> (\<forall>n \<in> set ns. within_limits (d + 1) (snd n))" for ns
    unfolding convert_members_Inr by (simp add: list_all2_inverse)
  then show ?case
    unfolding convert_object_Inr by (cases v) (auto simp: o_def)
qed (auto simp: convert_yyjson_value.simps tree_of_leaf)

text \<open>C12: conversion of a raw-number tree is exactly the inverse of the embedding of
  values into trees, restricted to the parser's bounds (depth, object width, distinct keys,
  safe integers): it accepts nothing else and loses nothing.\<close>

theorem convert_yyjson_value_exact:
  assumes "raw_tree y"
  shows "convert_yyjson_value y 0 = Inr v \<longleftrightarrow> y = tree_of v \<and> within_limits 0 v"
  using assms by (rule convert_yyjson_value_Inr)

theorem convert_yyjson_value_exact_witness:
  "convert_yyjson_value (tree_of sample_value) 0 = Inr sample_value
   \<and> convert_yyjson_value (YArray [YRaw ''01'']) 0 \<noteq> Inr (VArray [VInt 1])"
proof -
  have raw: "raw_tree (tree_of sample_value)" "raw_tree (YArray [YRaw ''01''])"
    by code_simp+
  have "within_limits 0 sample_value" by (simp add: sample_value_def)
  moreover have "YArray [YRaw ''01''] \<noteq> tree_of (VArray [VInt 1])" by code_simp
  ultimately show ?thesis
    using convert_yyjson_value_exact [OF raw(1), of sample_value]
      convert_yyjson_value_exact [OF raw(2), of "VArray [VInt 1]"] by blast
qed

text \<open>
  What yyjson documents about a successful read: with the raw-number flag every number is
  kept as text, and every string of the document is UTF-8.
\<close>

definition yyjson_documented :: "YyjsonReader \<Rightarrow> bool" where
  "yyjson_documented yyjson_read_opts \<longleftrightarrow>
     (\<forall>input document root. yyjson_read_opts True input = Inr document \<longrightarrow>
        doc_root document = Some root \<longrightarrow> raw_tree root \<and> utf8_tree root)"

lemma parse_document_Inr:
  "parse_document raw read input = Inr v \<longleftrightarrow>
     \<not> input_is_blank input \<and> utf8_is_valid input
     \<and> (\<exists>doc root. read raw input = Inr doc \<and> dat_read doc = length input
          \<and> doc_root doc = Some root \<and> convert_yyjson_value root 0 = Inr v)"
  by (auto simp: parse_document_def convert_root_def split: sum.split option.split)

lemma tree_serializable:
  "raw_tree (tree_of v) \<Longrightarrow> utf8_tree (tree_of v) \<Longrightarrow> within_limits d v \<Longrightarrow> serializable v"
proof (induction v arbitrary: d)
  case (VObject ms)
  have "serializable (snd m)" if "m \<in> set ms" for m
    using VObject.IH [of m "snd m" "d + 1"] VObject.prems that by (cases m) force
  then show ?case using VObject.prems by (auto simp: utf8_is_valid_text)
qed (auto simp: utf8_is_valid_text)


definition null_reader :: YyjsonReader where
  "null_reader raw input =
     (if input = ''null'' then Inr \<lparr>doc_root = Some YNull, dat_read = 4\<rparr> else Inl ERROR_LITERAL)"


end
