(* ===== verification/Event_Envelope.thy ===== *)
theory Event_Envelope
  imports Json_Value
begin

text \<open>
  The event envelope parser, \<open>src/events/event.cpp\<close>, with the resource limits of
  \<open>include/merovingian/events/limits.hpp\<close>. A result is \<open>Inl\<close> of the error text or
  \<open>Inr\<close> of the envelope; the diagnostics log is not modelled.

  The theorems: exactly which JSON values become envelopes, what the fields then are, and that
  the cap on the total number of signatures is implied by the two other caps.
\<close>

section \<open>Data and limits\<close>

abbreviation max_signatures_per_server :: nat where
  "max_signatures_per_server \<equiv> 100"

abbreviation max_servers_with_signatures :: nat where
  "max_servers_with_signatures \<equiv> 50"

abbreviation max_signatures_per_event :: nat where
  "max_signatures_per_event \<equiv> 5000"

record EventSignature =
  server_name :: string
  key_id :: string
  signature :: string

record EventEnvelope =
  json :: Value
  room_id :: string
  event_type :: string
  sender :: string
  state_key :: string
  origin_server_ts :: int
  signatures :: "EventSignature list"

type_synonym EventParseResult = "string + EventEnvelope"

section \<open>Signatures\<close>

text \<open>The inner loop: the string signatures of one server, stopping at the cap on the total.\<close>

fun parse_server_signatures ::
  "string \<Rightarrow> Object \<Rightarrow> EventSignature list \<Rightarrow> EventSignature list option" where
  "parse_server_signatures server [] parsed = Some parsed"
| "parse_server_signatures server ((key, v) # keys) parsed =
     (case get_if_string v of
        None \<Rightarrow> parse_server_signatures server keys parsed
      | Some sig \<Rightarrow>
          (let parsed' = parsed @ [\<lparr>server_name = server, key_id = key, signature = sig\<rparr>]
           in if length parsed' > max_signatures_per_event then None
              else parse_server_signatures server keys parsed'))"

fun parse_signature_members :: "Object \<Rightarrow> EventSignature list \<Rightarrow> EventSignature list option" where
  "parse_signature_members [] parsed = Some parsed"
| "parse_signature_members ((server, v) # servers) parsed =
     (case value_is_object v of
        None \<Rightarrow> parse_signature_members servers parsed
      | Some server_signatures \<Rightarrow>
          if length server_signatures > max_signatures_per_server then None
          else case parse_server_signatures server server_signatures parsed of
                 None \<Rightarrow> None
               | Some parsed' \<Rightarrow> parse_signature_members servers parsed')"

definition parse_event_signatures :: "Object \<Rightarrow> EventSignature list option" where
  "parse_event_signatures obj =
     (case object_member_as_object obj ''signatures'' of
        None \<Rightarrow> Some []
      | Some sigs \<Rightarrow>
          if length sigs > max_servers_with_signatures then None
          else parse_signature_members sigs [])"

section \<open>Identifiers and the envelope\<close>

definition matrix_id_is_valid :: "string \<Rightarrow> char \<Rightarrow> bool" where
  "matrix_id_is_valid i sigil \<longleftrightarrow>
     (let requires_colon = (sigil \<noteq> CHR ''!'')
      in length i \<ge> 3 \<and> hd i = sigil
         \<and> (\<not> requires_colon \<or> find_char (CHR '':'') i \<noteq> None)
         \<and> contains_no_control_or_space i)"

definition event_type_is_valid :: "string \<Rightarrow> bool" where
  "event_type_is_valid t \<longleftrightarrow> t \<noteq> [] \<and> length t \<le> 255 \<and> contains_no_control_or_space t"

definition parse_event_envelope :: "Value \<Rightarrow> EventParseResult" where
  "parse_event_envelope js =
     (case value_is_object js of
        None \<Rightarrow> Inl ''event must be an object''
      | Some obj \<Rightarrow>
          (case (string_member obj ''type'', string_member obj ''sender'',
                 integer_member obj ''origin_server_ts'') of
             (Some typ, Some sndr, Some ts) \<Rightarrow>
               (let room = string_member obj ''room_id'';
                    is_create_event = (typ = ''m.room.create'')
                in if \<not> is_create_event \<and> room = None then Inl ''event missing required fields''
                   else if room \<noteq> None \<and> \<not> matrix_id_is_valid (the room) (CHR ''!'')
                   then Inl ''invalid room_id''
                   else if \<not> matrix_id_is_valid sndr (CHR ''@'') then Inl ''invalid sender''
                   else if \<not> event_type_is_valid typ then Inl ''invalid event type''
                   else if ts < 0 then Inl ''invalid origin_server_ts''
                   else case parse_event_signatures obj of
                          None \<Rightarrow> Inl ''event signatures exceed resource limits''
                        | Some sigs \<Rightarrow>
                            Inr \<lparr>json = js,
                                 room_id = (case room of Some r \<Rightarrow> r | None \<Rightarrow> []),
                                 event_type = typ, sender = sndr,
                                 state_key = (case string_member obj ''state_key'' of
                                                Some k \<Rightarrow> k | None \<Rightarrow> []),
                                 origin_server_ts = ts, signatures = sigs\<rparr>)
           | _ \<Rightarrow> Inl ''event missing required fields''))"

section \<open>The signatures that are kept\<close>

text \<open>All string signatures under all servers, in document order.\<close>

definition server_signature_list :: "string \<times> Value \<Rightarrow> EventSignature list" where
  "server_signature_list m =
     (case snd m of
        VObject keys \<Rightarrow>
          concat (map (\<lambda>(k, v). case v of VString sig \<Rightarrow>
                         [\<lparr>server_name = fst m, key_id = k, signature = sig\<rparr>] | _ \<Rightarrow> []) keys)
      | _ \<Rightarrow> [])"

fun member_count :: "Value \<Rightarrow> nat" where
  "member_count (VObject ms) = length ms"
| "member_count _ = 0"

lemma server_signature_list_length: "length (server_signature_list m) \<le> member_count (snd m)"
proof (cases "snd m")
  case (VObject keys)
  have "length (concat (map (\<lambda>(k, v). case v of VString sig \<Rightarrow>
            [\<lparr>server_name = fst m, key_id = k, signature = sig\<rparr>] | _ \<Rightarrow> []) keys)) \<le> length keys"
    by (induction keys) (auto split: Value.splits)
  with VObject show ?thesis by (simp add: server_signature_list_def)
qed (simp_all add: server_signature_list_def)

lemma parse_server_signatures_Some:
  assumes "length parsed + length keys \<le> max_signatures_per_event"
  shows "parse_server_signatures server keys parsed
           = Some (parsed @ server_signature_list (server, VObject keys))"
  using assms
proof (induction keys arbitrary: parsed)
  case (Cons m keys)
  obtain k v where m: "m = (k, v)" by (cases m)
  show ?case
    using Cons.IH [of parsed] Cons.IH [of "parsed @ [\<lparr>server_name = server, key_id = k, signature = s\<rparr>]" for s]
      Cons.prems m
    by (cases v) (simp_all add: server_signature_list_def Let_def)
qed (simp add: server_signature_list_def)

lemma parse_signature_members_eq:
  assumes "length parsed + max_signatures_per_server * length ms \<le> max_signatures_per_event"
  shows "parse_signature_members ms parsed =
           (if \<forall>m \<in> set ms. member_count (snd m) \<le> max_signatures_per_server
            then Some (parsed @ concat (map server_signature_list ms)) else None)"
  using assms
proof (induction ms arbitrary: parsed)
  case (Cons m ms)
  obtain server v where m: "m = (server, v)" by (cases m)
  show ?case
  proof (cases v)
    case (VObject keys)
    show ?thesis
    proof (cases "length keys \<le> max_signatures_per_server")
      case True
      let ?new = "parsed @ server_signature_list (server, VObject keys)"
      have "length ?new \<le> length parsed + max_signatures_per_server"
        using True server_signature_list_length [of "(server, VObject keys)"] by simp
      then have "length ?new + max_signatures_per_server * length ms \<le> max_signatures_per_event"
        using Cons.prems by simp
      moreover have "parse_server_signatures server keys parsed = Some ?new"
        using True Cons.prems by (intro parse_server_signatures_Some) simp
      ultimately show ?thesis using Cons.IH [of ?new] True m VObject by simp
    qed (use m VObject in simp)
  qed (use m Cons in \<open>simp_all add: server_signature_list_def [of "(server, v)" for v]\<close>)
qed simp

text \<open>The signatures object within its caps: at most 50 servers with at most 100 keys each.\<close>

definition signatures_within_caps :: "Object \<Rightarrow> bool" where
  "signatures_within_caps obj =
     (case object_member_as_object obj ''signatures'' of
        None \<Rightarrow> True
      | Some sigs \<Rightarrow> length sigs \<le> max_servers_with_signatures
          \<and> (\<forall>m \<in> set sigs. member_count (snd m) \<le> max_signatures_per_server))"

definition signature_list :: "Object \<Rightarrow> EventSignature list" where
  "signature_list obj =
     (case object_member_as_object obj ''signatures'' of
        None \<Rightarrow> [] | Some sigs \<Rightarrow> concat (map server_signature_list sigs))"

lemma parse_event_signatures_eq:
  "parse_event_signatures obj =
     (if signatures_within_caps obj then Some (signature_list obj) else None)"
  by (auto simp: parse_event_signatures_def signatures_within_caps_def signature_list_def
      parse_signature_members_eq split: option.split)

lemma signature_list_bound:
  assumes "signatures_within_caps obj"
  shows "length (signature_list obj) \<le> max_signatures_per_event"
proof (cases "object_member_as_object obj ''signatures''")
  case (Some sigs)
  have "length (concat (map server_signature_list ms)) \<le> max_signatures_per_server * length ms"
    if "\<forall>m \<in> set ms. member_count (snd m) \<le> max_signatures_per_server" for ms
    using that
  proof (induction ms)
    case (Cons m ms)
    then show ?case using server_signature_list_length [of m] by simp
  qed simp
  from this [of sigs] Some assms show ?thesis
    by (simp add: signatures_within_caps_def signature_list_def)
qed (simp add: signature_list_def)

text \<open>Signature parsing fails exactly when more than 50 servers or more than 100 keys of
  one server are listed; otherwise it returns every string signature in document order, at most
  5000, so the cap on the total never fires on its own.\<close>

theorem parse_event_signatures_total:
  "(parse_event_signatures obj = None \<longleftrightarrow> \<not> signatures_within_caps obj)
   \<and> (\<forall>sigs. parse_event_signatures obj = Some sigs \<longrightarrow>
        sigs = signature_list obj \<and> length sigs \<le> max_signatures_per_event)"
  using signature_list_bound by (auto simp: parse_event_signatures_eq)

theorem parse_event_signatures_total_witness:
  "length (signature_list [(''signatures'', VObject [(''s'', VObject [(''ed25519:1'', VString ''x'')])])]) = 1
   \<and> length (signature_list [(''signatures'', VObject [(''s'', VObject [(''ed25519:1'', VString ''x'')])])])
       \<le> max_signatures_per_event"
proof -
  let ?obj = "[(''signatures'', VObject [(''s'', VObject [(''ed25519:1'', VString ''x'')])])]"
  have "parse_event_signatures ?obj = Some (signature_list ?obj)"
    by (simp add: parse_event_signatures_def signature_list_def member_defs server_signature_list_def)
  then show ?thesis
    using parse_event_signatures_total [of ?obj]
    by (simp add: signature_list_def member_defs server_signature_list_def)
qed

text \<open>An event is accepted exactly when it is an object with a valid type, sender and
  timestamp, a valid room id (which only a create event may omit) and signatures within the
  caps; the envelope's fields are then those members.\<close>

theorem parse_event_envelope_iff:
  "parse_event_envelope js = Inr e \<longleftrightarrow>
     (\<exists>obj. js = VObject obj \<and> json e = js
        \<and> string_member obj ''type'' = Some (event_type e) \<and> event_type_is_valid (event_type e)
        \<and> string_member obj ''sender'' = Some (sender e) \<and> matrix_id_is_valid (sender e) (CHR ''@'')
        \<and> integer_member obj ''origin_server_ts'' = Some (origin_server_ts e) \<and> 0 \<le> origin_server_ts e
        \<and> (case string_member obj ''room_id'' of
             Some r \<Rightarrow> r = room_id e \<and> matrix_id_is_valid r (CHR ''!'')
           | None \<Rightarrow> room_id e = [] \<and> event_type e = ''m.room.create'')
        \<and> state_key e = (case string_member obj ''state_key'' of Some k \<Rightarrow> k | None \<Rightarrow> [])
        \<and> signatures_within_caps obj \<and> signatures e = signature_list obj)"
  by (cases e; cases js)
    (auto simp: parse_event_envelope_def parse_event_signatures_eq Let_def
      split: option.splits if_splits)

end
