(* ===== verification/Room_Version.thy ===== *)
theory Room_Version
  imports Merovingian_Prelude
begin

text \<open>
  Room policy: the room version table of \<open>src/rooms/room_version_policy.cpp\<close> and the
  creation-time encryption policy and log redaction of \<open>src/rooms/encryption_policy.cpp\<close>.

  The theorems: the table is a function of the version id, and a private or direct room is
  never created without encryption.
\<close>

section \<open>Room versions\<close>

datatype EventFormat = event_room_v1_v2 | event_room_v3_plus

datatype RedactionRules = redaction_room_v1_v7 | redaction_room_v8_v10 | redaction_room_v11_plus

datatype AuthRules = auth_room_v1 | auth_room_v6_plus | auth_room_v12

datatype StateResolutionAlgorithm = state_v1 | state_v2

datatype EventIdFormat = reference_hash

record RoomVersionPolicy =
  policy_id :: string
  event_format :: EventFormat
  redaction_rules :: RedactionRules
  auth_rules :: AuthRules
  state_resolution :: StateResolutionAlgorithm
  event_id_format :: EventIdFormat
  stable :: bool
  create_event_is_room_id :: bool
  privilege_room_creators :: bool
  power_levels_require_integers :: bool

definition room_policy ::
  "string \<Rightarrow> EventFormat \<Rightarrow> RedactionRules \<Rightarrow> AuthRules \<Rightarrow> StateResolutionAlgorithm
    \<Rightarrow> bool \<Rightarrow> bool \<Rightarrow> bool \<Rightarrow> RoomVersionPolicy" where
  "room_policy i ef rr ar sr create_id privilege ints =
     \<lparr>policy_id = i, event_format = ef, redaction_rules = rr, auth_rules = ar,
      state_resolution = sr, event_id_format = reference_hash, stable = True,
      create_event_is_room_id = create_id, privilege_room_creators = privilege,
      power_levels_require_integers = ints\<rparr>"

definition policies :: "RoomVersionPolicy list" where
  "policies =
    [room_policy ''1'' event_room_v1_v2 redaction_room_v1_v7 auth_room_v1 state_v1 False False False,
     room_policy ''2'' event_room_v1_v2 redaction_room_v1_v7 auth_room_v1 state_v2 False False False,
     room_policy ''3'' event_room_v3_plus redaction_room_v1_v7 auth_room_v1 state_v2 False False False,
     room_policy ''4'' event_room_v3_plus redaction_room_v1_v7 auth_room_v1 state_v2 False False False,
     room_policy ''5'' event_room_v3_plus redaction_room_v1_v7 auth_room_v1 state_v2 False False False,
     room_policy ''6'' event_room_v3_plus redaction_room_v1_v7 auth_room_v6_plus state_v2 False False False,
     room_policy ''7'' event_room_v3_plus redaction_room_v1_v7 auth_room_v6_plus state_v2 False False False,
     room_policy ''8'' event_room_v3_plus redaction_room_v8_v10 auth_room_v6_plus state_v2 False False False,
     room_policy ''9'' event_room_v3_plus redaction_room_v8_v10 auth_room_v6_plus state_v2 False False False,
     room_policy ''10'' event_room_v3_plus redaction_room_v8_v10 auth_room_v6_plus state_v2 False False True,
     room_policy ''11'' event_room_v3_plus redaction_room_v11_plus auth_room_v6_plus state_v2 False False True,
     room_policy ''12'' event_room_v3_plus redaction_room_v11_plus auth_room_v12 state_v2 True True True]"

definition known_room_versions :: "RoomVersionPolicy list" where
  "known_room_versions = policies"

definition find_room_version_policy :: "string \<Rightarrow> RoomVersionPolicy option" where
  "find_room_version_policy version = find (\<lambda>p. policy_id p = version) policies"

definition room_version_is_supported :: "string \<Rightarrow> bool" where
  "room_version_is_supported version \<longleftrightarrow> find_room_version_policy version \<noteq> None"

lemma distinct_policy_ids: "distinct (map policy_id policies)"
  by (simp add: policies_def room_policy_def)

lemma find_by_key:
  "distinct (map f xs) \<Longrightarrow> find (\<lambda>x. f x = k) xs = Some x \<longleftrightarrow> x \<in> set xs \<and> f x = k"
  by (induction xs) (auto simp: image_iff)

text \<open>Room version 12 is the only one with privileged creators and with the create event as room id.\<close>

lemma privileged_creators_v12:
  "p \<in> set known_room_versions \<Longrightarrow>
     privilege_room_creators p = (auth_rules p = auth_room_v12)
     \<and> create_event_is_room_id p = (auth_rules p = auth_room_v12)"
  by (auto simp: known_room_versions_def policies_def room_policy_def)

section \<open>Encryption at room creation\<close>

datatype RoomPreset = public_chat | private_chat | trusted_private_chat

datatype RoomEncryptionRequest = unspecified | encrypted | unencrypted

record RoomCreationEncryptionRequest =
  preset :: RoomPreset
  direct_message :: bool
  federated :: bool
  encryption :: RoomEncryptionRequest

record RoomCreationEncryptionDecision =
  creation_allowed :: bool
  encryption_required :: bool
  encryption_enabled_by_default :: bool
  encryption_enabled :: bool
  creation_reason :: string

definition room_is_private :: "RoomPreset \<Rightarrow> bool" where
  "room_is_private p \<longleftrightarrow> p = private_chat \<or> p = trusted_private_chat"

definition encryption_denied :: "string \<Rightarrow> RoomCreationEncryptionDecision" where
  "encryption_denied why =
     \<lparr>creation_allowed = False, encryption_required = True, encryption_enabled_by_default = True,
      encryption_enabled = False, creation_reason = why\<rparr>"

definition room_creation_encryption_policy ::
  "RoomCreationEncryptionRequest \<Rightarrow> RoomCreationEncryptionDecision" where
  "room_creation_encryption_policy request =
     (let private_room = room_is_private (preset request);
          required = (private_room \<or> direct_message request)
      in if direct_message request \<and> encryption request = unencrypted
         then encryption_denied ''direct messages must be encrypted''
         else if federated request \<and> private_room \<and> encryption request = unencrypted
         then encryption_denied ''federated private rooms must be encrypted''
         else if private_room \<and> encryption request = unencrypted
         then encryption_denied ''private rooms must be encrypted''
         else \<lparr>creation_allowed = True, encryption_required = required,
               encryption_enabled_by_default = required,
               encryption_enabled =
                 (encryption request = encrypted
                  \<or> (encryption request = unspecified \<and> required)),
               creation_reason = []\<rparr>)"

section \<open>Log redaction of encrypted payloads\<close>

record EncryptedEventLogSummary =
  log_event_type :: string
  log_room_id :: string
  log_sender :: string
  log_payload :: string

definition encrypted_event_payload_is_loggable :: "string \<Rightarrow> bool" where
  "encrypted_event_payload_is_loggable payload \<longleftrightarrow> payload = []"

definition make_encrypted_event_log_summary ::
  "string \<Rightarrow> string \<Rightarrow> string \<Rightarrow> string \<Rightarrow> EncryptedEventLogSummary" where
  "make_encrypted_event_log_summary event_type room_id sender encrypted_payload =
     \<lparr>log_event_type = event_type, log_room_id = room_id, log_sender = sender,
      log_payload = (if encrypted_payload = [] then ''[encrypted-payload:empty]''
                     else ''[encrypted-payload:redacted]'')\<rparr>"

definition encrypted_event_log_summary_text :: "EncryptedEventLogSummary \<Rightarrow> string" where
  "encrypted_event_log_summary_text s =
     ''encrypted event type='' @ log_event_type s @ '' room_id='' @ log_room_id s
     @ '' sender='' @ log_sender s @ '' payload='' @ log_payload s"

text \<open>A room is refused exactly when it is private or a direct message and asks for no
  encryption; every private or direct room that is created has encryption enabled.\<close>

theorem private_rooms_are_encrypted:
  "(creation_allowed (room_creation_encryption_policy request) \<longleftrightarrow>
      \<not> ((room_is_private (preset request) \<or> direct_message request) \<and> encryption request = unencrypted))
   \<and> (encryption_enabled (room_creation_encryption_policy request) \<longleftrightarrow>
        encryption request = encrypted
        \<or> (encryption request = unspecified \<and> (room_is_private (preset request) \<or> direct_message request)))"
  by (cases "encryption request")
    (simp_all add: room_creation_encryption_policy_def encryption_denied_def Let_def)

text \<open>What reaches a log line depends on the encrypted payload only through its emptiness.\<close>

lemma log_text_hides_payload:
  "p \<noteq> [] \<Longrightarrow> q \<noteq> [] \<Longrightarrow>
     encrypted_event_log_summary_text (make_encrypted_event_log_summary t r s p)
     = encrypted_event_log_summary_text (make_encrypted_event_log_summary t r s q)"
  by (simp add: make_encrypted_event_log_summary_def)

text \<open>Looking a room version up returns exactly the table entry with that id, so the two
  views of the table agree: a version is supported when and only when it is a known one.\<close>

theorem find_room_version_policy_iff:
  "(find_room_version_policy version = Some p \<longleftrightarrow> p \<in> set known_room_versions \<and> policy_id p = version)
   \<and> (room_version_is_supported version \<longleftrightarrow> version \<in> policy_id ` set known_room_versions)"
proof -
  have found: "find_room_version_policy version = Some q
      \<longleftrightarrow> q \<in> set known_room_versions \<and> policy_id q = version" for q
    unfolding find_room_version_policy_def known_room_versions_def
    by (rule find_by_key [OF distinct_policy_ids])
  then show ?thesis by (auto simp: room_version_is_supported_def)
qed

end
