(* ===== verification/Power_Levels.thy ===== *)
theory Power_Levels
  imports Json_Value Room_Version
begin

text \<open>
  Power levels in \<open>src/events/authorization.cpp\<close>: reading levels out of a power levels event,
  a sender's effective power, the structural rules 9.1 to 9.3 and the two-sided bounds 9.5 to
  9.7 on a change. A rejection reason is a string, empty for no objection, as in the source.

  The lemmas describe each check by what it lets through; \<open>Authorization\<close> puts them together.
\<close>

section \<open>Reading a level\<close>

definition power_level_value :: "Value option \<Rightarrow> bool \<Rightarrow> int option" where
  "power_level_value v allow_string_values =
     (case v of
        None \<Rightarrow> None
      | Some w \<Rightarrow>
          (case get_if_int w of
             Some i \<Rightarrow> Some i
           | None \<Rightarrow>
               if \<not> allow_string_values then None
               else case get_if_string w of
                      None \<Rightarrow> None
                    | Some txt \<Rightarrow>
                        if txt = [] then None
                        else case from_chars_int64 txt of
                               Parsed parsed rest \<Rightarrow> if rest \<noteq> [] then None else Some parsed
                             | _ \<Rightarrow> None))"

definition power_level_member :: "Object \<Rightarrow> string \<Rightarrow> bool \<Rightarrow> int option" where
  "power_level_member obj key allow_string_values = power_level_value (object_member obj key) allow_string_values"

definition extract_user_level_from_users :: "Object \<Rightarrow> string \<Rightarrow> bool \<Rightarrow> int" where
  "extract_user_level_from_users users user_id allow_string_values =
     (case power_level_member users user_id allow_string_values of Some l \<Rightarrow> l | None \<Rightarrow> - 1)"

text \<open>The content object of an event; most of the readers below start with it.\<close>

definition event_content :: "Value \<Rightarrow> Object option" where
  "event_content event =
     (case value_is_object event of
        None \<Rightarrow> None
      | Some obj \<Rightarrow> object_member_as_object obj ''content'')"

definition event_content_string :: "Value \<Rightarrow> string \<Rightarrow> string option" where
  "event_content_string event key =
     (case event_content event of None \<Rightarrow> None | Some content \<Rightarrow> string_member content key)"

definition extract_power_level_key :: "Value \<Rightarrow> string \<Rightarrow> int \<Rightarrow> bool \<Rightarrow> int" where
  "extract_power_level_key power_levels_event key default_value allow_string_values =
     (case event_content power_levels_event of
        None \<Rightarrow> default_value
      | Some content \<Rightarrow>
          (case power_level_member content key allow_string_values of
             Some l \<Rightarrow> l | None \<Rightarrow> default_value))"

definition extract_user_power_level :: "Value \<Rightarrow> string \<Rightarrow> bool \<Rightarrow> int" where
  "extract_user_power_level power_levels_event user_id allow_string_values =
     (case event_content power_levels_event of
        None \<Rightarrow> 0
      | Some content \<Rightarrow>
          (let default_level = extract_power_level_key power_levels_event ''users_default'' 0 allow_string_values
           in case object_member_as_object content ''users'' of
                None \<Rightarrow> default_level
              | Some users \<Rightarrow>
                  (let user_level = extract_user_level_from_users users user_id allow_string_values
                   in if user_level \<ge> 0 then user_level else default_level)))"

section \<open>Creators and effective power\<close>

definition array_contains_string :: "Value \<Rightarrow> string \<Rightarrow> bool" where
  "array_contains_string v needle =
     (case get_if_array v of
        None \<Rightarrow> False
      | Some xs \<Rightarrow> list_ex (\<lambda>x. get_if_string x = Some needle) xs)"

definition user_is_room_creator :: "Value \<Rightarrow> string \<Rightarrow> RoomVersionPolicy \<Rightarrow> bool" where
  "user_is_room_creator create_event user_id policy =
     (if \<not> privilege_room_creators policy then False
      else case value_is_object create_event of
             None \<Rightarrow> False
           | Some obj \<Rightarrow>
               if string_member obj ''sender'' = Some user_id then True
               else case object_member_as_object obj ''content'' of
                      None \<Rightarrow> False
                    | Some content \<Rightarrow>
                        (case object_member content ''additional_creators'' of
                           None \<Rightarrow> False
                         | Some additional \<Rightarrow> array_contains_string additional user_id))"

abbreviation creator_power :: int where
  "creator_power \<equiv> 9223372036854775807"

definition effective_sender_power :: "Value \<Rightarrow> string \<Rightarrow> Value \<Rightarrow> RoomVersionPolicy \<Rightarrow> int" where
  "effective_sender_power power_levels sndr create_event policy =
     (if user_is_room_creator create_event sndr policy then creator_power
      else if value_has_content power_levels
      then extract_user_power_level power_levels sndr (\<not> power_levels_require_integers policy)
      else if event_content_string create_event ''creator'' = Some sndr then 100
      else 0)"

section \<open>Rules 9.1 to 9.3: the shape of the content\<close>

definition scalar_power_level_keys :: "string list" where
  "scalar_power_level_keys =
     [''users_default'', ''events_default'', ''state_default'', ''ban'', ''redact'', ''kick'', ''invite'']"

definition is_structurally_invalid :: "char \<Rightarrow> bool" where
  "is_structurally_invalid c \<longleftrightarrow> byte c \<le> 32 \<or> byte c = 127"

definition user_id_is_well_formed :: "string \<Rightarrow> bool" where
  "user_id_is_well_formed user_id =
     (if length user_id < 3 \<or> length user_id > 255 \<or> hd user_id \<noteq> CHR ''@'' then False
      else case find_char (CHR '':'') user_id of
             None \<Rightarrow> False
           | Some separator \<Rightarrow>
               if separator + 1 \<ge> length user_id then False
               else let localpart = take (separator - 1) (drop 1 user_id);
                        server = drop (separator + 1) user_id
                    in if list_ex is_structurally_invalid localpart \<or> list_ex is_structurally_invalid server
                       then False
                       else (case find_char (CHR '':'') server of
                               None \<Rightarrow> server \<noteq> []
                             | Some port_separator \<Rightarrow>
                                 take port_separator server \<noteq> []
                                 \<and> find_char (CHR '':'') (drop (port_separator + 1) server) = None))"

definition bounded_power_level_maps :: "RoomVersionPolicy \<Rightarrow> string list" where
  "bounded_power_level_maps policy =
     (if auth_rules policy = auth_room_v1 then [''events''] else [''events'', ''notifications''])"

text \<open>A loop that returns the first objection.\<close>

fun first_reason :: "('a \<Rightarrow> string) \<Rightarrow> 'a list \<Rightarrow> string" where
  "first_reason f [] = []"
| "first_reason f (x # xs) = (if f x \<noteq> [] then f x else first_reason f xs)"

definition scalar_shape_reason :: "Object \<Rightarrow> bool \<Rightarrow> string \<Rightarrow> string" where
  "scalar_shape_reason content allow_strings key =
     (case object_member content key of
        None \<Rightarrow> []
      | Some v \<Rightarrow> if power_level_value (Some v) allow_strings = None
                  then key @ '' must be an integer'' else [])"

definition map_shape_reason :: "Object \<Rightarrow> bool \<Rightarrow> string \<Rightarrow> string" where
  "map_shape_reason content allow_strings key =
     (case object_member content key of
        None \<Rightarrow> []
      | Some v \<Rightarrow>
          (case value_is_object v of
             None \<Rightarrow> key @ '' must be an object''
           | Some entries \<Rightarrow>
               first_reason (\<lambda>entry. if power_level_value (Some (snd entry)) allow_strings = None
                                     then key @ '' values must be integers'' else []) entries))"

definition users_shape_reason :: "Object \<Rightarrow> bool \<Rightarrow> string" where
  "users_shape_reason content allow_strings =
     (case object_member content ''users'' of
        None \<Rightarrow> []
      | Some v \<Rightarrow>
          (case value_is_object v of
             None \<Rightarrow> ''users must be an object''
           | Some users \<Rightarrow>
               first_reason (\<lambda>entry. if \<not> user_id_is_well_formed (fst entry)
                                     then ''users keys must be valid user IDs''
                                     else if power_level_value (Some (snd entry)) allow_strings = None
                                     then ''users values must be integers'' else []) users))"

definition power_levels_content_rejection_reason :: "Object \<Rightarrow> RoomVersionPolicy \<Rightarrow> string" where
  "power_levels_content_rejection_reason content policy =
     (let allow_strings = \<not> power_levels_require_integers policy;
          scalars = first_reason (scalar_shape_reason content allow_strings) scalar_power_level_keys;
          maps = first_reason (map_shape_reason content allow_strings) (bounded_power_level_maps policy)
      in if scalars \<noteq> [] then scalars
         else if maps \<noteq> [] then maps
         else users_shape_reason content allow_strings)"

section \<open>Rules 9.5 to 9.7: bounds on a change\<close>

definition scalar_change_reason :: "Object \<Rightarrow> Object \<Rightarrow> int \<Rightarrow> bool \<Rightarrow> string \<Rightarrow> string" where
  "scalar_change_reason old_content new_content sender_power allow_strings key =
     (let old_level = power_level_member old_content key allow_strings;
          new_level = power_level_member new_content key allow_strings
      in if old_level = new_level then []
         else if old_level \<noteq> None \<and> the old_level > sender_power
         then ''cannot alter '' @ key @ '': its current value exceeds the sender's power level''
         else if new_level \<noteq> None \<and> the new_level > sender_power
         then ''cannot set '' @ key @ '' above the sender's own power level''
         else [])"

definition scalar_power_level_rejection_reason :: "Object \<Rightarrow> Object \<Rightarrow> int \<Rightarrow> bool \<Rightarrow> string" where
  "scalar_power_level_rejection_reason old_content new_content sender_power allow_strings =
     first_reason (scalar_change_reason old_content new_content sender_power allow_strings)
       scalar_power_level_keys"

definition map_member_level :: "Object option \<Rightarrow> string \<Rightarrow> bool \<Rightarrow> int option" where
  "map_member_level entries key allow_strings =
     (case entries of None \<Rightarrow> None | Some m \<Rightarrow> power_level_member m key allow_strings)"

definition map_old_entry_reason ::
  "Object option \<Rightarrow> string \<Rightarrow> int \<Rightarrow> bool \<Rightarrow> string \<times> Value \<Rightarrow> string" where
  "map_old_entry_reason new_map map_key sender_power allow_strings entry =
     (case power_level_value (Some (snd entry)) allow_strings of
        None \<Rightarrow> []
      | Some old_level \<Rightarrow>
          (let new_level = map_member_level new_map (fst entry) allow_strings;
               removed_or_changed = (new_level = None \<or> the new_level \<noteq> old_level)
           in if removed_or_changed \<and> old_level > sender_power
              then map_key @ '' entry '' @ [CHR 0x27] @ fst entry @ [CHR 0x27]
                   @ '' currently exceeds the sender's power level''
              else []))"

definition map_new_entry_reason ::
  "Object option \<Rightarrow> string \<Rightarrow> int \<Rightarrow> bool \<Rightarrow> string \<times> Value \<Rightarrow> string" where
  "map_new_entry_reason old_map map_key sender_power allow_strings entry =
     (case power_level_value (Some (snd entry)) allow_strings of
        None \<Rightarrow> []
      | Some new_level \<Rightarrow>
          (let old_level = map_member_level old_map (fst entry) allow_strings;
               added_or_changed = (old_level = None \<or> new_level \<noteq> the old_level)
           in if added_or_changed \<and> new_level > sender_power
              then map_key @ '' entry '' @ [CHR 0x27] @ fst entry @ [CHR 0x27]
                   @ '' exceeds the sender's power level''
              else []))"

definition entries_of :: "Object option \<Rightarrow> Object" where
  "entries_of entries = (case entries of None \<Rightarrow> [] | Some m \<Rightarrow> m)"

definition power_level_map_rejection_reason ::
  "Object \<Rightarrow> Object \<Rightarrow> int \<Rightarrow> bool \<Rightarrow> string \<Rightarrow> string" where
  "power_level_map_rejection_reason old_content new_content sender_power allow_strings map_key =
     (let old_map = object_member_as_object old_content map_key;
          new_map = object_member_as_object new_content map_key;
          removals = first_reason (map_old_entry_reason new_map map_key sender_power allow_strings)
                       (entries_of old_map)
      in if removals \<noteq> [] then removals
         else first_reason (map_new_entry_reason old_map map_key sender_power allow_strings)
                (entries_of new_map))"

section \<open>Rules 9.8 and 9.9: user levels\<close>

definition old_user_level :: "Object option \<Rightarrow> string \<Rightarrow> bool \<Rightarrow> int" where
  "old_user_level old_users user_id allow_strings =
     (case old_users of None \<Rightarrow> - 1 | Some users \<Rightarrow> extract_user_level_from_users users user_id allow_strings)"

definition user_elevation_reason ::
  "Object option \<Rightarrow> int \<Rightarrow> bool \<Rightarrow> string \<times> Value \<Rightarrow> string" where
  "user_elevation_reason old_users sender_power allow_strings entry =
     (case power_level_value (Some (snd entry)) allow_strings of
        None \<Rightarrow> []
      | Some new_level \<Rightarrow>
          (let old_level = old_user_level old_users (fst entry) allow_strings;
               added_or_changed = (old_level < 0 \<or> new_level \<noteq> old_level)
           in if added_or_changed \<and> new_level > sender_power
              then ''cannot elevate user above own power level'' else []))"

definition user_demotion_reason ::
  "Object \<Rightarrow> Object option \<Rightarrow> string \<Rightarrow> int \<Rightarrow> bool \<Rightarrow> string \<times> Value \<Rightarrow> string" where
  "user_demotion_reason old_users new_users sndr sender_power allow_strings entry =
     (if fst entry = sndr then []
      else let old_level = extract_user_level_from_users old_users (fst entry) allow_strings
           in if old_level < 0 then []
              else let new_level = map_member_level new_users (fst entry) allow_strings;
                       removed = (new_level = None);
                       changed = (\<not> removed \<and> the new_level \<noteq> old_level)
                   in if (removed \<or> changed) \<and> old_level \<ge> sender_power
                      then ''cannot change or remove power level of user at or above own power level''
                      else [])"

definition users_change_reason ::
  "Object option \<Rightarrow> Object option \<Rightarrow> string \<Rightarrow> int \<Rightarrow> bool \<Rightarrow> string" where
  "users_change_reason old_users new_users sndr sender_power allow_strings =
     (let elevation = first_reason (user_elevation_reason old_users sender_power allow_strings)
                        (entries_of new_users)
      in if elevation \<noteq> [] then elevation
         else case old_users of
                None \<Rightarrow> []
              | Some users \<Rightarrow>
                  first_reason (user_demotion_reason users new_users sndr sender_power allow_strings) users)"

section \<open>What the checks let through\<close>

lemma first_reason_Nil: "first_reason f xs = [] \<longleftrightarrow> (\<forall>x \<in> set xs. f x = [])"
  by (induction xs) auto

lemma scalar_change_reason_Nil:
  "scalar_change_reason old new pw strs key = [] \<longleftrightarrow>
     power_level_member old key strs = power_level_member new key strs
     \<or> ((\<forall>l. power_level_member old key strs = Some l \<longrightarrow> l \<le> pw)
        \<and> (\<forall>l. power_level_member new key strs = Some l \<longrightarrow> l \<le> pw))"
  by (auto simp: scalar_change_reason_def Let_def)

lemma power_level_member_entry:
  "power_level_member m key strs = Some l \<Longrightarrow>
     \<exists>v. (key, v) \<in> set m \<and> power_level_value (Some v) strs = Some l"
  by (cases "object_member m key")
    (auto simp: power_level_member_def power_level_value_def [of None] dest: object_member_in_set)

lemma map_old_entry_reason_Nil:
  "power_level_value (Some v) strs = Some l \<Longrightarrow>
     map_old_entry_reason m map_key pw strs (key, v) = [] \<longleftrightarrow> map_member_level m key strs = Some l \<or> l \<le> pw"
  by (cases "map_member_level m key strs") (auto simp: map_old_entry_reason_def)

lemma map_new_entry_reason_Nil:
  "power_level_value (Some v) strs = Some l \<Longrightarrow>
     map_new_entry_reason m map_key pw strs (key, v) = [] \<longleftrightarrow> map_member_level m key strs = Some l \<or> l \<le> pw"
  by (cases "map_member_level m key strs") (auto simp: map_new_entry_reason_def)

lemma user_elevation_reason_Nil:
  "power_level_value (Some v) strs = Some l \<Longrightarrow>
     user_elevation_reason old_users pw strs (key, v) = []
     \<longleftrightarrow> (0 \<le> l \<and> old_user_level old_users key strs = l) \<or> l \<le> pw"
  by (auto simp: user_elevation_reason_def Let_def)

text \<open>An accepted change of a bounded map touches only levels within the sender's reach.\<close>

lemma power_level_map_bound:
  assumes "power_level_map_rejection_reason old new pw strs map_key = []"
    and "map_member_level (object_member_as_object old map_key) key strs
         \<noteq> map_member_level (object_member_as_object new map_key) key strs"
  shows "(\<forall>l. map_member_level (object_member_as_object old map_key) key strs = Some l \<longrightarrow> l \<le> pw)
       \<and> (\<forall>l. map_member_level (object_member_as_object new map_key) key strs = Some l \<longrightarrow> l \<le> pw)"
proof -
  let ?old = "object_member_as_object old map_key" and ?new = "object_member_as_object new map_key"
  have entry: "\<exists>v. (key, v) \<in> set (entries_of m) \<and> power_level_value (Some v) strs = Some l"
    if "map_member_level m key strs = Some l" for m l
    using that power_level_member_entry by (cases m) (auto simp: map_member_level_def entries_of_def)
  from assms(1) have
    old: "\<forall>e \<in> set (entries_of ?old). map_old_entry_reason ?new map_key pw strs e = []" and
    new: "\<forall>e \<in> set (entries_of ?new). map_new_entry_reason ?old map_key pw strs e = []"
    by (auto simp: power_level_map_rejection_reason_def Let_def first_reason_Nil split: if_splits)
  have "l \<le> pw" if l: "map_member_level ?old key strs = Some l" for l
  proof -
    obtain v where "(key, v) \<in> set (entries_of ?old)" "power_level_value (Some v) strs = Some l"
      using entry [OF l] by blast
    with old assms(2) l show ?thesis
      using map_old_entry_reason_Nil [of v strs l ?new map_key pw key] by fastforce
  qed
  moreover have "l \<le> pw" if l: "map_member_level ?new key strs = Some l" for l
  proof -
    obtain v where "(key, v) \<in> set (entries_of ?new)" "power_level_value (Some v) strs = Some l"
      using entry [OF l] by blast
    with new assms(2) l show ?thesis
      using map_new_entry_reason_Nil [of v strs l ?old map_key pw key] by fastforce
  qed
  ultimately show ?thesis by blast
qed

section \<open>User levels after an accepted change\<close>

text \<open>The level a content object gives a user.\<close>

definition content_user_level :: "Object \<Rightarrow> string \<Rightarrow> bool \<Rightarrow> int" where
  "content_user_level content user_id strs =
     (let explicit_level = old_user_level (object_member_as_object content ''users'') user_id strs
      in if explicit_level \<ge> 0 then explicit_level
         else case power_level_member content ''users_default'' strs of Some l \<Rightarrow> l | None \<Rightarrow> 0)"

lemma extract_user_power_level_content:
  "event_content ev = Some content \<Longrightarrow>
     extract_user_power_level ev user_id strs = content_user_level content user_id strs"
  by (auto simp: extract_user_power_level_def content_user_level_def extract_power_level_key_def
      old_user_level_def Let_def split: option.split)

lemma old_user_level_entry:
  assumes "old_user_level users user_id strs = l" and "0 \<le> l"
  shows "\<exists>v. (user_id, v) \<in> set (entries_of users) \<and> power_level_value (Some v) strs = Some l"
proof -
  from assms obtain m where "users = Some m" "power_level_member m user_id strs = Some l"
    by (auto simp: old_user_level_def extract_user_level_from_users_def split: option.splits)
  then show ?thesis using power_level_member_entry [of m user_id strs l] by (simp add: entries_of_def)
qed

text \<open>
  After an accepted change no user ends above the sender, unless the user was there before or
  falls back to a default level that was already in force.
\<close>

lemma users_change_no_escalation:
  assumes "users_change_reason (object_member_as_object old ''users'') (object_member_as_object new ''users'')
             sndr pw strs = []"
    and "scalar_power_level_rejection_reason old new pw strs = []"
    and "power_level_member old ''users_default'' strs = Some d \<or>
         (power_level_member old ''users_default'' strs = None \<and> d = 0)"
  shows "content_user_level new user_id strs \<le> max pw (max (content_user_level old user_id strs) (max d 0))"
proof -
  let ?old = "object_member_as_object old ''users''" and ?new = "object_member_as_object new ''users''"
  let ?l = "old_user_level ?new user_id strs"
  show ?thesis
  proof (cases "0 \<le> ?l")
    case True
    then obtain v where "(user_id, v) \<in> set (entries_of ?new)" "power_level_value (Some v) strs = Some ?l"
      using old_user_level_entry by blast
    with assms(1) have "(0 \<le> ?l \<and> old_user_level ?old user_id strs = ?l) \<or> ?l \<le> pw"
      using user_elevation_reason_Nil [of v strs ?l ?old pw user_id]
      by (auto simp: users_change_reason_def Let_def first_reason_Nil split: if_splits)
    with True show ?thesis by (auto simp: content_user_level_def Let_def)
  next
    case False
    have "scalar_change_reason old new pw strs ''users_default'' = []"
      using assms(2) by (auto simp: scalar_power_level_rejection_reason_def scalar_power_level_keys_def split: if_splits)
    with False assms(3) show ?thesis
      by (auto simp: content_user_level_def Let_def scalar_change_reason_Nil split: option.splits)
  qed
qed

text \<open>A peer at or above the sender keeps the explicit level.\<close>

lemma users_change_keeps_peers:
  assumes "users_change_reason (object_member_as_object old ''users'') (object_member_as_object new ''users'')
             sndr pw strs = []"
    and "user_id \<noteq> sndr" and "old_user_level (object_member_as_object old ''users'') user_id strs = l"
    and "0 \<le> l" and "pw \<le> l"
  shows "old_user_level (object_member_as_object new ''users'') user_id strs = l"
proof -
  let ?old = "object_member_as_object old ''users''" and ?new = "object_member_as_object new ''users''"
  obtain v where v: "(user_id, v) \<in> set (entries_of ?old)"
    using old_user_level_entry [OF assms(3,4)] by blast
  then obtain users where users: "?old = Some users" by (cases ?old) (auto simp: entries_of_def)
  with assms(1) v have "user_demotion_reason users ?new sndr pw strs (user_id, v) = []"
    by (auto simp: users_change_reason_def Let_def first_reason_Nil entries_of_def split: if_splits)
  with assms(2-5) users have "map_member_level ?new user_id strs = Some l"
    by (cases "map_member_level ?new user_id strs")
      (auto simp: user_demotion_reason_def old_user_level_def Let_def split: if_splits)
  then show ?thesis
    by (auto simp: map_member_level_def old_user_level_def extract_user_level_from_users_def split: option.splits)
qed

end
