(* ===== verification/Redaction.thy ===== *)
theory Redaction
  imports Json_Value Room_Version
begin

text \<open>
  Event redaction, \<open>src/events/redaction.cpp\<close>: the members of an event and of its content
  that survive, per room version. A \<open>RedactionResult\<close> is \<open>Inl\<close> of the error text or \<open>Inr\<close>
  of the redacted event.

  The theorems: redaction is idempotent, keeps exactly the allowed members in order, and what
  survives depends only on what survives.
\<close>

type_synonym RedactionResult = "string + Value"

definition base_key_is_allowed :: "string \<Rightarrow> bool" where
  "base_key_is_allowed key \<longleftrightarrow>
     key = ''event_id'' \<or> key = ''type'' \<or> key = ''room_id'' \<or> key = ''sender'' \<or> key = ''state_key''
     \<or> key = ''content'' \<or> key = ''hashes'' \<or> key = ''signatures'' \<or> key = ''depth'' \<or> key = ''prev_events''
     \<or> key = ''auth_events'' \<or> key = ''origin_server_ts''"

definition key_is_allowed :: "string \<Rightarrow> RoomVersionPolicy \<Rightarrow> bool" where
  "key_is_allowed key policy \<longleftrightarrow>
     (if redaction_rules policy = redaction_room_v1_v7 \<or> redaction_rules policy = redaction_room_v8_v10
      then base_key_is_allowed key \<or> key = ''origin'' \<or> key = ''prev_state'' \<or> key = ''membership''
      else base_key_is_allowed key)"

definition content_key_allowed :: "string \<Rightarrow> string \<Rightarrow> RoomVersionPolicy \<Rightarrow> bool" where
  "content_key_allowed type key policy \<longleftrightarrow>
     (if type = ''m.room.member''
      then key = ''membership'' \<or> key = ''join_authorised_via_users_server''
           \<or> (redaction_rules policy = redaction_room_v11_plus \<and> key = ''third_party_invite'')
      else if type = ''m.room.create''
      then redaction_rules policy = redaction_room_v11_plus \<or> key = ''creator''
      else if type = ''m.room.join_rules''
      then (let allow_preserved = (redaction_rules policy = redaction_room_v8_v10
                                   \<or> redaction_rules policy = redaction_room_v11_plus)
            in key = ''join_rule'' \<or> (allow_preserved \<and> key = ''allow''))
      else if type = ''m.room.power_levels''
      then key = ''ban'' \<or> key = ''events'' \<or> key = ''events_default'' \<or> key = ''kick'' \<or> key = ''redact''
           \<or> key = ''state_default'' \<or> key = ''users'' \<or> key = ''users_default''
           \<or> (redaction_rules policy = redaction_room_v11_plus \<and> key = ''invite'')
      else if type = ''m.room.history_visibility'' then key = ''history_visibility''
      else if type = ''m.room.aliases''
      then redaction_rules policy \<noteq> redaction_room_v11_plus \<and> key = ''aliases''
      else if type = ''m.room.third_party_invite'' then key = ''signed''
      else if type = ''m.room.redaction''
      then redaction_rules policy = redaction_room_v11_plus \<and> key = ''redacts''
      else False)"

definition redact_third_party_invite :: "Value \<Rightarrow> Value" where
  "redact_third_party_invite v =
     (case value_is_object v of
        None \<Rightarrow> VObject []
      | Some obj \<Rightarrow>
          (case object_member obj ''signed'' of
             Some signed_value \<Rightarrow> VObject [make_member ''signed'' signed_value]
           | None \<Rightarrow> VObject []))"

fun redact_content_members :: "string \<Rightarrow> RoomVersionPolicy \<Rightarrow> Object \<Rightarrow> Object" where
  "redact_content_members type policy [] = []"
| "redact_content_members type policy ((key, v) # ms) =
     (if content_key_allowed type key policy
      then make_member key (if key = ''third_party_invite'' then redact_third_party_invite v else v)
           # redact_content_members type policy ms
      else redact_content_members type policy ms)"

definition redact_content :: "Value \<Rightarrow> string \<Rightarrow> RoomVersionPolicy \<Rightarrow> Value" where
  "redact_content content type policy =
     (case value_is_object content of
        None \<Rightarrow> VObject []
      | Some obj \<Rightarrow> VObject (redact_content_members type policy obj))"

fun redact_members :: "string option \<Rightarrow> RoomVersionPolicy \<Rightarrow> Object \<Rightarrow> Object" where
  "redact_members type policy [] = []"
| "redact_members type policy ((key, v) # ms) =
     (if key = ''room_id'' \<and> create_event_is_room_id policy \<and> type = Some ''m.room.create''
      then redact_members type policy ms
      else if key_is_allowed key policy
      then make_member key
             (case type of
                Some t \<Rightarrow> if key = ''content'' then redact_content v t policy else v
              | None \<Rightarrow> v) # redact_members type policy ms
      else redact_members type policy ms)"

definition redact_event :: "Value \<Rightarrow> RoomVersionPolicy \<Rightarrow> RedactionResult" where
  "redact_event event policy =
     (case value_is_object event of
        None \<Rightarrow> Inl ''event must be an object''
      | Some obj \<Rightarrow> Inr (VObject (redact_members (string_member obj ''type'') policy obj)))"

section \<open>What survives\<close>

definition member_survives :: "string option \<Rightarrow> RoomVersionPolicy \<Rightarrow> string \<Rightarrow> bool" where
  "member_survives type policy key \<longleftrightarrow>
     \<not> (key = ''room_id'' \<and> create_event_is_room_id policy \<and> type = Some ''m.room.create'')
     \<and> key_is_allowed key policy"

definition redact_member :: "string option \<Rightarrow> RoomVersionPolicy \<Rightarrow> string \<Rightarrow> Value \<Rightarrow> Value" where
  "redact_member type policy key v =
     (case type of Some t \<Rightarrow> if key = ''content'' then redact_content v t policy else v | None \<Rightarrow> v)"

lemma redact_members_eq:
  "redact_members type policy ms =
     map (\<lambda>m. (fst m, redact_member type policy (fst m) (snd m)))
       (filter (\<lambda>m. member_survives type policy (fst m)) ms)"
proof (induction ms)
  case (Cons m ms)
  then show ?case
    by (cases m; cases type) (auto simp: member_survives_def redact_member_def make_member_def)
qed simp

lemma redact_member_id [simp]: "k \<noteq> ''content'' \<Longrightarrow> redact_member type policy k = (\<lambda>v. v)"
  by (rule ext) (simp add: redact_member_def split: option.split)

lemma redact_content_members_eq:
  "redact_content_members type policy ms =
     map (\<lambda>m. (fst m, if fst m = ''third_party_invite'' then redact_third_party_invite (snd m) else snd m))
       (filter (\<lambda>m. content_key_allowed type (fst m) policy) ms)"
  by (induction ms) (auto simp: make_member_def)

lemma base_keys_survive [simp]:
  "key_is_allowed ''type'' policy" "key_is_allowed ''content'' policy"
  "key_is_allowed ''hashes'' policy" "key_is_allowed ''signatures'' policy"
  "key_is_allowed ''event_id'' policy"
  by (simp_all add: key_is_allowed_def base_key_is_allowed_def)

lemma unsigned_redacted [simp]: "\<not> key_is_allowed ''unsigned'' policy"
  by (simp add: key_is_allowed_def base_key_is_allowed_def)

lemma map_of_mapped_members:
  "map_of (map (\<lambda>m. (fst m, f (fst m) (snd m))) ms) k = map_option (f k) (map_of ms k)"
  by (induction ms) auto

text \<open>Reading a member of a redacted event.\<close>

lemma object_member_redact_members:
  "object_member (redact_members type policy ms) k =
     (if member_survives type policy k then map_option (redact_member type policy k) (object_member ms k)
      else None)"
  unfolding redact_members_eq object_member_def map_of_mapped_members
  by (induction ms) auto

lemma object_member_redact_content_members:
  "object_member (redact_content_members type policy ms) k =
     (if content_key_allowed type k policy
      then map_option (\<lambda>v. if k = ''third_party_invite'' then redact_third_party_invite v else v)
             (object_member ms k)
      else None)"
  unfolding redact_content_members_eq object_member_def
    map_of_mapped_members [where f = "\<lambda>k v. if k = ''third_party_invite'' then redact_third_party_invite v else v"]
  by (induction ms) auto

lemma type_survives [simp]: "member_survives type policy ''type''"
  by (simp add: member_survives_def)

lemma string_member_type_redact [simp]:
  "string_member (redact_members type policy ms) ''type'' = string_member ms ''type''"
  by (simp add: string_member_def object_member_redact_members option.map_ident)

section \<open>Idempotence\<close>

lemma redact_third_party_invite_idem [simp]:
  "redact_third_party_invite (redact_third_party_invite v) = redact_third_party_invite v"
  by (auto simp: redact_third_party_invite_def make_member_def object_member_def split: option.splits)

lemma redact_content_idem [simp]:
  "redact_content (redact_content c t policy) t policy = redact_content c t policy"
  by (auto simp: redact_content_def redact_content_members_eq filter_map o_def split: option.split)

lemma redact_member_idem [simp]:
  "redact_member type policy k (redact_member type policy k v) = redact_member type policy k v"
  by (simp add: redact_member_def split: option.split)

lemma redact_members_idem:
  "redact_members type policy (redact_members type policy ms) = redact_members type policy ms"
  by (simp add: redact_members_eq filter_map o_def)

text \<open>Redaction is idempotent and never fails on an event object: redacting an event that
  was already redacted changes nothing, in every room version.\<close>

theorem redact_event_idempotent:
  "redact_event (VObject obj) policy = Inr (VObject (redact_members (string_member obj ''type'') policy obj))
   \<and> redact_event (VObject (redact_members (string_member obj ''type'') policy obj)) policy
     = redact_event (VObject obj) policy"
  by (simp add: redact_event_def redact_members_idem)

text \<open>Redaction keeps exactly the members its room version allows: a member other than
  \<open>content\<close> is kept unchanged or dropped, and no survivor depends on a dropped member.\<close>

theorem redact_event_members:
  assumes "redact_event (VObject obj) policy = Inr (VObject red)" and "k \<noteq> ''content''"
  shows "object_member red k =
           (if member_survives (string_member obj ''type'') policy k then object_member obj k else None)"
  using assms
  by (auto simp: redact_event_def object_member_redact_members option.map_ident)

definition sample_event :: Object where
  "sample_event = [(''type'', VString ''m.room.name''), (''unsigned'', VObject []),
     (''content'', VObject [(''name'', VString ''x'')])]"

definition room_v11 :: RoomVersionPolicy where
  "room_v11 = the (find_room_version_policy ''11'')"

theorem redact_event_members_witness:
  "redact_event (VObject sample_event) room_v11
     = Inr (VObject [(''type'', VString ''m.room.name''), (''content'', VObject [])])
   \<and> object_member [(''type'', VString ''m.room.name''), (''content'', VObject [])] ''unsigned''
     = (if member_survives (string_member sample_event ''type'') room_v11 ''unsigned''
        then object_member sample_event ''unsigned'' else None)"
proof -
  have "redact_event (VObject sample_event) room_v11
     = Inr (VObject [(''type'', VString ''m.room.name''), (''content'', VObject [])])"
    by code_simp
  then show ?thesis
    using redact_event_members [of sample_event room_v11 _ "''unsigned''"] by simp
qed

end
