(* ===== verification/Crypto_Boundary.thy ===== *)
theory Crypto_Boundary
  imports Merovingian_Prelude
begin

text \<open>
  The crypto boundary: \<open>src/crypto/ed25519.cpp\<close>, the two providers
  (\<open>runtime_ed25519_provider.cpp\<close>, \<open>runtime_multikey_ed25519_provider.cpp\<close>), the signing
  service \<open>signing_service.cpp\<close>, the Matrix base64 helpers of \<open>src/events/event_signer.cpp\<close>
  and the key store of \<open>src/homeserver/runtime_signing_key_store.cpp\<close>.

  libsodium is third-party code: the functions the sources call are the fields of \<open>Sodium\<close>,
  and \<open>sodium_documented\<close> states the documented behaviour the results rely on. Secret keys
  are byte strings here; locking and wiping memory is not modelled. The abstract class
  \<open>Ed25519Provider\<close> is the datatype of its two implementations.

  The theorem: a signature the signing service returns was made by a usable key of that
  server, has the Ed25519 shape and verifies under the key's public half.
\<close>

section \<open>libsodium\<close>

record Sodium =
  sodium_is_ready :: bool
  sodium_bin2base64 :: "bool \<Rightarrow> string \<Rightarrow> string"
  sodium_base642bin :: "string \<Rightarrow> string option"
  crypto_hash_sha256 :: "string \<Rightarrow> string option"
  crypto_sign_detached :: "string \<Rightarrow> string \<Rightarrow> string option"
  crypto_sign_verify_detached :: "string \<Rightarrow> string \<Rightarrow> string \<Rightarrow> bool"

text \<open>
  The variants are unpadded; the flag selects the URL-safe alphabet. Decoding inverts the
  standard encoding, an encoding is at most twice as long as its input and uses printable
  characters only, and a SHA-256 digest has 32 bytes.
\<close>

definition base64url_char :: "char \<Rightarrow> bool" where
  "base64url_char c \<longleftrightarrow> c \<in> {CHR ''A'' .. CHR ''Z''} \<or> c \<in> {CHR ''a'' .. CHR ''z''}
     \<or> c \<in> {CHR ''0'' .. CHR ''9''} \<or> c = CHR ''_'' \<or> c = CHR ''-''"

definition sodium_documented :: "Sodium \<Rightarrow> bool" where
  "sodium_documented S \<longleftrightarrow>
     sodium_is_ready S
     \<and> (\<forall>b. b \<noteq> [] \<longrightarrow> sodium_base642bin S (sodium_bin2base64 S False b) = Some b)
     \<and> (\<forall>b. contains_no_control_or_space (sodium_bin2base64 S False b))
     \<and> (\<forall>url b. length b \<le> length (sodium_bin2base64 S url b) \<and> length (sodium_bin2base64 S url b) \<le> 2 * length b)
     \<and> (\<forall>b. list_all base64url_char (sodium_bin2base64 S True b))
     \<and> (\<forall>m d. crypto_hash_sha256 S m = Some d \<longrightarrow> length d = 32)"

lemma sodium_documentedD:
  assumes "sodium_documented S"
  shows "sodium_is_ready S"
    and "b \<noteq> [] \<Longrightarrow> sodium_base642bin S (sodium_bin2base64 S False b) = Some b"
    and "contains_no_control_or_space (sodium_bin2base64 S False b)"
    and "length b \<le> length (sodium_bin2base64 S url b)"
    and "length (sodium_bin2base64 S url b) \<le> 2 * length b"
    and "list_all base64url_char (sodium_bin2base64 S True b)"
    and "crypto_hash_sha256 S m = Some d \<Longrightarrow> length d = 32"
  using assms unfolding sodium_documented_def by blast+

text \<open>A key pair: what the secret half signs, the public half verifies.\<close>

definition sodium_keypair :: "Sodium \<Rightarrow> string \<Rightarrow> string \<Rightarrow> bool" where
  "sodium_keypair S public_key secret_key \<longleftrightarrow>
     (\<forall>m sig. crypto_sign_detached S secret_key m = Some sig \<longrightarrow>
        length sig = 64 \<and> crypto_sign_verify_detached S sig m public_key)"

section \<open>Ed25519\<close>

type_synonym VerificationResult = "bool \<times> string"
type_synonym SignatureResult = "string + string"

definition is_printable_without_space :: "char \<Rightarrow> bool" where
  "is_printable_without_space c \<longleftrightarrow> byte c > 32 \<and> byte c < 127"

definition ed25519_public_key_shape_is_valid :: "string \<Rightarrow> bool" where
  "ed25519_public_key_shape_is_valid public_key \<longleftrightarrow> length public_key = 32"

definition ed25519_signature_shape_is_valid :: "string \<Rightarrow> bool" where
  "ed25519_signature_shape_is_valid sig \<longleftrightarrow> length sig = 64"

definition ed25519_key_id_is_valid :: "string \<Rightarrow> bool" where
  "ed25519_key_id_is_valid key \<longleftrightarrow>
     length key > length ''ed25519:'' \<and> length key \<le> 255 \<and> prefix ''ed25519:'' key
     \<and> list_all is_printable_without_space (drop (length ''ed25519:'') key)"

definition ed25519_verify :: "Sodium \<Rightarrow> string \<Rightarrow> string \<Rightarrow> string \<Rightarrow> VerificationResult" where
  "ed25519_verify S public_key message sig =
     (if \<not> ed25519_public_key_shape_is_valid public_key \<or> \<not> ed25519_signature_shape_is_valid sig
      then (False, ''invalid Ed25519 material'')
      else let ok = crypto_sign_verify_detached S sig message public_key
           in (ok, if ok then [] else ''signature verification failed''))"

definition ed25519_sign_detached :: "Sodium \<Rightarrow> string \<Rightarrow> string \<Rightarrow> string option" where
  "ed25519_sign_detached S secret_key message =
     (if \<not> sodium_is_ready S \<or> length secret_key \<noteq> 64 then None
      else crypto_sign_detached S secret_key message)"

section \<open>Providers\<close>

text \<open>The stored secrets: one buffer, or a map from key id to buffer (later entries win).\<close>

datatype Ed25519Provider = RuntimeProvider string | MultiKeyProvider "(string \<times> string) list"

definition make_runtime_provider :: "string \<Rightarrow> Ed25519Provider" where
  "make_runtime_provider secret_key =
     RuntimeProvider (if length secret_key = 64 then secret_key else [])"

definition make_multikey_provider :: "(string \<times> string) list \<Rightarrow> Ed25519Provider" where
  "make_multikey_provider keys = MultiKeyProvider (foldl (\<lambda>secrets (k, s). AList.update k s secrets) [] keys)"

fun provider_sign :: "Sodium \<Rightarrow> Ed25519Provider \<Rightarrow> string \<Rightarrow> string \<Rightarrow> SignatureResult" where
  "provider_sign S (RuntimeProvider secret_key) key message =
     (if length secret_key \<noteq> 64 then Inl ''signing key is not a valid Ed25519 secret key''
      else case crypto_sign_detached S secret_key message of
             None \<Rightarrow> Inl ''Ed25519 signing failed''
           | Some sig \<Rightarrow> Inr sig)"
| "provider_sign S (MultiKeyProvider secrets) key message =
     (case map_of secrets key of
        None \<Rightarrow> Inl (''signing key not held: '' @ key)
      | Some secret_key \<Rightarrow>
          if length secret_key \<noteq> 64 then Inl (''signing key not held: '' @ key)
          else case crypto_sign_detached S secret_key message of
                 None \<Rightarrow> Inl ''Ed25519 signing failed''
               | Some sig \<Rightarrow> Inr sig)"

definition provider_verify ::
  "Sodium \<Rightarrow> Ed25519Provider \<Rightarrow> string \<Rightarrow> string \<Rightarrow> string \<Rightarrow> VerificationResult" where
  "provider_verify S provider public_key message sig = ed25519_verify S public_key message sig"

section \<open>Matrix base64\<close>

definition matrix_base64_from_bytes :: "Sodium \<Rightarrow> string \<Rightarrow> string" where
  "matrix_base64_from_bytes S bytes =
     (if bytes = [] \<or> \<not> sodium_is_ready S then [] else sodium_bin2base64 S False bytes)"

definition matrix_bytes_from_base64 :: "Sodium \<Rightarrow> string \<Rightarrow> string" where
  "matrix_bytes_from_base64 S encoded =
     (if encoded = [] \<or> \<not> sodium_is_ready S then []
      else case sodium_base642bin S encoded of None \<Rightarrow> [] | Some bytes \<Rightarrow> bytes)"

section \<open>The signing service\<close>

record SigningKeyRecord =
  rec_server_name :: string
  rec_key_id :: string
  rec_public_key :: string
  rec_active :: bool

type_synonym SigningKeyStore = "string \<Rightarrow> SigningKeyRecord list"

definition signing_key_record_is_usable :: "SigningKeyRecord \<Rightarrow> bool" where
  "signing_key_record_is_usable key \<longleftrightarrow>
     rec_active key \<and> rec_server_name key \<noteq> [] \<and> ed25519_key_id_is_valid (rec_key_id key)
     \<and> ed25519_public_key_shape_is_valid (rec_public_key key)"

text \<open>The default \<open>active_keys_for_server\<close> of a store that only knows a single key.\<close>

definition active_keys_for_server ::
  "(string \<Rightarrow> string + SigningKeyRecord) \<Rightarrow> SigningKeyStore" where
  "active_keys_for_server active_key_for_server server =
     (case active_key_for_server server of
        Inl e \<Rightarrow> []
      | Inr key \<Rightarrow> if \<not> signing_key_record_is_usable key then [] else [key])"

text \<open>The runtime store: the persisted keys of one server, public keys in base64.\<close>

record PersistentServerSigningKey =
  stored_server_name :: string
  stored_key_id :: string
  stored_public_key :: string

record RuntimeSigningKeyStore =
  store_server_name :: string
  store_keys :: "PersistentServerSigningKey list"

fun runtime_usable_keys ::
  "Sodium \<Rightarrow> string \<Rightarrow> PersistentServerSigningKey list \<Rightarrow> SigningKeyRecord list" where
  "runtime_usable_keys S server [] = []"
| "runtime_usable_keys S server (key # keys) =
     (if stored_server_name key \<noteq> server \<or> stored_key_id key = ''ed25519:auto'' \<or> stored_public_key key = []
      then runtime_usable_keys S server keys
      else let public_key = matrix_bytes_from_base64 S (stored_public_key key);
               record = \<lparr>rec_server_name = stored_server_name key, rec_key_id = stored_key_id key,
                         rec_public_key = public_key, rec_active = True\<rparr>
           in if public_key = [] \<or> \<not> signing_key_record_is_usable record
              then runtime_usable_keys S server keys
              else record # runtime_usable_keys S server keys)"

definition runtime_active_keys_for_server :: "Sodium \<Rightarrow> RuntimeSigningKeyStore \<Rightarrow> SigningKeyStore" where
  "runtime_active_keys_for_server S store server =
     (if server \<noteq> store_server_name store then []
      else runtime_usable_keys S (store_server_name store) (store_keys store))"

definition runtime_active_key_for_server ::
  "Sodium \<Rightarrow> RuntimeSigningKeyStore \<Rightarrow> string \<Rightarrow> string + SigningKeyRecord" where
  "runtime_active_key_for_server S store server =
     (if server \<noteq> store_server_name store then Inl ''signing key not found''
      else case runtime_active_keys_for_server S store server of
             [] \<Rightarrow> Inl ''signing key not found''
           | key # _ \<Rightarrow> Inr key)"

record ServerSignature =
  sig_server_name :: string
  sig_key_id :: string
  sig_bytes :: string

text \<open>The loop over the active keys; \<open>last_error\<close> is the most recent failure.\<close>

fun sign_with_keys ::
  "Sodium \<Rightarrow> Ed25519Provider \<Rightarrow> string \<Rightarrow> string \<Rightarrow> SigningKeyRecord list \<Rightarrow> string
    \<Rightarrow> string + ServerSignature" where
  "sign_with_keys S provider server message [] last_error =
     Inl (if last_error = [] then ''no usable active signing key'' else last_error)"
| "sign_with_keys S provider server message (key # keys) last_error =
     (if \<not> signing_key_record_is_usable key \<or> rec_server_name key \<noteq> server
      then sign_with_keys S provider server message keys last_error
      else case provider_sign S provider (rec_key_id key) message of
             Inl e \<Rightarrow> sign_with_keys S provider server message keys e
           | Inr sig \<Rightarrow>
               if \<not> ed25519_signature_shape_is_valid sig
               then sign_with_keys S provider server message keys
                      ''provider returned invalid Ed25519 signature shape''
               else Inr \<lparr>sig_server_name = rec_server_name key, sig_key_id = rec_key_id key,
                         sig_bytes = sig\<rparr>)"

definition sign_for_server ::
  "Sodium \<Rightarrow> SigningKeyStore \<Rightarrow> Ed25519Provider \<Rightarrow> string \<Rightarrow> string \<Rightarrow> string + ServerSignature" where
  "sign_for_server S key_store provider server message =
     (if server = [] then Inl ''server name is empty''
      else let keys = key_store server
           in if keys = [] then Inl ''no active signing key''
              else sign_with_keys S provider server message keys [])"

section \<open>What a returned signature guarantees\<close>

text \<open>The secret a provider uses for a key id.\<close>

fun provider_secret :: "Ed25519Provider \<Rightarrow> string \<Rightarrow> string option" where
  "provider_secret (RuntimeProvider secret_key) key = Some secret_key"
| "provider_secret (MultiKeyProvider secrets) key = map_of secrets key"

lemma provider_sign_Inr:
  "provider_sign S provider key message = Inr sig \<longleftrightarrow>
     (\<exists>secret. provider_secret provider key = Some secret \<and> length secret = 64
        \<and> crypto_sign_detached S secret message = Some sig)"
  by (cases provider) (auto split: option.splits)

lemma sign_with_keys_Inr:
  "sign_with_keys S provider server message keys last_error = Inr s \<Longrightarrow>
     \<exists>key \<in> set keys. signing_key_record_is_usable key \<and> rec_server_name key = server
       \<and> sig_server_name s = server \<and> sig_key_id s = rec_key_id key
       \<and> provider_sign S provider (rec_key_id key) message = Inr (sig_bytes s)
       \<and> ed25519_signature_shape_is_valid (sig_bytes s)"
  by (induction keys arbitrary: last_error) (auto split: sum.splits if_splits)

lemma sign_for_server_Inr:
  assumes "sign_for_server S key_store provider server message = Inr s"
  obtains key where "key \<in> set (key_store server)" "signing_key_record_is_usable key"
    "rec_server_name key = server" "sig_server_name s = server" "sig_key_id s = rec_key_id key"
    "provider_sign S provider (rec_key_id key) message = Inr (sig_bytes s)"
    "ed25519_signature_shape_is_valid (sig_bytes s)"
  using assms sign_with_keys_Inr [of S provider server message "key_store server" "[]" s]
  by (auto simp: sign_for_server_def Let_def split: if_splits)

text \<open>A failure always carries a reason.\<close>

lemma provider_sign_error: "provider_sign S provider key message = Inl e \<Longrightarrow> e \<noteq> []"
  by (cases provider) (auto split: option.splits if_splits)

lemma sign_with_keys_error: "sign_with_keys S provider server message keys last_error = Inl e \<Longrightarrow> e \<noteq> []"
proof (induction keys arbitrary: last_error)
  case (Cons key keys)
  then show ?case by (auto split: sum.splits if_splits)
qed (auto split: if_splits)

lemma sign_for_server_error: "sign_for_server S key_store provider server message = Inl e \<Longrightarrow> e \<noteq> []"
  using sign_with_keys_error by (auto simp: sign_for_server_def Let_def split: if_splits)

text \<open>Every key the runtime store offers is usable and belongs to its server.\<close>

lemma runtime_usable_keys_usable:
  "key \<in> set (runtime_usable_keys S server keys) \<Longrightarrow>
     signing_key_record_is_usable key \<and> rec_server_name key = server \<and> rec_key_id key \<noteq> ''ed25519:auto''"
  by (induction keys) (auto simp: Let_def split: if_splits)

text \<open>The store and the provider hold matching halves of each key.\<close>

definition keys_match :: "Sodium \<Rightarrow> SigningKeyStore \<Rightarrow> Ed25519Provider \<Rightarrow> string \<Rightarrow> bool" where
  "keys_match S key_store provider server \<longleftrightarrow>
     (\<forall>key \<in> set (key_store server). \<forall>secret.
        provider_secret provider (rec_key_id key) = Some secret \<longrightarrow>
        sodium_keypair S (rec_public_key key) secret)"

lemma sign_for_server_verifies:
  assumes "keys_match S key_store provider server"
    and "sign_for_server S key_store provider server message = Inr s"
  shows "\<exists>key \<in> set (key_store server). rec_key_id key = sig_key_id s
           \<and> provider_verify S provider (rec_public_key key) message (sig_bytes s) = (True, [])"
proof -
  from assms(2) obtain key where key: "key \<in> set (key_store server)" "signing_key_record_is_usable key"
    "sig_key_id s = rec_key_id key"
    "provider_sign S provider (rec_key_id key) message = Inr (sig_bytes s)"
    by (rule sign_for_server_Inr) blast
  then obtain secret where "provider_secret provider (rec_key_id key) = Some secret"
    "crypto_sign_detached S secret message = Some (sig_bytes s)"
    by (auto simp: provider_sign_Inr)
  with assms(1) key have "length (sig_bytes s) = 64"
    "crypto_sign_verify_detached S (sig_bytes s) message (rec_public_key key)"
    by (auto simp: keys_match_def sodium_keypair_def)
  with key show ?thesis
    by (intro bexI [of _ key])
      (auto simp: provider_verify_def ed25519_verify_def signing_key_record_is_usable_def
        ed25519_signature_shape_is_valid_def)
qed

section \<open>A concrete instance of the parameter\<close>

text \<open>
  Two letters per byte, a constant digest and a constant signature: enough to evaluate the
  definitions on closed inputs.
\<close>

definition letter_pair :: "char \<Rightarrow> string" where
  "letter_pair c = [char_of (65 + byte c div 16), char_of (65 + byte c mod 16)]"

fun unpair_letters :: "string \<Rightarrow> string option" where
  "unpair_letters [] = Some []"
| "unpair_letters [c] = None"
| "unpair_letters (c # d # s) =
     map_option (\<lambda>r. char_of (16 * (byte c - 65) + (byte d - 65)) # r) (unpair_letters s)"

definition sample_sodium :: Sodium where
  "sample_sodium =
     \<lparr>sodium_is_ready = True, sodium_bin2base64 = \<lambda>url b. concat (map letter_pair b),
      sodium_base642bin = unpair_letters,
      crypto_hash_sha256 = \<lambda>m. Some (replicate 32 (CHR ''d'')),
      crypto_sign_detached = \<lambda>sk m. Some (replicate 64 (CHR ''s'')),
      crypto_sign_verify_detached = \<lambda>sig m pk. sig = replicate 64 (CHR ''s'')\<rparr>"

lemma byte_div_16: "byte c div 16 < 16"
proof (rule less_mult_imp_div_less)
  show "byte c < 16 * 16"
    using mod_less_divisor [of 256 "byte c"] by simp
qed

lemma letter_pair_bytes:
  "letter_pair c = [x, y] \<Longrightarrow> byte x = 65 + byte c div 16 \<and> byte y = 65 + byte c mod 16"
  using byte_div_16 [of c] by (auto simp: letter_pair_def)

lemma unpair_letter_pairs: "unpair_letters (concat (map letter_pair b)) = Some b"
proof (induction b)
  case (Cons c b)
  obtain x y where xy: "letter_pair c = [x, y]" by (simp add: letter_pair_def)
  with letter_pair_bytes [OF xy] Cons show ?case by (simp add: char_of_char)
qed simp

lemma letter_pair_chars: "\<forall>x \<in> set (letter_pair c). 65 \<le> byte x \<and> byte x \<le> 80"
proof -
  obtain x y where xy: "letter_pair c = [x, y]" by (simp add: letter_pair_def)
  have "byte c div 16 \<le> 15" using byte_div_16 [of c] by linarith
  then show ?thesis using letter_pair_bytes [OF xy] xy by auto
qed

lemma sample_sodium_documented: "sodium_documented sample_sodium"
proof -
  have len: "length (concat (map letter_pair b)) = 2 * length b" for b
    by (induction b) (simp_all add: letter_pair_def)
  have chars: "65 \<le> byte x \<and> byte x \<le> 80" if "x \<in> set (concat (map letter_pair b))" for x b
    using that letter_pair_chars by auto
  have "contains_no_control_or_space (concat (map letter_pair b))" for b
    unfolding contains_no_control_or_space_def list_all_iff using chars [of _ b] by force
  moreover have "list_all base64url_char (concat (map letter_pair b))" for b
  proof -
    have "base64url_char x" if "65 \<le> byte x" "byte x \<le> 80" for x
      using that by (simp add: base64url_char_def less_eq_char_def)
    then show ?thesis unfolding list_all_iff using chars [of _ b] by blast
  qed
  ultimately show ?thesis
    by (simp add: sodium_documented_def sample_sodium_def unpair_letter_pairs len)
qed

lemma sample_sodium_keypair: "sodium_keypair sample_sodium pk sk"
  by (simp add: sodium_keypair_def sample_sodium_def)

end
