(* ===== verification/Event_Id.thy ===== *)
theory Event_Id
  imports Json_Canonical Redaction Crypto_Boundary
begin

text \<open>
  Event hashes and identifiers, \<open>src/events/event_id.cpp\<close>. Hash and id results are \<open>Inl\<close> of
  the error text or \<open>Inr\<close> of the value.

  The theorems: the reference hash, hence the event id, is unaffected by redaction and by the
  members it does not cover; a generated event id has the accepted shape; and adding the
  content hash to an event makes its content check succeed.
\<close>

type_synonym EventHashResult = "string + string"
type_synonym EventIdResult = "string + string"

definition matrix_base64_from_digest :: "Sodium \<Rightarrow> string \<Rightarrow> bool \<Rightarrow> string" where
  "matrix_base64_from_digest S digest url_safe = sodium_bin2base64 S url_safe digest"

definition sha256_base64 :: "Sodium \<Rightarrow> string \<Rightarrow> bool \<Rightarrow> EventHashResult" where
  "sha256_base64 S input url_safe =
     (if \<not> sodium_is_ready S then Inl ''libsodium initialization failed''
      else case crypto_hash_sha256 S input of
             None \<Rightarrow> Inl ''sha256 failed''
           | Some digest \<Rightarrow> Inr (matrix_base64_from_digest S digest url_safe))"

definition serialize_object_without :: "Value \<Rightarrow> string list \<Rightarrow> SerializeResult" where
  "serialize_object_without event excluded =
     (case value_is_object event of
        None \<Rightarrow> Inl invalid_string
      | Some obj \<Rightarrow> serialize_canonical_strict (VObject (clone_without_fields obj excluded)))"

definition event_id_char :: "char \<Rightarrow> bool" where
  "event_id_char c \<longleftrightarrow> (CHR ''A'' \<le> c \<and> c \<le> CHR ''Z'') \<or> (CHR ''a'' \<le> c \<and> c \<le> CHR ''z'')
     \<or> (CHR ''0'' \<le> c \<and> c \<le> CHR ''9'') \<or> c = CHR ''_'' \<or> c = CHR ''-'' \<or> c = CHR '':'' \<or> c = CHR ''.''"

definition event_id_is_valid :: "string \<Rightarrow> bool" where
  "event_id_is_valid event_id \<longleftrightarrow>
     \<not> (length event_id < 3 \<or> hd event_id \<noteq> CHR ''$'') \<and> list_all event_id_char (tl event_id)"

definition make_content_hash :: "Sodium \<Rightarrow> Value \<Rightarrow> EventHashResult" where
  "make_content_hash S event =
     (case serialize_object_without event [''unsigned'', ''signatures'', ''hashes''] of
        Inl e \<Rightarrow> Inl (canonical_json_error_name e)
      | Inr text \<Rightarrow> sha256_base64 S text False)"

definition make_reference_hash :: "Sodium \<Rightarrow> Value \<Rightarrow> RoomVersionPolicy \<Rightarrow> EventHashResult" where
  "make_reference_hash S event policy =
     (case redact_event event policy of
        Inl e \<Rightarrow> Inl e
      | Inr redacted \<Rightarrow>
          (case serialize_object_without redacted [''signatures'', ''unsigned''] of
             Inl e \<Rightarrow> Inl (canonical_json_error_name e)
           | Inr text \<Rightarrow> sha256_base64 S text True))"

definition make_reference_hash_event_id :: "Sodium \<Rightarrow> Value \<Rightarrow> RoomVersionPolicy \<Rightarrow> EventIdResult" where
  "make_reference_hash_event_id S event policy =
     map_sum id (\<lambda>hash. ''$'' @ hash) (make_reference_hash S event policy)"

definition make_content_hash_id :: "Sodium \<Rightarrow> Value \<Rightarrow> RoomVersionPolicy \<Rightarrow> EventIdResult" where
  "make_content_hash_id S event policy = make_reference_hash_event_id S event policy"

definition verify_pdu_content_hash :: "Sodium \<Rightarrow> Value \<Rightarrow> bool" where
  "verify_pdu_content_hash S event =
     (case value_is_object event of
        None \<Rightarrow> False
      | Some root \<Rightarrow>
          (case object_member root ''hashes'' of
             None \<Rightarrow> False
           | Some hashes \<Rightarrow>
               (case value_is_object hashes of
                  None \<Rightarrow> False
                | Some hashes_obj \<Rightarrow>
                    (case object_member hashes_obj ''sha256'' of
                       None \<Rightarrow> False
                     | Some sha256 \<Rightarrow>
                         (case get_if_string sha256 of
                            None \<Rightarrow> False
                          | Some claimed \<Rightarrow>
                              if claimed = [] then False
                              else case make_content_hash S event of
                                     Inl e \<Rightarrow> False
                                   | Inr computed \<Rightarrow> computed \<noteq> [] \<and> claimed = computed)))))"

section \<open>Redaction and the members a hash covers\<close>

text \<open>Dropping members and redacting commute.\<close>

lemma redact_members_without:
  "clone_without_fields (redact_members type policy obj) excluded
     = redact_members type policy (clone_without_fields obj excluded)"
  unfolding redact_members_eq clone_without_fields_eq
  by (simp add: filter_map o_def conj_commute)

text \<open>Two events that agree outside some members agree so after redaction.\<close>

lemma redact_event_without_cong:
  assumes "clone_without_fields obj excluded = clone_without_fields obj' excluded"
    and "''type'' \<notin> set excluded"
  shows "clone_without_fields (redact_members (string_member obj ''type'') policy obj) excluded
       = clone_without_fields (redact_members (string_member obj' ''type'') policy obj') excluded"
proof -
  have "object_member obj ''type'' = object_member obj' ''type''"
    using assms object_member_without [of obj excluded "''type''"]
      object_member_without [of obj' excluded "''type''"] by simp
  then show ?thesis
    using assms(1) by (simp add: redact_members_without string_member_def)
qed

lemma make_reference_hash_object:
  "make_reference_hash S (VObject obj) policy =
     (case serialize_canonical_strict
             (VObject (clone_without_fields (redact_members (string_member obj ''type'') policy obj)
                        [''signatures'', ''unsigned''])) of
        Inl e \<Rightarrow> Inl (canonical_json_error_name e)
      | Inr text \<Rightarrow> sha256_base64 S text True)"
  by (simp add: make_reference_hash_def redact_event_def serialize_object_without_def)

text \<open>C9: the event id ignores redaction: an event and its redacted form have the same id (or
  the same error), so a redacted event stays identifiable in every room version.\<close>

theorem reference_hash_survives_redaction:
  assumes "redact_event event policy = Inr redacted"
  shows "make_reference_hash_event_id S redacted policy = make_reference_hash_event_id S event policy"
proof -
  from assms obtain obj where "event = VObject obj"
    and "redacted = VObject (redact_members (string_member obj ''type'') policy obj)"
    by (cases event) (auto simp: redact_event_def)
  then show ?thesis
    by (simp add: make_reference_hash_event_id_def make_reference_hash_object redact_members_idem)
qed

definition sample_pdu :: Object where
  "sample_pdu = [(''type'', VString ''m.room.name''), (''unsigned'', VObject [(''age'', VInt 3)]),
     (''content'', VObject [(''name'', VString ''x'')])]"

theorem reference_hash_survives_redaction_witness:
  "make_reference_hash_event_id sample_sodium
     (VObject [(''type'', VString ''m.room.name''), (''content'', VObject [])]) room_v11
   = make_reference_hash_event_id sample_sodium (VObject sample_pdu) room_v11"
proof -
  have "redact_event (VObject sample_pdu) room_v11
      = Inr (VObject [(''type'', VString ''m.room.name''), (''content'', VObject [])])"
    by code_simp
  then show ?thesis by (rule reference_hash_survives_redaction)
qed

text \<open>The event id ignores the members it does not cover: two events that differ only in
  \<open>signatures\<close> and \<open>unsigned\<close> have the same id.\<close>

theorem reference_hash_ignores_signatures:
  assumes "clone_without_fields obj [''signatures'', ''unsigned'']
         = clone_without_fields obj' [''signatures'', ''unsigned'']"
  shows "make_reference_hash_event_id S (VObject obj) policy
       = make_reference_hash_event_id S (VObject obj') policy"
  using redact_event_without_cong [OF assms, of policy]
  by (simp add: make_reference_hash_event_id_def make_reference_hash_object)

theorem reference_hash_ignores_signatures_witness:
  "make_reference_hash_event_id sample_sodium (VObject sample_pdu) room_v11
   = make_reference_hash_event_id sample_sodium
       (VObject (sample_pdu @ [(''signatures'', VObject [])])) room_v11"
proof -
  have "clone_without_fields sample_pdu [''signatures'', ''unsigned'']
      = clone_without_fields (sample_pdu @ [(''signatures'', VObject [])]) [''signatures'', ''unsigned'']"
    by code_simp
  then show ?thesis by (rule reference_hash_ignores_signatures)
qed

section \<open>The shape of an event id\<close>

lemma base64url_event_id_char: "base64url_char c \<Longrightarrow> event_id_char c"
  by (auto simp: base64url_char_def event_id_char_def)

lemma sha256_base64_Inr:
  assumes "sodium_documented S" and "sha256_base64 S input True = Inr h"
  shows "32 \<le> length h \<and> list_all base64url_char h"
proof -
  from assms obtain d where d: "crypto_hash_sha256 S input = Some d" "h = sodium_bin2base64 S True d"
    by (auto simp: sha256_base64_def matrix_base64_from_digest_def split: if_splits option.splits)
  then show ?thesis
    using sodium_documentedD(7) [OF assms(1) d(1)] sodium_documentedD(4) [OF assms(1), of d True]
      sodium_documentedD(6) [OF assms(1), of d] by simp
qed

text \<open>Every event id the server derives from a reference hash passes its own event id check.\<close>

theorem derived_event_id_is_valid:
  assumes "sodium_documented S" and "make_reference_hash_event_id S event policy = Inr event_id"
  shows "event_id_is_valid event_id"
proof -
  from assms(2) obtain input h where "event_id = CHR ''$'' # h" "sha256_base64 S input True = Inr h"
    by (auto simp: make_reference_hash_event_id_def make_reference_hash_def map_sum_Inr split: sum.splits)
  with sha256_base64_Inr [OF assms(1), of input h] show ?thesis
    by (auto simp: event_id_is_valid_def list_all_iff base64url_event_id_char)
qed

theorem derived_event_id_is_valid_witness:
  "make_reference_hash_event_id sample_sodium (VObject sample_pdu) room_v11
     = Inr (CHR ''$'' # concat (map letter_pair (replicate 32 (CHR ''d''))))
   \<and> event_id_is_valid (CHR ''$'' # concat (map letter_pair (replicate 32 (CHR ''d''))))"
proof -
  have "make_reference_hash_event_id sample_sodium (VObject sample_pdu) room_v11
      = Inr (CHR ''$'' # concat (map letter_pair (replicate 32 (CHR ''d''))))"
    by code_simp
  with derived_event_id_is_valid [OF sample_sodium_documented this] show ?thesis by simp
qed

section \<open>Content hashes\<close>

lemma clone_without_absorb:
  "set fs \<subseteq> set gs \<Longrightarrow> clone_without_fields (clone_without_fields obj fs) gs = clone_without_fields obj gs"
  unfolding clone_without_fields_eq by (auto intro: filter_cong)

lemma make_content_hash_ignores:
  assumes "clone_without_fields obj [''unsigned'', ''signatures'', ''hashes'']
         = clone_without_fields obj' [''unsigned'', ''signatures'', ''hashes'']"
  shows "make_content_hash S (VObject obj) = make_content_hash S (VObject obj')"
  using assms by (simp add: make_content_hash_def serialize_object_without_def)

text \<open>An event built the way the homeserver builds its own, with the content hash appended as
  \<open>hashes.sha256\<close>, passes the content check, whatever signatures and unsigned data follow.\<close>

theorem content_hash_verifies:
  assumes "sodium_documented S" and "object_member event ''hashes'' = None"
    and "make_content_hash S (VObject event) = Inr hash"
    and "signed_event = event @ [make_member ''hashes'' (VObject [make_member ''sha256'' (VString hash)])] @ extra"
    and "fst ` set extra \<subseteq> {''signatures'', ''unsigned''}"
  shows "verify_pdu_content_hash S (VObject signed_event)"
proof -
  have "clone_without_fields extra [''unsigned'', ''signatures'', ''hashes''] = []"
    using assms(5) by (auto simp: clone_without_fields_eq filter_empty_conv)
  then have "clone_without_fields signed_event [''unsigned'', ''signatures'', ''hashes'']
      = clone_without_fields event [''unsigned'', ''signatures'', ''hashes'']"
    by (simp add: assms(4) make_member_def clone_without_fields_eq)
  then have "make_content_hash S (VObject signed_event) = Inr hash"
    using make_content_hash_ignores [of signed_event event S] assms(3) by simp
  moreover have "object_member signed_event ''hashes'' = Some (VObject [(''sha256'', VString hash)])"
    using assms(2,4) by (simp add: make_member_def object_member_def map_add_def)
  moreover have "hash \<noteq> []"
  proof -
    from assms(3) obtain input d where d: "crypto_hash_sha256 S input = Some d" "hash = sodium_bin2base64 S False d"
      by (auto simp: make_content_hash_def sha256_base64_def matrix_base64_from_digest_def
          split: sum.splits if_splits option.splits)
    then show ?thesis
      using sodium_documentedD(7) [OF assms(1) d(1)] sodium_documentedD(4) [OF assms(1), of d False] by auto
  qed
  ultimately show ?thesis
    by (simp add: verify_pdu_content_hash_def object_member_def)
qed

theorem content_hash_verifies_witness:
  "verify_pdu_content_hash sample_sodium
     (VObject (sample_pdu @ [(''hashes'', VObject [(''sha256'',
        VString (concat (map letter_pair (replicate 32 (CHR ''d'')))))]), (''signatures'', VObject [])]))"
proof (rule content_hash_verifies [where extra = "[(''signatures'', VObject [])]"])
  show "sodium_documented sample_sodium" by (rule sample_sodium_documented)
  show "object_member sample_pdu ''hashes'' = None"
    by (simp add: sample_pdu_def object_member_def)
  show "make_content_hash sample_sodium (VObject sample_pdu)
      = Inr (concat (map letter_pair (replicate 32 (CHR ''d''))))"
    by code_simp
qed (simp_all add: make_member_def)

end
