(* ===== verification/Event_Signer.thy ===== *)
theory Event_Signer
  imports Event_Id
begin

text \<open>
  Event signing and verification, \<open>src/events/event_signer.cpp\<close>. A \<open>SerializeResult\<close> is the
  sum of \<open>Json_Serializer\<close>; a \<open>SignatureVerificationResult\<close> is a pair of the flag and the
  error text; \<open>SignedEventResult\<close> keeps its five fields, with an empty error for success.

  The theorems: what the signing payload covers and what it does not, that it identifies the
  redacted event, and that whatever this server signs verifies wherever the bytes arrive.
\<close>

section \<open>Data\<close>

record SigningKeyId =
  sk_server_name :: string
  sk_key_id :: string

type_synonym SignatureVerificationResult = "bool \<times> string"

record SignedEventResult =
  signed_event_json :: string
  signed_server_name :: string
  signed_key_id :: string
  signed_signature :: string
  signed_error :: string

section \<open>Members and signatures\<close>

definition clone_without_unsigned_and_signatures :: "Object \<Rightarrow> Object" where
  "clone_without_unsigned_and_signatures obj =
     filter (\<lambda>m. fst m \<noteq> ''unsigned'' \<and> fst m \<noteq> ''signatures'') obj"

definition clone_without_unsigned_signatures_and_event_id :: "Object \<Rightarrow> Object" where
  "clone_without_unsigned_signatures_and_event_id obj =
     filter (\<lambda>m. fst m \<noteq> ''unsigned'' \<and> fst m \<noteq> ''signatures'' \<and> fst m \<noteq> ''event_id'') obj"

definition diagnostic_sha256_base64 :: "Sodium \<Rightarrow> string \<Rightarrow> string" where
  "diagnostic_sha256_base64 S input =
     (if \<not> sodium_is_ready S then []
      else case crypto_hash_sha256 S input of
             None \<Rightarrow> [] | Some digest \<Rightarrow> matrix_base64_from_bytes S digest)"

definition signature_is_valid_shape :: "Sodium \<Rightarrow> string \<Rightarrow> bool" where
  "signature_is_valid_shape S sig \<longleftrightarrow>
     (let decoded = matrix_bytes_from_base64 S sig
      in sig \<noteq> [] \<and> length sig \<le> 4096 \<and> contains_no_control_or_space sig
         \<and> ed25519_signature_shape_is_valid decoded)"

definition clone_signature_object :: "Value option \<Rightarrow> Object" where
  "clone_signature_object signatures_value =
     (case signatures_value of
        None \<Rightarrow> []
      | Some v \<Rightarrow> (case value_is_object v of None \<Rightarrow> [] | Some sigs \<Rightarrow> sigs))"

definition clone_server_signatures :: "Value \<Rightarrow> Object" where
  "clone_server_signatures server_value =
     (case value_is_object server_value of None \<Rightarrow> [] | Some existing \<Rightarrow> existing)"

fun upsert_server_signature :: "Object \<Rightarrow> SigningKeyId \<Rightarrow> string \<Rightarrow> Object" where
  "upsert_server_signature [] key sig = [make_member (sk_key_id key) (VString sig)]"
| "upsert_server_signature ((k, v) # ms) key sig =
     (if k = sk_key_id key then (k, VString sig) # ms
      else (k, v) # upsert_server_signature ms key sig)"

fun upsert_signature :: "Object \<Rightarrow> SigningKeyId \<Rightarrow> string \<Rightarrow> Object" where
  "upsert_signature [] key sig =
     [make_member (sk_server_name key) (VObject [make_member (sk_key_id key) (VString sig)])]"
| "upsert_signature ((server, v) # ms) key sig =
     (if server = sk_server_name key
      then (server, VObject (upsert_server_signature (clone_server_signatures v) key sig)) # ms
      else (server, v) # upsert_signature ms key sig)"

definition signing_key_id_is_valid :: "SigningKeyId \<Rightarrow> bool" where
  "signing_key_id_is_valid key \<longleftrightarrow>
     sk_server_name key \<noteq> [] \<and> contains_no_control_or_space (sk_server_name key)
     \<and> ed25519_key_id_is_valid (sk_key_id key)"

definition sign_event_accepted_diagnostic_fields ::
  "Sodium \<Rightarrow> SigningKeyId \<Rightarrow> string \<Rightarrow> string \<Rightarrow> string \<Rightarrow> (string \<times> string) list" where
  "sign_event_accepted_diagnostic_fields S key sig signing_payload signed_json =
     [(''server_name'', sk_server_name key), (''key_id'', sk_key_id key),
      (''payload_bytes'', to_string (int (length signing_payload))),
      (''payload_sha256'', diagnostic_sha256_base64 S signing_payload),
      (''signature'', sig),
      (''signed_json_bytes'', to_string (int (length signed_json))),
      (''signed_json_sha256'', diagnostic_sha256_base64 S signed_json)]"

section \<open>Signing payloads\<close>

text \<open>The overload without a policy signs the event as it is.\<close>

definition make_event_signing_payload_plain :: "Value \<Rightarrow> SerializeResult" where
  "make_event_signing_payload_plain event =
     (case value_is_object event of
        None \<Rightarrow> Inl invalid_string
      | Some obj \<Rightarrow> serialize_canonical_strict (VObject (clone_without_unsigned_and_signatures obj)))"

definition make_event_signing_payload :: "Value \<Rightarrow> RoomVersionPolicy \<Rightarrow> SerializeResult" where
  "make_event_signing_payload event policy =
     (case value_is_object event of
        None \<Rightarrow> Inl invalid_string
      | Some obj \<Rightarrow>
          (case redact_event event policy of
             Inl e \<Rightarrow> Inl invalid_string
           | Inr redacted \<Rightarrow>
               (case value_is_object redacted of
                  None \<Rightarrow> Inl invalid_string
                | Some redacted_obj \<Rightarrow>
                    if event_id_format policy = reference_hash
                    then serialize_canonical_strict
                           (VObject (clone_without_unsigned_signatures_and_event_id redacted_obj))
                    else serialize_canonical_strict
                           (VObject (clone_without_unsigned_and_signatures redacted_obj)))))"

section \<open>Signing\<close>

definition signed_object :: "Object \<Rightarrow> SigningKeyId \<Rightarrow> string \<Rightarrow> Object" where
  "signed_object obj key sig =
     filter (\<lambda>m. fst m \<noteq> ''signatures'') obj
     @ [make_member ''signatures''
          (VObject (upsert_signature (clone_signature_object (object_member obj ''signatures'')) key sig))]"

definition attach_event_signature :: "Sodium \<Rightarrow> Value \<Rightarrow> SigningKeyId \<Rightarrow> string \<Rightarrow> SerializeResult" where
  "attach_event_signature S event key sig =
     (if \<not> signing_key_id_is_valid key \<or> \<not> signature_is_valid_shape S sig then Inl invalid_string
      else case value_is_object event of
             None \<Rightarrow> Inl invalid_string
           | Some obj \<Rightarrow> serialize_canonical_strict (VObject (signed_object obj key sig)))"

definition sign_failed :: "string \<Rightarrow> string \<Rightarrow> string \<Rightarrow> string \<Rightarrow> SignedEventResult" where
  "sign_failed server key sig e =
     \<lparr>signed_event_json = [], signed_server_name = server, signed_key_id = key,
      signed_signature = sig, signed_error = e\<rparr>"

definition sign_event_for_server ::
  "Sodium \<Rightarrow> Value \<Rightarrow> RoomVersionPolicy \<Rightarrow> SigningKeyStore \<Rightarrow> Ed25519Provider \<Rightarrow> string
    \<Rightarrow> SignedEventResult" where
  "sign_event_for_server S event policy key_store provider server =
     (case make_event_signing_payload event policy of
        Inl e \<Rightarrow> sign_failed [] [] [] (canonical_json_error_name e)
      | Inr payload \<Rightarrow>
          (case sign_for_server S key_store provider server payload of
             Inl e \<Rightarrow> sign_failed [] [] [] e
           | Inr s \<Rightarrow>
               (let encoded = matrix_base64_from_bytes S (sig_bytes s)
                in if encoded = []
                   then sign_failed (sig_server_name s) (sig_key_id s) [] ''signature base64 encoding failed''
                   else case attach_event_signature S event
                               \<lparr>sk_server_name = sig_server_name s, sk_key_id = sig_key_id s\<rparr> encoded of
                          Inl e \<Rightarrow> sign_failed (sig_server_name s) (sig_key_id s) encoded
                                     (canonical_json_error_name e)
                        | Inr signed_json \<Rightarrow>
                            \<lparr>signed_event_json = signed_json, signed_server_name = sig_server_name s,
                             signed_key_id = sig_key_id s, signed_signature = encoded,
                             signed_error = []\<rparr>)))"

section \<open>Verification\<close>

definition verify_event_signature_presence ::
  "Sodium \<Rightarrow> Value \<Rightarrow> SigningKeyId \<Rightarrow> SignatureVerificationResult" where
  "verify_event_signature_presence S event key =
     (if \<not> signing_key_id_is_valid key then (False, ''invalid signing key id'')
      else case value_is_object event of
        None \<Rightarrow> (False, ''event must be an object'')
      | Some obj \<Rightarrow>
      (case object_member obj ''signatures'' of
        None \<Rightarrow> (False, ''missing signatures'')
      | Some signatures_value \<Rightarrow>
      (case value_is_object signatures_value of
        None \<Rightarrow> (False, ''signatures must be an object'')
      | Some sigs \<Rightarrow>
      (case object_member sigs (sk_server_name key) of
        None \<Rightarrow> (False, ''missing server signature'')
      | Some server_value \<Rightarrow>
      (case value_is_object server_value of
        None \<Rightarrow> (False, ''server signatures must be an object'')
      | Some server_signatures \<Rightarrow>
      (case object_member server_signatures (sk_key_id key) of
        None \<Rightarrow> (False, ''missing key signature'')
      | Some signature_value \<Rightarrow>
      (case get_if_string signature_value of
        None \<Rightarrow> (False, ''invalid signature'')
      | Some found \<Rightarrow>
          if signature_is_valid_shape S found then (True, []) else (False, ''invalid signature''))))))))"

definition find_signature :: "Value \<Rightarrow> SigningKeyId \<Rightarrow> string option" where
  "find_signature event key =
     Option.bind (value_is_object event) (\<lambda>obj.
     Option.bind (object_member_as_object obj ''signatures'') (\<lambda>sigs.
     Option.bind (object_member_as_object sigs (sk_server_name key)) (\<lambda>server_signatures.
     string_member server_signatures (sk_key_id key))))"

definition verify_event_signature ::
  "Sodium \<Rightarrow> Value \<Rightarrow> RoomVersionPolicy \<Rightarrow> SigningKeyId \<Rightarrow> string \<Rightarrow> Ed25519Provider
    \<Rightarrow> SignatureVerificationResult" where
  "verify_event_signature S event policy key public_key provider =
     (let presence = verify_event_signature_presence S event key
      in if \<not> fst presence then presence
         else case find_signature event key of
                None \<Rightarrow> (False, ''missing key signature'')
              | Some encoded_signature \<Rightarrow>
                  (let signature_bytes = matrix_bytes_from_base64 S encoded_signature
                   in if \<not> ed25519_signature_shape_is_valid signature_bytes
                      then (False, ''invalid signature'')
                      else case make_event_signing_payload event policy of
                             Inl e \<Rightarrow> (False, canonical_json_error_name e)
                           | Inr payload \<Rightarrow>
                               (let verified = provider_verify S provider public_key payload signature_bytes
                                in if \<not> fst verified then (False, snd verified) else (True, []))))"

section \<open>What the payload covers\<close>

abbreviation unsigned_members :: "string list" where
  "unsigned_members \<equiv> [''unsigned'', ''signatures'', ''event_id'']"

text \<open>The members a signature covers, of the redacted event.\<close>

definition signed_part :: "Object \<Rightarrow> RoomVersionPolicy \<Rightarrow> Object" where
  "signed_part obj policy =
     clone_without_fields (redact_members (string_member obj ''type'') policy obj) unsigned_members"

lemma make_event_signing_payload_object:
  "make_event_signing_payload (VObject obj) policy = serialize_canonical_strict (VObject (signed_part obj policy))"
proof -
  have "event_id_format policy = reference_hash" by (cases "event_id_format policy") simp
  then show ?thesis
    by (simp add: make_event_signing_payload_def redact_event_def signed_part_def
        clone_without_unsigned_signatures_and_event_id_def clone_without_fields_eq)
qed

lemma make_event_signing_payload_Inr:
  "make_event_signing_payload event policy = Inr s \<longleftrightarrow>
     (\<exists>obj. event = VObject obj \<and> serialize_canonical_strict (VObject (signed_part obj policy)) = Inr s)"
proof (cases event)
  case (VObject obj)
  then show ?thesis by (simp add: make_event_signing_payload_object)
qed (simp_all add: make_event_signing_payload_def)

lemma signed_part_cong:
  assumes "clone_without_fields obj unsigned_members = clone_without_fields obj' unsigned_members"
  shows "signed_part obj policy = signed_part obj' policy"
  unfolding signed_part_def using redact_event_without_cong [OF assms, of policy] by simp

lemma signed_part_eq:
  "signed_part obj policy =
     map (\<lambda>m. (fst m, redact_member (string_member obj ''type'') policy (fst m) (snd m)))
       (filter (\<lambda>m. fst m \<notin> set unsigned_members
                 \<and> member_survives (string_member obj ''type'') policy (fst m)) obj)"
  unfolding signed_part_def redact_members_without
  unfolding redact_members_eq clone_without_fields_eq filter_filter by (rule refl)

text \<open>The signing payload ignores \<open>unsigned\<close>, \<open>signatures\<close> and \<open>event_id\<close>: events that agree
  on all other members have the same payload, so signing one server after another and attaching a
  convenience id never invalidates a signature.\<close>

theorem signing_payload_ignores_unsigned:
  assumes "clone_without_fields obj unsigned_members = clone_without_fields obj' unsigned_members"
  shows "make_event_signing_payload (VObject obj) policy = make_event_signing_payload (VObject obj') policy"
  using signed_part_cong [OF assms, of policy] by (simp add: make_event_signing_payload_object)

theorem signing_payload_ignores_unsigned_witness:
  "make_event_signing_payload (VObject sample_pdu) room_v11
   = make_event_signing_payload (VObject (sample_pdu @ [(''event_id'', VString ''$x'')])) room_v11"
proof -
  have "clone_without_fields sample_pdu unsigned_members
      = clone_without_fields (sample_pdu @ [(''event_id'', VString ''$x'')]) unsigned_members"
    by code_simp
  then show ?thesis by (rule signing_payload_ignores_unsigned)
qed

text \<open>A signature survives redaction: the redacted event has the same payload.\<close>

theorem signing_payload_survives_redaction:
  assumes "redact_event event policy = Inr redacted"
  shows "make_event_signing_payload redacted policy = make_event_signing_payload event policy"
proof -
  from assms obtain obj where "event = VObject obj"
    and "redacted = VObject (redact_members (string_member obj ''type'') policy obj)"
    by (cases event) (auto simp: redact_event_def)
  then show ?thesis
    by (simp add: make_event_signing_payload_object signed_part_def redact_members_idem)
qed

theorem signing_payload_survives_redaction_witness:
  "make_event_signing_payload (VObject [(''type'', VString ''m.room.name''), (''content'', VObject [])]) room_v11
   = make_event_signing_payload (VObject sample_pdu) room_v11"
proof -
  have "redact_event (VObject sample_pdu) room_v11
      = Inr (VObject [(''type'', VString ''m.room.name''), (''content'', VObject [])])"
    by code_simp
  then show ?thesis by (rule signing_payload_survives_redaction)
qed

text \<open>The payload identifies what is signed: two events have the same payload bytes exactly
  when the covered members of their redacted forms agree up to member order.\<close>

theorem signing_payload_identifies_event:
  assumes "make_event_signing_payload (VObject obj) policy = Inr s"
  shows "make_event_signing_payload (VObject obj') policy = Inr s
         \<longleftrightarrow> canon (VObject (signed_part obj' policy)) = canon (VObject (signed_part obj policy))"
  using assms unfolding make_event_signing_payload_object
  by (rule canonical_json.bytes_bind [where f = "\<lambda>x. VObject (signed_part x policy)"])

theorem signing_payload_identifies_event_witness:
  "(\<exists>s. make_event_signing_payload (VObject sample_pdu) room_v11 = Inr s
     \<and> make_event_signing_payload (VObject (rev sample_pdu)) room_v11 = Inr s
     \<and> make_event_signing_payload (VObject [(''type'', VString ''m.room.topic'')]) room_v11 \<noteq> Inr s)"
proof -
  have "serializable (VObject (signed_part sample_pdu room_v11))" by code_simp
  then obtain s where s: "make_event_signing_payload (VObject sample_pdu) room_v11 = Inr s"
    by (auto simp: make_event_signing_payload_object strict_bytes)
  have "canon (VObject (signed_part (rev sample_pdu) room_v11)) = canon (VObject (signed_part sample_pdu room_v11))"
    "canon (VObject (signed_part [(''type'', VString ''m.room.topic'')] room_v11))
      \<noteq> canon (VObject (signed_part sample_pdu room_v11))"
    by code_simp+
  with s show ?thesis
    using signing_payload_identifies_event [OF s] by blast
qed

section \<open>Redaction and member order\<close>

lemma redact_third_party_invite_same_form:
  assumes "canon v = canon w" and "serializable v"
  shows "canon (redact_third_party_invite v) = canon (redact_third_party_invite w)"
proof (cases v)
  case (VObject ms)
  with assms(1) obtain ns where w: "w = VObject ns" using canon_is_object by metis
  with VObject assms have "map_option canon (object_member ms ''signed'') = map_option canon (object_member ns ''signed'')"
    by (intro object_member_same_form) simp_all
  then show ?thesis
    using VObject w
    by (cases "object_member ms ''signed''"; cases "object_member ns ''signed''")
      (auto simp: redact_third_party_invite_def make_member_def canon_object canon_members_def)
qed (use assms(1) in \<open>cases w; simp add: redact_third_party_invite_def canon_object\<close>)+

lemma redact_content_same_form:
  assumes "canon v = canon w" and "serializable v"
  shows "canon (redact_content v type policy) = canon (redact_content w type policy)"
proof (cases v)
  case (VObject ms)
  with assms(1) obtain ns where w: "w = VObject ns" using canon_is_object by metis
  with VObject assms show ?thesis
    by (simp only: redact_content_def value_is_object.simps option.case redact_content_members_eq)
      (rule canon_map_filter [where P = "\<lambda>k. content_key_allowed type k policy" and
          g = "\<lambda>k v. if k = ''third_party_invite'' then redact_third_party_invite v else v"];
        simp add: redact_third_party_invite_same_form)
qed (use assms(1) in \<open>cases w; simp add: redact_content_def canon_object\<close>)+

lemma signed_part_same_form:
  assumes "canon (VObject ms) = canon (VObject ns)" and "serializable (VObject ms)"
  shows "canon (VObject (signed_part ms policy)) = canon (VObject (signed_part ns policy))"
proof -
  have "map_option canon (object_member ms ''type'') = map_option canon (object_member ns ''type'')"
    using assms by (intro object_member_same_form) simp_all
  then have type: "string_member ms ''type'' = string_member ns ''type''"
    by (cases "object_member ms ''type''"; cases "object_member ns ''type''")
      (auto simp: string_member_def canon_is_string dest: get_if_string_same_form)
  let ?type = "string_member ns ''type''"
  have "canon (redact_member ?type policy k v) = canon (redact_member ?type policy k w)"
    if "canon v = canon w" "serializable v" for k v w
    using that by (auto simp: redact_member_def redact_content_same_form split: option.split)
  then show ?thesis
    unfolding signed_part_eq type
    by (rule canon_map_filter [where g = "redact_member ?type policy" and
          P = "\<lambda>k. k \<notin> set unsigned_members \<and> member_survives ?type policy k", OF assms])
qed

section \<open>When verification accepts\<close>

lemma find_signature_Some:
  "find_signature event key = Some sig \<longleftrightarrow>
     (\<exists>obj sigs server_sigs. event = VObject obj
        \<and> object_member obj ''signatures'' = Some (VObject sigs)
        \<and> object_member sigs (sk_server_name key) = Some (VObject server_sigs)
        \<and> object_member server_sigs (sk_key_id key) = Some (VString sig))"
  by (auto simp: find_signature_def bind_eq_Some_conv object_member_as_object_Some string_member_Some)

lemma verify_event_signature_presence_True:
  "fst (verify_event_signature_presence S event key) \<longleftrightarrow>
     signing_key_id_is_valid key
     \<and> (\<exists>sig. find_signature event key = Some sig \<and> signature_is_valid_shape S sig)"
  by (auto simp: verify_event_signature_presence_def find_signature_Some split: option.splits)

lemma verify_event_signature_True:
  "fst (verify_event_signature S event policy key public_key provider) \<longleftrightarrow>
     signing_key_id_is_valid key
     \<and> (\<exists>sig payload. find_signature event key = Some sig \<and> signature_is_valid_shape S sig
          \<and> make_event_signing_payload event policy = Inr payload
          \<and> fst (provider_verify S provider public_key payload (matrix_bytes_from_base64 S sig)))"
proof (cases "fst (verify_event_signature_presence S event key)")
  case True
  then obtain sig where "signing_key_id_is_valid key" "find_signature event key = Some sig"
    "signature_is_valid_shape S sig"
    by (auto simp: verify_event_signature_presence_True)
  with True show ?thesis
    by (auto simp: verify_event_signature_def Let_def signature_is_valid_shape_def split: sum.split)
next
  case False
  then show ?thesis
    by (auto simp: verify_event_signature_def Let_def verify_event_signature_presence_True)
qed

text \<open>Verification accepts exactly when the key id is well-formed, the event carries a
  signature of the right shape under that server and key, its payload can be computed and libsodium
  accepts the decoded signature over that payload for a public key of the right length.\<close>

theorem verify_event_signature_iff:
  "fst (verify_event_signature S event policy key public_key provider) \<longleftrightarrow>
     signing_key_id_is_valid key
     \<and> (\<exists>sig payload. find_signature event key = Some sig \<and> signature_is_valid_shape S sig
          \<and> make_event_signing_payload event policy = Inr payload
          \<and> length public_key = 32
          \<and> crypto_sign_verify_detached S (matrix_bytes_from_base64 S sig) payload public_key)"
  unfolding verify_event_signature_True
  by (auto simp: provider_verify_def ed25519_verify_def ed25519_public_key_shape_is_valid_def
      signature_is_valid_shape_def Let_def split: if_splits)

section \<open>What is signed verifies\<close>

lemma upsert_server_signature_member:
  "object_member (upsert_server_signature ms key sig) (sk_key_id key) = Some (VString sig)"
  by (induction ms key sig rule: upsert_server_signature.induct) (auto simp: object_member_def make_member_def)

lemma upsert_signature_member:
  "\<exists>server_sigs. object_member (upsert_signature ms key sig) (sk_server_name key) = Some (VObject server_sigs)
     \<and> object_member server_sigs (sk_key_id key) = Some (VString sig)"
proof (induction ms key sig rule: upsert_signature.induct)
  case (2 server v ms key sig)
  then show ?case
    using upsert_server_signature_member [of "clone_server_signatures v" key sig]
    by (auto simp: object_member_def)
qed (auto simp: object_member_def make_member_def)

lemma find_signature_signed_object: "find_signature (VObject (signed_object obj key sig)) key = Some sig"
proof -
  have "object_member (signed_object obj key sig) ''signatures''
      = Some (VObject (upsert_signature (clone_signature_object (object_member obj ''signatures'')) key sig))"
    by (simp add: signed_object_def object_member_def make_member_def map_add_def map_of_eq_None_iff
        split: option.split) (auto dest: map_of_SomeD)
  then show ?thesis
    using upsert_signature_member [of "clone_signature_object (object_member obj ''signatures'')" key sig]
    by (auto simp: find_signature_Some)
qed

lemma find_signature_same_form:
  assumes "canon v = canon w" and "serializable v" and "find_signature v key = Some sig"
  shows "find_signature w key = Some sig"
proof -
  from assms(3) obtain ms sigs server_sigs where v: "v = VObject ms"
    "object_member ms ''signatures'' = Some (VObject sigs)"
    "object_member sigs (sk_server_name key) = Some (VObject server_sigs)"
    "object_member server_sigs (sk_key_id key) = Some (VString sig)"
    by (auto simp: find_signature_Some)
  have ser: "serializable (VObject sigs)" "serializable (VObject server_sigs)"
    using assms(2) v serializable_member by blast+
  from assms(1) v obtain ns where w: "w = VObject ns" using canon_is_object by metis
  with assms(1,2) v obtain x where x: "object_member ns ''signatures'' = Some x" "canon x = canon (VObject sigs)"
    using object_member_same_form_Some [of ms ns] by fastforce
  then obtain sigs' where sigs': "x = VObject sigs'" using canon_is_object by blast
  with x v ser obtain y where y: "object_member sigs' (sk_server_name key) = Some y" "canon y = canon (VObject server_sigs)"
    using object_member_same_form_Some [of sigs sigs'] by fastforce
  then obtain server' where server': "y = VObject server'" using canon_is_object by blast
  with y v ser obtain z where "object_member server' (sk_key_id key) = Some z" "canon z = canon (VString sig)"
    using object_member_same_form_Some [of server_sigs server'] by fastforce
  with w x y sigs' server' show ?thesis
    by (auto simp: find_signature_Some canon_is_string)
qed

lemma signed_part_signed_object: "signed_part (signed_object obj key sig) policy = signed_part obj policy"
  by (rule signed_part_cong)
    (auto simp: signed_object_def make_member_def clone_without_fields_eq intro!: filter_cong)

lemma canonical_json_error_name_not_Nil [simp]: "canonical_json_error_name e \<noteq> []"
  by (cases e) (simp_all add: canonical_json_error_name_def)

lemma sign_event_for_server_success:
  assumes "signed_error (sign_event_for_server S event policy key_store provider server) = []"
  obtains payload s where
    "make_event_signing_payload event policy = Inr payload"
    "sign_for_server S key_store provider server payload = Inr s"
    "attach_event_signature S event \<lparr>sk_server_name = sig_server_name s, sk_key_id = sig_key_id s\<rparr>
       (matrix_base64_from_bytes S (sig_bytes s))
       = Inr (signed_event_json (sign_event_for_server S event policy key_store provider server))"
    "signed_key_id (sign_event_for_server S event policy key_store provider server) = sig_key_id s"
  using assms sign_for_server_error
  by (auto simp: sign_event_for_server_def Let_def sign_failed_def split: sum.splits if_splits)

lemma attach_event_signature_Inr:
  "attach_event_signature S event key sig = Inr js \<longleftrightarrow>
     signing_key_id_is_valid key \<and> signature_is_valid_shape S sig
     \<and> (\<exists>obj. event = VObject obj \<and> serialize_canonical_strict (VObject (signed_object obj key sig)) = Inr js)"
  by (cases event) (auto simp: attach_event_signature_def)

lemma matrix_base64_round_trip:
  assumes "sodium_documented S" and "matrix_base64_from_bytes S bytes \<noteq> []"
  shows "matrix_bytes_from_base64 S (matrix_base64_from_bytes S bytes) = bytes"
  using assms sodium_documentedD(2) [OF assms(1), of bytes]
  by (auto simp: matrix_base64_from_bytes_def matrix_bytes_from_base64_def split: if_splits)

text \<open>C1: what the server signs verifies. If signing an event succeeds with keys whose halves match,
  then any JSON value with the produced canonical bytes, however its members are ordered, passes
  signature verification for that server and key under the published public key.\<close>

theorem signed_event_verifies:
  assumes "sodium_documented S" and "keys_match S key_store provider server"
    and result: "result = sign_event_for_server S event policy key_store provider server"
    and ok: "signed_error result = []"
    and bytes: "serialize_canonical_strict received = Inr (signed_event_json result)"
  shows "\<exists>key \<in> set (key_store server). rec_key_id key = signed_key_id result
    \<and> fst (verify_event_signature S received policy
        \<lparr>sk_server_name = server, sk_key_id = signed_key_id result\<rparr> (rec_public_key key) verifier)"
proof -
  from sign_event_for_server_success [OF ok [unfolded result]] obtain payload s where
    payload: "make_event_signing_payload event policy = Inr payload" and
    sig: "sign_for_server S key_store provider server payload = Inr s" and
    attach: "attach_event_signature S event \<lparr>sk_server_name = sig_server_name s, sk_key_id = sig_key_id s\<rparr>
       (matrix_base64_from_bytes S (sig_bytes s)) = Inr (signed_event_json result)" and
    key: "signed_key_id result = sig_key_id s"
    unfolding result by blast
  have server: "sig_server_name s = server" by (rule sign_for_server_Inr [OF sig])
  let ?key = "\<lparr>sk_server_name = server, sk_key_id = sig_key_id s\<rparr>"
  let ?enc = "matrix_base64_from_bytes S (sig_bytes s)"
  from attach server obtain obj where event: "event = VObject obj" and valid: "signing_key_id_is_valid ?key"
    and shape: "signature_is_valid_shape S ?enc"
    and ser: "serialize_canonical_strict (VObject (signed_object obj ?key ?enc)) = Inr (signed_event_json result)"
    by (auto simp: attach_event_signature_Inr)
  have form: "canon received = canon (VObject (signed_object obj ?key ?enc))"
    using canonical_json.same_bytes_same_form [OF ser bytes] .
  then obtain obj' where received: "received = VObject obj'" using canon_is_object by blast
  have serializable: "serializable (VObject (signed_object obj ?key ?enc))"
    using ser by (simp add: strict_bytes)
  have "find_signature received ?key = Some ?enc"
    using find_signature_same_form [OF form [symmetric] serializable] find_signature_signed_object by blast
  moreover have "make_event_signing_payload received policy = Inr payload"
  proof -
    have "canon (VObject (signed_part obj' policy)) = canon (VObject (signed_part obj policy))"
      using signed_part_same_form [OF form [unfolded received, symmetric] serializable, of policy]
      by (simp add: signed_part_signed_object)
    with payload show ?thesis
      unfolding received event make_event_signing_payload_object
      by (rule canonical_json.same_form_same_bytes)
  qed
  moreover have "?enc \<noteq> []" using shape by (auto simp: signature_is_valid_shape_def)
  then have "matrix_bytes_from_base64 S ?enc = sig_bytes s"
    using matrix_base64_round_trip [OF assms(1)] by blast
  moreover obtain r where "r \<in> set (key_store server)" "rec_key_id r = sig_key_id s"
    "provider_verify S verifier (rec_public_key r) payload (sig_bytes s) = (True, [])"
    using sign_for_server_verifies [OF assms(2) sig] by (auto simp: provider_verify_def)
  ultimately show ?thesis
    using valid shape key by (intro bexI [of _ r]) (auto simp: verify_event_signature_True)
qed

definition sample_secret :: string where
  "sample_secret = replicate 64 (CHR ''k'')"

definition sample_store :: SigningKeyStore where
  "sample_store = runtime_active_keys_for_server sample_sodium
     \<lparr>store_server_name = ''example.org'',
      store_keys = [\<lparr>stored_server_name = ''example.org'', stored_key_id = ''ed25519:1'',
                     stored_public_key = concat (map letter_pair (replicate 32 (CHR ''p'')))\<rparr>]\<rparr>"

theorem signed_event_verifies_witness:
  "\<exists>key \<in> set (sample_store ''example.org''). rec_key_id key = ''ed25519:1''
    \<and> fst (verify_event_signature sample_sodium
        (VObject (signed_object sample_pdu \<lparr>sk_server_name = ''example.org'', sk_key_id = ''ed25519:1''\<rparr>
           (concat (map letter_pair (replicate 64 (CHR ''s'')))))) room_v11
        \<lparr>sk_server_name = ''example.org'', sk_key_id = ''ed25519:1''\<rparr> (rec_public_key key)
        (make_runtime_provider sample_secret))"
proof -
  let ?provider = "make_runtime_provider sample_secret"
  let ?result = "sign_event_for_server sample_sodium (VObject sample_pdu) room_v11 sample_store ?provider ''example.org''"
  let ?signed = "VObject (signed_object sample_pdu \<lparr>sk_server_name = ''example.org'', sk_key_id = ''ed25519:1''\<rparr>
      (concat (map letter_pair (replicate 64 (CHR ''s'')))))"
  have "keys_match sample_sodium sample_store ?provider ''example.org''"
    by (simp add: keys_match_def sample_sodium_keypair)
  moreover have "signed_error ?result = []" "signed_key_id ?result = ''ed25519:1''"
    by code_simp+
  moreover have "serialize_canonical_strict ?signed = Inr (signed_event_json ?result)"
    by code_simp
  ultimately show ?thesis
    using signed_event_verifies [OF sample_sodium_documented _ refl, of sample_store ?provider "''example.org''"
        "VObject sample_pdu" room_v11 ?signed ?provider] by simp
qed

end
