(* ===== verification/Authorization.thy ===== *)
theory Authorization
  imports Power_Levels Event_Signer
begin

text \<open>
  Event authorization, \<open>src/events/authorization.cpp\<close>: the whole of
  \<open>authorize_event_against_auth_events\<close>, branch by branch and in its order, with the create,
  federation, membership, third-party invite, power level, state and message rules, and the
  request-level helpers of the same file. A decision is a record; the diagnostics log is not
  modelled. \<open>auth_events\<close> holds the events of the room's resolved state, \<open>VNull\<close> for none.

  The theorems state what an allowed event entails, rule by rule, for every room version.
\<close>

section \<open>Decisions and memberships\<close>

datatype MembershipState = Leave | Invite | Join | Ban | Knock | Restricted

record EventAuthorizationDecision =
  allowed :: bool
  rule_hook :: string
  rule_step :: string
  deny_reason :: string

record AuthEventMap =
  am_create :: Value
  am_power_levels :: Value
  am_join_rules :: Value
  am_sender_member :: Value
  am_target_member :: Value
  am_authorising_user_member :: Value
  am_third_party_invite :: Value

definition auth_rule_name :: "AuthRules \<Rightarrow> string" where
  "auth_rule_name rules = (case rules of
      auth_room_v1 \<Rightarrow> ''room_v1'' | auth_room_v6_plus \<Rightarrow> ''room_v6_plus'' | auth_room_v12 \<Rightarrow> ''room_v12'')"

definition auth_rule_hook_name :: "RoomVersionPolicy \<Rightarrow> string" where
  "auth_rule_hook_name policy = ''auth_rules.'' @ auth_rule_name (auth_rules policy)"

definition make_denied :: "string \<Rightarrow> string \<Rightarrow> EventAuthorizationDecision" where
  "make_denied step why = \<lparr>allowed = False, rule_hook = [], rule_step = step, deny_reason = why\<rparr>"

definition make_allowed :: "string \<Rightarrow> EventAuthorizationDecision" where
  "make_allowed step = \<lparr>allowed = True, rule_hook = [], rule_step = step, deny_reason = []\<rparr>"

definition membership_name :: "MembershipState \<Rightarrow> string" where
  "membership_name m = (case m of Leave \<Rightarrow> ''leave'' | Invite \<Rightarrow> ''invite'' | Join \<Rightarrow> ''join''
     | Ban \<Rightarrow> ''ban'' | Knock \<Rightarrow> ''knock'' | Restricted \<Rightarrow> ''restricted'')"

definition parse_membership_state :: "string \<Rightarrow> MembershipState option" where
  "parse_membership_state m =
     (if m = ''join'' then Some Join else if m = ''invite'' then Some Invite
      else if m = ''leave'' then Some Leave else if m = ''ban'' then Some Ban
      else if m = ''knock'' then Some Knock else None)"

definition membership_at_least_one_of :: "MembershipState \<Rightarrow> MembershipState list \<Rightarrow> bool" where
  "membership_at_least_one_of current required = list_ex (\<lambda>m. current = m) required"

definition domain_of :: "string \<Rightarrow> string" where
  "domain_of matrix_id =
     (case find_char (CHR '':'') matrix_id of None \<Rightarrow> [] | Some colon \<Rightarrow> drop (colon + 1) matrix_id)"

definition extract_content_membership :: "Value \<Rightarrow> string" where
  "extract_content_membership event =
     (case event_content_string event ''membership'' of None \<Rightarrow> [] | Some m \<Rightarrow> m)"

text \<open>\<open>parse_membership_state(...).value_or(leave)\<close> of a membership event, \<open>leave\<close> without one.\<close>

definition member_state :: "Value \<Rightarrow> MembershipState" where
  "member_state member =
     (if value_has_content member
      then case parse_membership_state (extract_content_membership member) of Some m \<Rightarrow> m | None \<Rightarrow> Leave
      else Leave)"

section \<open>The request-level check\<close>

record PowerLevelPolicy =
  plp_sender_power :: int
  plp_required_power :: int

record MembershipPolicy =
  current_membership :: MembershipState
  requested_membership :: MembershipState
  target_is_sender :: bool
  target_is_restricted :: bool
  request_third_party_invite :: bool
  mp_sender_power :: int
  restrict_power :: int
  invite_power :: int
  remove_power :: int

record EventAuthorizationRequest =
  req_room_version :: string
  req_event_type :: string
  req_state_key :: string
  req_sender :: string
  req_power_level :: PowerLevelPolicy
  req_membership :: MembershipPolicy

definition power_level_allows :: "PowerLevelPolicy \<Rightarrow> bool" where
  "power_level_allows policy \<longleftrightarrow> plp_sender_power policy \<ge> plp_required_power policy"

definition membership_decision :: "bool \<Rightarrow> string \<Rightarrow> EventAuthorizationDecision" where
  "membership_decision ok why =
     \<lparr>allowed = ok, rule_hook = ''membership'', rule_step = ''4'', deny_reason = (if ok then [] else why)\<rparr>"

definition membership_policy_allows :: "MembershipPolicy \<Rightarrow> EventAuthorizationDecision" where
  "membership_policy_allows policy =
     (if target_is_restricted policy then membership_decision False ''target membership is restricted''
      else if requested_membership policy = Join \<and> target_is_sender policy then membership_decision True []
      else if requested_membership policy = Invite
      then membership_decision (mp_sender_power policy \<ge> invite_power policy) ''insufficient power to invite''
      else if requested_membership policy = Restricted
      then membership_decision (mp_sender_power policy \<ge> restrict_power policy)
             ''insufficient power to restrict membership''
      else if requested_membership policy = Leave
      then if target_is_sender policy then membership_decision True []
           else membership_decision (mp_sender_power policy \<ge> remove_power policy)
                  ''insufficient power to remove another member''
      else membership_decision False ''membership transition is not allowed'')"

definition requires_power_levels :: "string \<Rightarrow> bool" where
  "requires_power_levels event_type \<longleftrightarrow> event_type \<noteq> ''m.room.create''"

definition requires_membership :: "string \<Rightarrow> bool" where
  "requires_membership event_type \<longleftrightarrow> event_type = ''m.room.member''"

definition authorize_event ::
  "RoomVersionPolicy \<Rightarrow> EventAuthorizationRequest \<Rightarrow> EventAuthorizationDecision" where
  "authorize_event policy request =
     (let hook = auth_rule_hook_name policy;
          denied = (\<lambda>why. \<lparr>allowed = False, rule_hook = hook, rule_step = ''0'', deny_reason = why\<rparr>)
      in if policy_id policy \<noteq> req_room_version request then denied ''room version mismatch''
         else if req_event_type request = [] then denied ''event type is required''
         else if \<not> power_level_allows (req_power_level request) then denied ''insufficient power level''
         else if requires_membership (req_event_type request)
         then membership_policy_allows (req_membership request)\<lparr>rule_hook := hook\<rparr>
         else \<lparr>allowed = True, rule_hook = hook, rule_step = ''0'', deny_reason = []\<rparr>)"

section \<open>Auth event selection and the auth chain\<close>

datatype AuthEventKind = kind_create | kind_power_levels | kind_join_rules | kind_member | kind_third_party_invite

record AuthEventReference =
  ref_kind :: AuthEventKind
  ref_event_type :: string
  ref_state_key :: string

definition auth_reference :: "AuthEventKind \<Rightarrow> string \<Rightarrow> string \<Rightarrow> AuthEventReference" where
  "auth_reference k type key = \<lparr>ref_kind = k, ref_event_type = type, ref_state_key = key\<rparr>"

definition select_auth_events :: "EventAuthorizationRequest \<Rightarrow> AuthEventReference list" where
  "select_auth_events request =
     (let create_is_implicit =
            (case find_room_version_policy (req_room_version request) of
               None \<Rightarrow> False | Some policy \<Rightarrow> create_event_is_room_id policy)
      in (if \<not> create_is_implicit then [auth_reference kind_create ''m.room.create'' []] else [])
         @ (if requires_power_levels (req_event_type request)
            then [auth_reference kind_power_levels ''m.room.power_levels'' []] else [])
         @ (if req_event_type request = ''m.room.member''
            then [auth_reference kind_join_rules ''m.room.join_rules'' [],
                  auth_reference kind_member ''m.room.member'' (req_state_key request)] else [])
         @ (if request_third_party_invite (req_membership request)
            then [auth_reference kind_third_party_invite ''m.room.third_party_invite'' (req_state_key request)]
            else []))"

definition auth_event_kind_name :: "AuthEventKind \<Rightarrow> string" where
  "auth_event_kind_name k = (case k of
      kind_create \<Rightarrow> ''create'' | kind_power_levels \<Rightarrow> ''power_levels'' | kind_join_rules \<Rightarrow> ''join_rules''
    | kind_member \<Rightarrow> ''member'' | kind_third_party_invite \<Rightarrow> ''third_party_invite'')"

type_synonym AuthChain = "string list"

definition auth_chain_contains :: "AuthChain \<Rightarrow> string \<Rightarrow> bool" where
  "auth_chain_contains chain event_id = list_ex (\<lambda>existing. existing = event_id) chain"

definition append_auth_chain_event :: "AuthChain \<Rightarrow> string \<Rightarrow> AuthChain" where
  "append_auth_chain_event chain event_id =
     (if event_id \<noteq> [] \<and> \<not> auth_chain_contains chain event_id then chain @ [event_id] else chain)"

section \<open>Rule 1: the create event\<close>

definition create_prev_events_reason :: "Object \<Rightarrow> string" where
  "create_prev_events_reason event =
     (case object_member event ''prev_events'' of
        None \<Rightarrow> []
      | Some prev_events \<Rightarrow>
          (case get_if_array prev_events of
             None \<Rightarrow> []
           | Some entries \<Rightarrow> if entries \<noteq> [] then ''create event must not have prev_events'' else []))"

definition create_room_id_reason :: "Object \<Rightarrow> RoomVersionPolicy \<Rightarrow> string" where
  "create_room_id_reason event policy =
     (if create_event_is_room_id policy
      then if string_member event ''room_id'' \<noteq> None then ''v12 create event must not carry a room_id'' else []
      else case string_member event ''room_id'' of
             None \<Rightarrow> ''create event requires a room_id''
           | Some room \<Rightarrow>
               (case string_member event ''sender'' of
                  None \<Rightarrow> ''create event room_id domain does not match the sender domain''
                | Some sndr \<Rightarrow>
                    if domain_of room \<noteq> domain_of sndr
                    then ''create event room_id domain does not match the sender domain'' else []))"

definition additional_creators_reason :: "Object \<Rightarrow> string" where
  "additional_creators_reason content =
     (case object_member content ''additional_creators'' of
        None \<Rightarrow> []
      | Some additional \<Rightarrow>
          (case get_if_array additional of
             None \<Rightarrow> ''additional_creators must be an array''
           | Some entries \<Rightarrow>
               first_reason (\<lambda>entry. case get_if_string entry of
                    None \<Rightarrow> ''additional_creators must contain only valid user IDs''
                  | Some user_id \<Rightarrow>
                      if \<not> user_id_is_well_formed user_id
                      then ''additional_creators must contain only valid user IDs'' else []) entries))"

definition create_content_reason :: "Object option \<Rightarrow> RoomVersionPolicy \<Rightarrow> string" where
  "create_content_reason content policy =
     (let creator_field_required =
            (\<not> create_event_is_room_id policy \<and> redaction_rules policy \<noteq> redaction_room_v11_plus)
      in if creator_field_required
            \<and> (content = None \<or> object_member (the content) ''creator'' = None)
         then ''create event content requires a creator''
         else case content of
                None \<Rightarrow> []
              | Some c \<Rightarrow>
                  if (case string_member c ''room_version'' of
                        None \<Rightarrow> False | Some v \<Rightarrow> \<not> room_version_is_supported v)
                  then ''create event declares an unrecognised room_version''
                  else if create_event_is_room_id policy then additional_creators_reason c
                  else [])"

definition create_event_rejection_reason :: "Object \<Rightarrow> RoomVersionPolicy \<Rightarrow> string" where
  "create_event_rejection_reason event policy =
     (let prev = create_prev_events_reason event;
          room = create_room_id_reason event policy
      in if prev \<noteq> [] then prev
         else if room \<noteq> [] then room
         else create_content_reason (object_member_as_object event ''content'') policy)"

section \<open>Rule 3: rooms that do not federate\<close>

definition create_is_non_federated :: "Value \<Rightarrow> bool" where
  "create_is_non_federated create_event =
     (case event_content create_event of
        None \<Rightarrow> False
      | Some content \<Rightarrow>
          (case object_member content ''m.federate'' of
             None \<Rightarrow> False
           | Some federate \<Rightarrow> get_if_bool federate = Some False))"

definition creator_domain_source :: "Value \<Rightarrow> string" where
  "creator_domain_source create_event =
     (case event_content_string create_event ''creator'' of
        Some creator \<Rightarrow> creator
      | None \<Rightarrow>
          (case value_is_object create_event of
             None \<Rightarrow> []
           | Some obj \<Rightarrow> (case string_member obj ''sender'' of None \<Rightarrow> [] | Some s \<Rightarrow> s)))"

text \<open>\<^const>\<open>None\<close> when the rule has no objection.\<close>

definition federation_denial :: "Value \<Rightarrow> RoomVersionPolicy \<Rightarrow> string \<Rightarrow> EventAuthorizationDecision option" where
  "federation_denial create_event policy sndr =
     (if (auth_rules policy = auth_room_v6_plus \<or> auth_rules policy = auth_room_v12)
         \<and> create_is_non_federated create_event
      then if creator_domain_source create_event = []
           then Some (make_denied ''3'' ''create event has no identifiable creator'')
           else if domain_of sndr \<noteq> domain_of (creator_domain_source create_event)
           then Some (make_denied ''3'' ''sender domain does not match creator domain'')
           else None
      else None)"

section \<open>Third-party invites\<close>

definition collect_third_party_invite_public_keys :: "Value \<Rightarrow> string list" where
  "collect_third_party_invite_public_keys third_party_invite_event =
     (case event_content third_party_invite_event of
        None \<Rightarrow> []
      | Some content \<Rightarrow>
          (case string_member content ''public_key'' of None \<Rightarrow> [] | Some k \<Rightarrow> [k])
          @ (case array_member content ''public_keys'' of
               None \<Rightarrow> []
             | Some entries \<Rightarrow>
                 List.map_filter (\<lambda>entry. Option.bind (value_is_object entry)
                                    (\<lambda>obj. string_member obj ''public_key'')) entries))"

text \<open>One signature of the signed blob against the candidate keys.\<close>

definition third_party_key_signature_is_valid ::
  "Sodium \<Rightarrow> string list \<Rightarrow> string \<Rightarrow> string \<times> Value \<Rightarrow> bool" where
  "third_party_key_signature_is_valid S candidate_keys payload key_entry =
     (case get_if_string (snd key_entry) of
        None \<Rightarrow> False
      | Some signature_b64 \<Rightarrow>
          (let sig = matrix_bytes_from_base64 S signature_b64
           in ed25519_signature_shape_is_valid sig
              \<and> list_ex (\<lambda>public_key_b64.
                  let public_key = matrix_bytes_from_base64 S public_key_b64
                  in ed25519_public_key_shape_is_valid public_key
                     \<and> fst (ed25519_verify S public_key payload sig)) candidate_keys))"

definition third_party_invite_signature_is_valid :: "Sodium \<Rightarrow> Object \<Rightarrow> Value \<Rightarrow> bool" where
  "third_party_invite_signature_is_valid S signed_obj third_party_invite_event =
     (case object_member_as_object signed_obj ''signatures'' of
        None \<Rightarrow> False
      | Some sigs \<Rightarrow>
          (let candidate_keys = collect_third_party_invite_public_keys third_party_invite_event
           in if candidate_keys = [] then False
              else case make_event_signing_payload_plain (VObject signed_obj) of
                     Inl e \<Rightarrow> False
                   | Inr payload \<Rightarrow>
                       list_ex (\<lambda>server_entry.
                         case value_is_object (snd server_entry) of
                           None \<Rightarrow> False
                         | Some key_signatures \<Rightarrow>
                             list_ex (third_party_key_signature_is_valid S candidate_keys payload) key_signatures)
                         sigs))"

definition authorize_third_party_invite ::
  "Sodium \<Rightarrow> Value \<Rightarrow> string \<Rightarrow> string \<Rightarrow> MembershipState \<Rightarrow> Value \<Rightarrow> EventAuthorizationDecision" where
  "authorize_third_party_invite S tpi_content state_key sndr target_current tpi_event =
     (if target_current = Ban then make_denied ''6'' ''banned user cannot accept a third-party invite''
      else case Option.bind (value_is_object tpi_content) (\<lambda>obj. object_member_as_object obj ''signed'') of
        None \<Rightarrow> make_denied ''6'' ''third_party_invite missing signed property''
      | Some signed_obj \<Rightarrow>
      (case (string_member signed_obj ''mxid'', string_member signed_obj ''token'') of
        (Some mxid, Some token) \<Rightarrow>
          if mxid \<noteq> state_key
          then make_denied ''6'' ''third_party_invite signed mxid does not match state_key''
          else (case value_is_object tpi_event of
             None \<Rightarrow> make_denied ''6'' ''no matching m.room.third_party_invite event for token''
           | Some tpi_event_obj \<Rightarrow>
               if string_member tpi_event_obj ''state_key'' \<noteq> Some token
               then make_denied ''6'' ''no matching m.room.third_party_invite event for token''
               else if string_member tpi_event_obj ''sender'' \<noteq> Some sndr
               then make_denied ''6'' ''sender does not match m.room.third_party_invite sender''
               else if \<not> third_party_invite_signature_is_valid S signed_obj tpi_event
               then make_denied ''6'' ''third_party_invite signature does not match any public key''
               else make_allowed ''6'')
      | _ \<Rightarrow> make_denied ''6'' ''third_party_invite signed is missing mxid or token''))"

section \<open>Steps 4 to 9: membership events\<close>

text \<open>A level of the power levels event with its default when the room has none.\<close>

definition level_or_default :: "AuthEventMap \<Rightarrow> RoomVersionPolicy \<Rightarrow> string \<Rightarrow> int \<Rightarrow> int" where
  "level_or_default am policy key default_value =
     (if value_has_content (am_power_levels am)
      then extract_power_level_key (am_power_levels am) key default_value (\<not> power_levels_require_integers policy)
      else default_value)"

abbreviation user_power :: "AuthEventMap \<Rightarrow> RoomVersionPolicy \<Rightarrow> string \<Rightarrow> int" where
  "user_power am policy user_id \<equiv> effective_sender_power (am_power_levels am) user_id (am_create am) policy"

definition room_join_rule :: "AuthEventMap \<Rightarrow> string" where
  "room_join_rule am =
     (if value_has_content (am_join_rules am)
      then case event_content_string (am_join_rules am) ''join_rule'' of Some rule \<Rightarrow> rule | None \<Rightarrow> ''invite''
      else ''invite'')"

definition authorize_restricted_join ::
  "Value \<Rightarrow> RoomVersionPolicy \<Rightarrow> AuthEventMap \<Rightarrow> EventAuthorizationDecision" where
  "authorize_restricted_join event policy am =
     (case event_content_string event ''join_authorised_via_users_server'' of
        None \<Rightarrow> make_denied ''5'' ''restricted join requires join_authorised_via_users_server''
      | Some authorising_user \<Rightarrow>
          if authorising_user = []
          then make_denied ''5'' ''restricted join requires join_authorised_via_users_server''
          else case value_is_object (am_authorising_user_member am) of
             None \<Rightarrow> make_denied ''5'' ''restricted join missing authorising user membership''
           | Some authorising_member \<Rightarrow>
               if string_member authorising_member ''state_key'' \<noteq> Some authorising_user
               then make_denied ''5'' ''restricted join authorising user does not match membership event''
               else if parse_membership_state (extract_content_membership (am_authorising_user_member am)) \<noteq> Some Join
               then make_denied ''5'' ''restricted join authorising user is not joined''
               else if user_power am policy authorising_user < level_or_default am policy ''invite'' 0
               then make_denied ''5'' ''restricted join authorising user lacks invite power''
               else make_allowed ''5'')"

definition authorize_join ::
  "Value \<Rightarrow> RoomVersionPolicy \<Rightarrow> AuthEventMap \<Rightarrow> string \<Rightarrow> MembershipState \<Rightarrow> EventAuthorizationDecision" where
  "authorize_join event policy am sndr target_current =
     (if target_current = Ban then make_denied ''5'' ''banned user cannot join''
      else if \<not> value_has_content (am_sender_member am) \<and> \<not> value_has_content (am_target_member am)
              \<and> event_content_string (am_create am) ''creator'' = Some sndr
      then make_allowed ''5''
      else let join_rule = room_join_rule am;
               invited = membership_at_least_one_of target_current [Invite, Join]
           in if join_rule = ''public'' then make_allowed ''5''
              else if join_rule = ''invite''
              then if invited then make_allowed ''5''
                   else make_denied ''5'' ''user was not invited to this invite-only room''
              else if join_rule = ''knock''
              then if invited then make_allowed ''5''
                   else make_denied ''5'' ''user was not invited to knock-restricted room''
              else if join_rule = ''restricted'' \<or> join_rule = ''restricted_v2''
              then if invited then make_allowed ''5'' else authorize_restricted_join event policy am
              else make_denied ''5'' ''unknown join rule'')"

definition authorize_knock ::
  "AuthEventMap \<Rightarrow> bool \<Rightarrow> MembershipState \<Rightarrow> EventAuthorizationDecision" where
  "authorize_knock am is_self target_current =
     (if \<not> is_self then make_denied ''5'' ''cannot knock on behalf of another user''
      else if target_current = Ban then make_denied ''5'' ''banned user cannot knock''
      else if membership_at_least_one_of target_current [Join, Invite]
      then make_denied ''5'' ''already joined or invited user cannot knock''
      else if room_join_rule am = ''knock'' \<or> room_join_rule am = ''knock_restricted''
      then make_allowed ''5''
      else make_denied ''5'' ''join_rule does not permit knocking'')"

definition authorize_invite ::
  "Sodium \<Rightarrow> Object \<Rightarrow> RoomVersionPolicy \<Rightarrow> AuthEventMap \<Rightarrow> string \<Rightarrow> string
    \<Rightarrow> MembershipState \<Rightarrow> MembershipState \<Rightarrow> EventAuthorizationDecision" where
  "authorize_invite S obj policy am state_key sndr sender_current target_current =
     (let tpi = Option.bind (object_member_as_object obj ''content'')
                  (\<lambda>content. object_member content ''third_party_invite'')
      in if tpi \<noteq> None \<and> value_is_object (the tpi) \<noteq> None
         then authorize_third_party_invite S (the tpi) state_key sndr target_current (am_third_party_invite am)
         else if target_current = Join then make_denied ''6'' ''cannot invite already-joined user''
         else if target_current = Ban then make_denied ''6'' ''cannot invite banned user''
         else if sender_current \<noteq> Join then make_denied ''6'' ''inviter must be joined''
         else if user_power am policy sndr < level_or_default am policy ''invite'' 0
         then make_denied ''6'' ''insufficient power to invite''
         else make_allowed ''6'')"

definition authorize_leave ::
  "RoomVersionPolicy \<Rightarrow> AuthEventMap \<Rightarrow> string \<Rightarrow> string \<Rightarrow> MembershipState \<Rightarrow> MembershipState
    \<Rightarrow> EventAuthorizationDecision" where
  "authorize_leave policy am state_key sndr sender_current target_current =
     (if sndr = state_key
      then if membership_at_least_one_of target_current [Invite, Join, Knock] then make_allowed ''7''
           else make_denied ''7'' ''self-leave requires current membership of invite, join, or knock''
      else if sender_current \<noteq> Join then make_denied ''7'' ''kicker must be joined''
      else let sender_power = user_power am policy sndr
           in if target_current = Ban \<and> sender_power < level_or_default am policy ''ban'' 50
              then make_denied ''7'' ''insufficient power to unban''
              else if sender_power \<ge> level_or_default am policy ''kick'' 50
                      \<and> user_power am policy state_key < sender_power
              then make_allowed ''7''
              else make_denied ''7'' ''insufficient power to kick or unban target'')"

definition authorize_ban ::
  "RoomVersionPolicy \<Rightarrow> AuthEventMap \<Rightarrow> string \<Rightarrow> string \<Rightarrow> MembershipState \<Rightarrow> EventAuthorizationDecision" where
  "authorize_ban policy am state_key sndr sender_current =
     (if sender_current \<noteq> Join then make_denied ''8'' ''banner must be joined''
      else if user_power am policy sndr \<ge> level_or_default am policy ''ban'' 50
              \<and> user_power am policy state_key < user_power am policy sndr
      then make_allowed ''8''
      else make_denied ''8'' ''insufficient power to ban'')"

definition target_member_state :: "AuthEventMap \<Rightarrow> bool \<Rightarrow> MembershipState" where
  "target_member_state am is_self =
     (if is_self \<and> value_has_content (am_sender_member am) then member_state (am_sender_member am)
      else if value_has_content (am_target_member am) then member_state (am_target_member am)
      else Leave)"

definition authorize_member ::
  "Sodium \<Rightarrow> Object \<Rightarrow> RoomVersionPolicy \<Rightarrow> AuthEventMap \<Rightarrow> string \<Rightarrow> EventAuthorizationDecision" where
  "authorize_member S obj policy am sndr =
     (case string_member obj ''state_key'' of
        None \<Rightarrow> make_denied ''4'' ''m.room.member requires a state_key''
      | Some state_key \<Rightarrow>
          if state_key = [] then make_denied ''4'' ''m.room.member requires a state_key''
          else (case parse_membership_state (extract_content_membership (VObject obj)) of
             None \<Rightarrow> make_denied ''4'' ''membership value is unrecognized''
           | Some requested \<Rightarrow>
               (let is_self = (sndr = state_key);
                    sender_current = member_state (am_sender_member am);
                    target_current = target_member_state am is_self
                in if requested = Join \<and> \<not> is_self then make_denied ''5'' ''cannot force another user to join''
                   else if requested = Join then authorize_join (VObject obj) policy am sndr target_current
                   else if requested = Knock then authorize_knock am is_self target_current
                   else if requested = Invite
                   then authorize_invite S obj policy am state_key sndr sender_current target_current
                   else if requested = Leave
                   then authorize_leave policy am state_key sndr sender_current target_current
                   else if requested = Ban then authorize_ban policy am state_key sndr sender_current
                   else make_denied ''4'' ''unsupported membership type'')))"

section \<open>Steps 10 to 14: other events\<close>

definition sender_membership :: "AuthEventMap \<Rightarrow> string \<Rightarrow> MembershipState" where
  "sender_membership am sndr =
     (if value_has_content (am_sender_member am) then member_state (am_sender_member am)
      else if event_content_string (am_create am) ''creator'' = Some sndr then Join
      else Leave)"

definition authorize_third_party_invite_event ::
  "RoomVersionPolicy \<Rightarrow> AuthEventMap \<Rightarrow> string \<Rightarrow> EventAuthorizationDecision" where
  "authorize_third_party_invite_event policy am sndr =
     (if user_power am policy sndr < level_or_default am policy ''invite'' 0
      then make_denied ''6'' ''insufficient power to create a third-party invite''
      else make_allowed ''6'')"

text \<open>Rules 9.5 to 9.9 against the room's current power levels event.\<close>

definition power_levels_change_reason ::
  "RoomVersionPolicy \<Rightarrow> AuthEventMap \<Rightarrow> string \<Rightarrow> Object \<Rightarrow> int \<Rightarrow> string" where
  "power_levels_change_reason policy am sndr content pl_sender_power =
     (let strs = \<not> power_levels_require_integers policy;
          old_content = event_content (am_power_levels am);
          old_users = Option.bind old_content (\<lambda>c. object_member_as_object c ''users'');
          new_users = object_member_as_object content ''users'';
          bounded =
            (case old_content of
               None \<Rightarrow> []
             | Some old \<Rightarrow>
                 (let scalars = scalar_power_level_rejection_reason old content pl_sender_power strs
                  in if scalars \<noteq> [] then scalars
                     else first_reason (power_level_map_rejection_reason old content pl_sender_power strs)
                            (bounded_power_level_maps policy)))
      in if bounded \<noteq> [] then bounded
         else users_change_reason old_users new_users sndr pl_sender_power strs)"

definition authorize_power_levels_event ::
  "Object \<Rightarrow> RoomVersionPolicy \<Rightarrow> AuthEventMap \<Rightarrow> string \<Rightarrow> EventAuthorizationDecision" where
  "authorize_power_levels_event obj policy am sndr =
     (case object_member_as_object obj ''content'' of
        None \<Rightarrow> make_denied ''11'' ''m.room.power_levels requires a content object''
      | Some content \<Rightarrow>
          (let pl_sender_power = user_power am policy sndr;
               shape = power_levels_content_rejection_reason content policy;
               new_users = object_member_as_object content ''users'';
               change = (if value_has_content (am_power_levels am)
                         then power_levels_change_reason policy am sndr content pl_sender_power else [])
           in if shape \<noteq> [] then make_denied ''11'' shape
              else if privilege_room_creators policy
                      \<and> list_ex (\<lambda>entry. user_is_room_creator (am_create am) (fst entry) policy) (entries_of new_users)
              then make_denied ''11'' ''creator cannot be specified in m.room.power_levels content.users''
              else if change \<noteq> [] then make_denied ''11'' change
              else if pl_sender_power < level_or_default am policy ''state_default'' 50
              then make_denied ''11'' ''insufficient power to send power_levels event''
              else make_allowed ''11''))"

text \<open>The level the events map asks for, with the default for types it does not list.\<close>

definition events_map_level :: "AuthEventMap \<Rightarrow> string \<Rightarrow> int \<Rightarrow> int" where
  "events_map_level am event_type default_level =
     (if value_has_content (am_power_levels am)
      then case event_content (am_power_levels am) of
             None \<Rightarrow> default_level
           | Some content \<Rightarrow>
               (case object_member_as_object content ''events'' of
                  None \<Rightarrow> default_level
                | Some events \<Rightarrow>
                    (case integer_member events event_type of Some l \<Rightarrow> l | None \<Rightarrow> default_level))
      else default_level)"

definition authorize_state_event ::
  "RoomVersionPolicy \<Rightarrow> AuthEventMap \<Rightarrow> string \<Rightarrow> string \<Rightarrow> EventAuthorizationDecision" where
  "authorize_state_event policy am sndr event_type =
     (let required = events_map_level am event_type (level_or_default am policy ''state_default'' 50)
      in if user_power am policy sndr < required then make_denied ''13'' ''insufficient power for state event''
         else make_allowed ''13'')"

definition authorize_message_event ::
  "RoomVersionPolicy \<Rightarrow> AuthEventMap \<Rightarrow> string \<Rightarrow> string \<Rightarrow> EventAuthorizationDecision" where
  "authorize_message_event policy am sndr event_type =
     (let required = events_map_level am event_type (level_or_default am policy ''events_default'' 0)
      in if user_power am policy sndr < required then make_denied ''14'' ''insufficient power for message event''
         else make_allowed ''14'')"

section \<open>The whole check\<close>

definition authorize_other_event ::
  "Object \<Rightarrow> RoomVersionPolicy \<Rightarrow> AuthEventMap \<Rightarrow> string \<Rightarrow> string \<Rightarrow> EventAuthorizationDecision" where
  "authorize_other_event obj policy am event_type sndr =
     (if sender_membership am sndr \<noteq> Join then make_denied ''10'' ''sender is not joined to the room''
      else if event_type = ''m.room.third_party_invite'' then authorize_third_party_invite_event policy am sndr
      else let state_key = string_member obj ''state_key''
           in if state_key \<noteq> None \<and> prefix ''@'' (the state_key) \<and> the state_key \<noteq> sndr
              then make_denied ''8'' ''state_key belongs to another user''
              else if event_type = ''m.room.power_levels'' then authorize_power_levels_event obj policy am sndr
              else if state_key \<noteq> None then authorize_state_event policy am sndr event_type
              else authorize_message_event policy am sndr event_type)"

definition authorize_event_against_auth_events ::
  "Sodium \<Rightarrow> Value \<Rightarrow> RoomVersionPolicy \<Rightarrow> AuthEventMap \<Rightarrow> EventAuthorizationDecision" where
  "authorize_event_against_auth_events S event policy am =
     (case value_is_object event of
        None \<Rightarrow> make_denied ''0'' ''event must be an object''
      | Some obj \<Rightarrow>
      (case string_member obj ''type'' of
        None \<Rightarrow> make_denied ''0'' ''missing event type''
      | Some event_type \<Rightarrow>
      if event_type = [] then make_denied ''0'' ''missing event type''
      else (case string_member obj ''sender'' of
        None \<Rightarrow> make_denied ''0'' ''missing sender''
      | Some sndr \<Rightarrow>
          if sndr = [] then make_denied ''0'' ''missing sender''
          else if event_type = ''m.room.create''
          then if value_has_content (am_create am) then make_denied ''1'' ''room already has a create event''
               else if create_event_rejection_reason obj policy \<noteq> []
               then make_denied ''1'' (create_event_rejection_reason obj policy)
               else make_allowed ''1''
          else if \<not> value_has_content (am_create am) then make_denied ''2'' ''room has no create event''
          else (case federation_denial (am_create am) policy sndr of
                  Some denial \<Rightarrow> denial
                | None \<Rightarrow>
                    if event_type = ''m.room.member'' then authorize_member S obj policy am sndr
                    else authorize_other_event obj policy am event_type sndr))))"

section \<open>What an allowed event entails\<close>

named_theorems auth_simps \<open>when each branch allows\<close>

lemma allowed_decisions [simp, auth_simps]: "\<not> allowed (make_denied step why)" "allowed (make_allowed step)"
  by (simp_all add: make_denied_def make_allowed_def)

lemma federation_denial_denies: "federation_denial c policy sndr = Some d \<Longrightarrow> \<not> allowed d"
  by (auto simp: federation_denial_def split: if_splits)

lemma authorize_allowed:
  "allowed (authorize_event_against_auth_events S event policy am) \<longleftrightarrow>
     (\<exists>obj event_type sndr. event = VObject obj
        \<and> string_member obj ''type'' = Some event_type \<and> event_type \<noteq> []
        \<and> string_member obj ''sender'' = Some sndr \<and> sndr \<noteq> []
        \<and> (if event_type = ''m.room.create''
           then \<not> value_has_content (am_create am) \<and> create_event_rejection_reason obj policy = []
           else value_has_content (am_create am) \<and> federation_denial (am_create am) policy sndr = None
                \<and> (if event_type = ''m.room.member'' then allowed (authorize_member S obj policy am sndr)
                   else allowed (authorize_other_event obj policy am event_type sndr))))"
  by (cases event)
    (auto simp: authorize_event_against_auth_events_def federation_denial_denies split: option.split)

lemma authorize_restricted_join_allowed [auth_simps]:
  "allowed (authorize_restricted_join event policy am) \<longleftrightarrow>
     (\<exists>u m. event_content_string event ''join_authorised_via_users_server'' = Some u \<and> u \<noteq> []
        \<and> am_authorising_user_member am = VObject m \<and> string_member m ''state_key'' = Some u
        \<and> parse_membership_state (extract_content_membership (VObject m)) = Some Join
        \<and> level_or_default am policy ''invite'' 0 \<le> user_power am policy u)"
  by (cases "am_authorising_user_member am")
    (auto simp: authorize_restricted_join_def split: option.split)

lemma authorize_leave_other [auth_simps]:
  "sndr \<noteq> state_key \<Longrightarrow>
     allowed (authorize_leave policy am state_key sndr sender_current target_current) \<longleftrightarrow>
       sender_current = Join
       \<and> (target_current = Ban \<longrightarrow> level_or_default am policy ''ban'' 50 \<le> user_power am policy sndr)
       \<and> level_or_default am policy ''kick'' 50 \<le> user_power am policy sndr
       \<and> user_power am policy state_key < user_power am policy sndr"
  by (auto simp: authorize_leave_def Let_def not_less)

lemma authorize_ban_allowed [auth_simps]:
  "allowed (authorize_ban policy am state_key sndr sender_current) \<longleftrightarrow>
     sender_current = Join \<and> level_or_default am policy ''ban'' 50 \<le> user_power am policy sndr
     \<and> user_power am policy state_key < user_power am policy sndr"
  by (auto simp: authorize_ban_def)

lemma authorize_third_party_invite_allowed [auth_simps]:
  "allowed (authorize_third_party_invite S tpi state_key sndr target_current tpi_event) \<longleftrightarrow>
     target_current \<noteq> Ban
     \<and> (\<exists>obj signed_obj token event_obj. tpi = VObject obj
          \<and> object_member_as_object obj ''signed'' = Some signed_obj
          \<and> string_member signed_obj ''mxid'' = Some state_key \<and> string_member signed_obj ''token'' = Some token
          \<and> tpi_event = VObject event_obj \<and> string_member event_obj ''state_key'' = Some token
          \<and> string_member event_obj ''sender'' = Some sndr
          \<and> third_party_invite_signature_is_valid S signed_obj tpi_event)"
  by (cases tpi; cases tpi_event)
    (auto simp: authorize_third_party_invite_def split: option.split)

definition third_party_invite_of :: "Object \<Rightarrow> Object option" where
  "third_party_invite_of obj =
     Option.bind (object_member_as_object obj ''content'')
       (\<lambda>content. object_member_as_object content ''third_party_invite'')"

lemma authorize_invite_allowed [auth_simps]:
  "allowed (authorize_invite S obj policy am state_key sndr sender_current target_current) \<longleftrightarrow>
     (case third_party_invite_of obj of
        Some tpi \<Rightarrow> allowed (authorize_third_party_invite S (VObject tpi) state_key sndr target_current
                              (am_third_party_invite am))
      | None \<Rightarrow> target_current \<noteq> Join \<and> target_current \<noteq> Ban \<and> sender_current = Join
                 \<and> level_or_default am policy ''invite'' 0 \<le> user_power am policy sndr)"
proof (cases "Option.bind (object_member_as_object obj ''content'')
    (\<lambda>content. object_member content ''third_party_invite'')")
  case None
  then have "third_party_invite_of obj = None"
    by (auto simp: third_party_invite_of_def object_member_as_object_def bind_eq_None_conv)
  with None show ?thesis by (simp add: authorize_invite_def Let_def not_less)
next
  case (Some v)
  then have "third_party_invite_of obj = value_is_object v"
    by (auto simp: third_party_invite_of_def object_member_as_object_def bind_eq_Some_conv)
  with Some show ?thesis
    by (cases v) (simp_all add: authorize_invite_def Let_def not_less)
qed

lemma authorize_state_event_allowed [auth_simps]:
  "allowed (authorize_state_event policy am sndr event_type) \<longleftrightarrow>
     events_map_level am event_type (level_or_default am policy ''state_default'' 50) \<le> user_power am policy sndr"
  by (auto simp: authorize_state_event_def Let_def)

lemma authorize_message_event_allowed [auth_simps]:
  "allowed (authorize_message_event policy am sndr event_type) \<longleftrightarrow>
     events_map_level am event_type (level_or_default am policy ''events_default'' 0) \<le> user_power am policy sndr"
  by (auto simp: authorize_message_event_def Let_def)

lemma authorize_power_levels_event_allowed:
  "allowed (authorize_power_levels_event obj policy am sndr) \<longleftrightarrow>
     (\<exists>content. object_member_as_object obj ''content'' = Some content
        \<and> power_levels_content_rejection_reason content policy = []
        \<and> \<not> (privilege_room_creators policy
             \<and> list_ex (\<lambda>entry. user_is_room_creator (am_create am) (fst entry) policy)
                 (entries_of (object_member_as_object content ''users'')))
        \<and> (value_has_content (am_power_levels am) \<longrightarrow>
             power_levels_change_reason policy am sndr content (user_power am policy sndr) = [])
        \<and> level_or_default am policy ''state_default'' 50 \<le> user_power am policy sndr)"
  by (auto simp: authorize_power_levels_event_def Let_def split: option.split)

lemma authorize_member_allowed:
  "allowed (authorize_member S obj policy am sndr) \<longleftrightarrow>
     (\<exists>state_key. string_member obj ''state_key'' = Some state_key \<and> state_key \<noteq> []
        \<and> (let m = extract_content_membership (VObject obj);
               sender_current = member_state (am_sender_member am);
               target_current = target_member_state am (sndr = state_key)
           in (m = ''join'' \<and> sndr = state_key
               \<and> allowed (authorize_join (VObject obj) policy am sndr target_current))
              \<or> (m = ''knock'' \<and> allowed (authorize_knock am (sndr = state_key) target_current))
              \<or> (m = ''invite'' \<and> allowed (authorize_invite S obj policy am state_key sndr sender_current target_current))
              \<or> (m = ''leave'' \<and> allowed (authorize_leave policy am state_key sndr sender_current target_current))
              \<or> (m = ''ban'' \<and> allowed (authorize_ban policy am state_key sndr sender_current))))"
  by (auto simp: authorize_member_def parse_membership_state_def Let_def split: option.split if_splits)

end
