(* ===== verification/State_Resolution.thy ===== *)
theory State_Resolution
  imports Authorization
begin

text \<open>
  State resolution: \<open>src/events/state_resolution.cpp\<close>. The two algorithms, \<open>resolve_state\<close>
  (room version 1: greatest depth, then smallest event id) and \<open>resolve_state_v2\<close> (power events
  first, then the mainline ordering, each event applied when it passes the authorization rules
  of \<open>Authorization\<close>), with their caps.

  An \<open>unordered_map\<close> is an association list with distinct keys, updated with \<open>AList.update\<close>;
  the order in which the code reads a map out is unspecified, so results are compared as maps or
  sets. \<open>uint64_t\<close> depths and \<open>size_t\<close> positions are only compared and are natural numbers;
  \<open>value_has_content\<close> and \<open>power_level_value\<close> are copies of the functions of
  \<open>authorization.cpp\<close>. Log output is left out.

  This theory holds the definitions, the algorithm of room version 1 and the mainline walk;
  \<open>State_Resolution_V2\<close> has the results on \<open>resolve_state_v2\<close>.
\<close>

section \<open>State\<close>

record StateKey =
  sk_event_type :: string
  sk_state_key :: string

record StateEventReference =
  se_key :: StateKey
  se_event_id :: string
  se_sender :: string
  se_origin_server_ts :: int
  se_depth :: nat
  se_json :: Value

record StateGroup =
  sg_group_id :: string
  sg_state :: "StateEventReference list"

record StateResolutionRequest =
  sr_room_version :: string
  sr_state_groups :: "StateGroup list"

record StateResolutionResult =
  res_resolved :: bool
  res_state :: "StateEventReference list"
  res_reason :: string

type_synonym StateMap = "(StateKey \<times> StateEventReference) list"
type_synonym EventJsonIndex = "(string \<times> Value) list"

definition make_state_key :: "string \<Rightarrow> string \<Rightarrow> StateKey" where
  "make_state_key event_type key = \<lparr>sk_event_type = event_type, sk_state_key = key\<rparr>"

definition make_result :: "bool \<Rightarrow> StateEventReference list \<Rightarrow> string \<Rightarrow> StateResolutionResult" where
  "make_result resolved state reason = \<lparr>res_resolved = resolved, res_state = state, res_reason = reason\<rparr>"

definition state_key_matches :: "StateKey \<Rightarrow> StateKey \<Rightarrow> bool" where
  "state_key_matches l r \<longleftrightarrow> sk_event_type l = sk_event_type r \<and> sk_state_key l = sk_state_key r"

definition state_group_event :: "StateGroup \<Rightarrow> StateKey \<Rightarrow> StateEventReference option" where
  "state_group_event grp key = find (\<lambda>event. state_key_matches (se_key event) key) (sg_state grp)"

definition state_group_contains :: "StateGroup \<Rightarrow> StateKey \<Rightarrow> bool" where
  "state_group_contains grp key \<longleftrightarrow> state_group_event grp key \<noteq> None"

text \<open>The public caps of \<open>limits.hpp\<close>.\<close>

abbreviation max_state_groups :: nat where "max_state_groups \<equiv> 1000"
abbreviation max_events_per_state_group :: nat where "max_events_per_state_group \<equiv> 10000"
abbreviation max_conflicted_state_keys :: nat where "max_conflicted_state_keys \<equiv> 10000"
abbreviation max_mainline_auth_chain_depth :: nat where "max_mainline_auth_chain_depth \<equiv> 10000"

definition validate_state_resolution_request :: "StateResolutionRequest \<Rightarrow> string option" where
  "validate_state_resolution_request request =
     (if length (sr_state_groups request) > max_state_groups then Some ''too many state groups''
      else if list_ex (\<lambda>grp. length (sg_state grp) > max_events_per_state_group) (sr_state_groups request)
      then Some ''too many events in state group''
      else None)"

text \<open>All events of a request, in the order the nested loops visit them.\<close>

abbreviation group_events :: "StateGroup list \<Rightarrow> StateEventReference list" where
  "group_events groups \<equiv> concat (map sg_state groups)"

section \<open>Room version 1\<close>

definition select_v1_winner :: "StateEventReference \<Rightarrow> StateEventReference \<Rightarrow> StateEventReference" where
  "select_v1_winner existing candidate =
     (if se_depth candidate \<noteq> se_depth existing
      then if se_depth candidate > se_depth existing then candidate else existing
      else if se_event_id candidate < se_event_id existing then candidate else existing)"

definition resolve_v1_event :: "StateMap \<Rightarrow> StateEventReference \<Rightarrow> StateMap" where
  "resolve_v1_event resolved event =
     (case map_of resolved (se_key event) of
        None \<Rightarrow> AList.update (se_key event) event resolved
      | Some existing \<Rightarrow>
          if se_event_id existing = se_event_id event then resolved
          else AList.update (se_key event) (select_v1_winner existing event) resolved)"

fun resolve_v1_events :: "StateMap \<Rightarrow> StateEventReference list \<Rightarrow> StateMap option" where
  "resolve_v1_events resolved [] = Some resolved"
| "resolve_v1_events resolved (event # events) =
     (if se_event_id event = [] then None
      else resolve_v1_events (resolve_v1_event resolved event) events)"

definition resolve_state :: "StateResolutionRequest \<Rightarrow> StateResolutionResult" where
  "resolve_state request =
     (if sr_room_version request = [] then make_result False [] ''room version is required''
      else case validate_state_resolution_request request of
             Some problem \<Rightarrow> make_result False [] problem
           | None \<Rightarrow>
               if sr_state_groups request = [] then make_result True [] []
               else case resolve_v1_events [] (group_events (sr_state_groups request)) of
                      None \<Rightarrow> make_result False [] ''state event id is required''
                    | Some resolved \<Rightarrow> make_result True (map snd resolved) [])"

section \<open>Conflicted and unconflicted state\<close>

fun count_state_keys :: "(StateKey \<times> nat) list \<Rightarrow> StateEventReference list \<Rightarrow> (StateKey \<times> nat) list option" where
  "count_state_keys counts [] = Some counts"
| "count_state_keys counts (event # events) =
     (let counted = AList.update (se_key event)
            (case map_of counts (se_key event) of None \<Rightarrow> 1 | Some n \<Rightarrow> n + 1) counts
      in if length counted > max_conflicted_state_keys then None
         else count_state_keys counted events)"

definition partition_event :: "nat \<Rightarrow> (StateKey \<times> nat) list \<Rightarrow> StateMap \<times> StateMap \<Rightarrow> StateEventReference \<Rightarrow> StateMap \<times> StateMap" where
  "partition_event total_groups counts maps event =
     (let (unconflicted, conflicted) = maps; key = se_key event
      in if map_of counts key = Some total_groups
         then case map_of unconflicted key of
                None \<Rightarrow> (AList.update key event unconflicted, conflicted)
              | Some moved \<Rightarrow>
                  if se_event_id moved \<noteq> se_event_id event
                  then (AList.delete key unconflicted, AList.update key event (AList.update key moved conflicted))
                  else (unconflicted, conflicted)
         else (unconflicted, AList.update key event conflicted))"

definition partition_conflicted_state :: "StateGroup list \<Rightarrow> StateMap \<times> StateMap" where
  "partition_conflicted_state groups =
     (case count_state_keys [] (group_events groups) of
        None \<Rightarrow> ([], [])
      | Some counts \<Rightarrow> foldl (partition_event (length groups) counts) ([], []) (group_events groups))"

section \<open>Reverse topological power ordering\<close>

definition extract_user_power :: "Value \<Rightarrow> string \<Rightarrow> RoomVersionPolicy \<Rightarrow> int" where
  "extract_user_power power_levels_event user_id policy =
     (case event_content power_levels_event of
        None \<Rightarrow> 0
      | Some content \<Rightarrow>
          (let strs = \<not> power_levels_require_integers policy;
               default_level = (case power_level_value (object_member content ''users_default'') strs of
                                  Some l \<Rightarrow> l | None \<Rightarrow> 0)
           in case object_member_as_object content ''users'' of
                None \<Rightarrow> default_level
              | Some users \<Rightarrow>
                  (case power_level_value (object_member users user_id) strs of
                     Some l \<Rightarrow> l | None \<Rightarrow> default_level)))"

definition power_level_from_event :: "StateEventReference \<Rightarrow> StateMap \<Rightarrow> RoomVersionPolicy \<Rightarrow> int" where
  "power_level_from_event event unconflicted policy =
     (if sk_event_type (se_key event) = ''m.room.power_levels'' \<and> sk_state_key (se_key event) = []
      then extract_user_power (se_json event) (se_sender event) policy
      else case map_of unconflicted (make_state_key ''m.room.power_levels'' []) of
             None \<Rightarrow> 0
           | Some pl \<Rightarrow>
               if value_has_content (se_json pl) then extract_user_power (se_json pl) (se_sender event) policy
               else 0)"

definition reverse_topo_compare ::
  "StateMap \<Rightarrow> RoomVersionPolicy \<Rightarrow> StateEventReference \<Rightarrow> StateEventReference \<Rightarrow> bool" where
  "reverse_topo_compare unconflicted policy a b =
     (let pa = power_level_from_event a unconflicted policy;
          pb = power_level_from_event b unconflicted policy
      in if pa \<noteq> pb then pa > pb
         else if se_origin_server_ts a \<noteq> se_origin_server_ts b
         then se_origin_server_ts a < se_origin_server_ts b
         else se_event_id a < se_event_id b)"

definition reverse_topological_power_sort ::
  "StateEventReference list \<Rightarrow> StateMap \<Rightarrow> RoomVersionPolicy \<Rightarrow> StateEventReference list" where
  "reverse_topological_power_sort conflicted unconflicted policy =
     stable_sort (reverse_topo_compare unconflicted policy) conflicted"

definition is_power_event :: "StateEventReference \<Rightarrow> bool" where
  "is_power_event event =
     (if sk_event_type (se_key event) = ''m.room.power_levels'' \<or> sk_event_type (se_key event) = ''m.room.join_rules''
      then sk_state_key (se_key event) = []
      else if sk_event_type (se_key event) \<noteq> ''m.room.member'' then False
      else case event_content_string (se_json event) ''membership'' of
             None \<Rightarrow> False
           | Some membership \<Rightarrow>
               (membership = ''leave'' \<or> membership = ''ban'') \<and> se_sender event \<noteq> sk_state_key (se_key event))"

section \<open>Mainline ordering\<close>

fun auth_entry_event_id :: "Value \<Rightarrow> string option" where
  "auth_entry_event_id (VString i) = Some i"
| "auth_entry_event_id (VArray (entry # entries)) = get_if_string entry"
| "auth_entry_event_id _ = None"

definition is_power_levels_entry :: "EventJsonIndex \<Rightarrow> string \<Rightarrow> bool" where
  "is_power_levels_entry events_by_id event_id =
     (case Option.bind (map_of events_by_id event_id) value_is_object of
        None \<Rightarrow> False
      | Some obj \<Rightarrow> string_member obj ''type'' = Some ''m.room.power_levels'')"

definition power_levels_auth_ancestor :: "Object \<Rightarrow> EventJsonIndex \<Rightarrow> string option" where
  "power_levels_auth_ancestor event_json events_by_id =
     (case array_member event_json ''auth_events'' of
        None \<Rightarrow> None
      | Some auth \<Rightarrow> find (is_power_levels_entry events_by_id) (List.map_filter auth_entry_event_id auth))"

definition build_event_json_index :: "StateGroup list \<Rightarrow> EventJsonIndex" where
  "build_event_json_index groups =
     foldl (\<lambda>index event.
        if se_event_id event \<noteq> [] \<and> value_has_content (se_json event)
           \<and> map_of index (se_event_id event) = None
        then AList.update (se_event_id event) (se_json event) index else index) [] (group_events groups)"

text \<open>
  The walk along the power levels events. The number of steps left is the cap minus the length
  of the result, and the result lists the visited ids.
\<close>

fun mainline_walk :: "EventJsonIndex \<Rightarrow> nat \<Rightarrow> string list \<Rightarrow> string \<Rightarrow> Object option \<Rightarrow> string list" where
  "mainline_walk events_by_id 0 result current_id current = result"
| "mainline_walk events_by_id (Suc n) result current_id current =
     (case current of
        None \<Rightarrow> result
      | Some obj \<Rightarrow>
          if current_id = [] \<or> current_id \<in> set result then result
          else case power_levels_auth_ancestor obj events_by_id of
                 None \<Rightarrow> result @ [current_id]
               | Some ancestor_id \<Rightarrow>
                   mainline_walk events_by_id n (result @ [current_id]) ancestor_id
                     (Option.bind (map_of events_by_id ancestor_id) value_is_object))"

definition collect_mainline_power_events :: "string \<Rightarrow> Value \<Rightarrow> EventJsonIndex \<Rightarrow> string list" where
  "collect_mainline_power_events head_event_id power_levels_event events_by_id =
     mainline_walk events_by_id max_mainline_auth_chain_depth [] head_event_id (value_is_object power_levels_event)"

abbreviation infinite_position :: nat where
  "infinite_position \<equiv> 18446744073709551615"

text \<open>The index of an id on the mainline: the map \<open>mainline_depth\<close> of the code.\<close>

definition mainline_depth :: "string list \<Rightarrow> (string \<times> nat) list" where
  "mainline_depth mainline = zip mainline [0..<length mainline]"

fun position_walk :: "EventJsonIndex \<Rightarrow> (string \<times> nat) list \<Rightarrow> nat \<Rightarrow> string list \<Rightarrow> Object option \<Rightarrow> nat" where
  "position_walk events_by_id depths 0 visited current = infinite_position"
| "position_walk events_by_id depths (Suc hops_left) visited current =
     (case current of
        None \<Rightarrow> infinite_position
      | Some obj \<Rightarrow>
     (case array_member obj ''auth_events'' of
        None \<Rightarrow> infinite_position
      | Some auth \<Rightarrow>
     (case find (\<lambda>i. map_of depths i \<noteq> None) (List.map_filter auth_entry_event_id auth) of
        Some i \<Rightarrow> the (map_of depths i)
      | None \<Rightarrow>
     (case power_levels_auth_ancestor obj events_by_id of
        None \<Rightarrow> infinite_position
      | Some ancestor_id \<Rightarrow>
          if ancestor_id \<in> set visited then infinite_position
          else position_walk events_by_id depths hops_left (ancestor_id # visited)
                 (Option.bind (map_of events_by_id ancestor_id) value_is_object)))))"

definition mainline_position :: "EventJsonIndex \<Rightarrow> (string \<times> nat) list \<Rightarrow> StateEventReference \<Rightarrow> nat" where
  "mainline_position events_by_id depths event =
     position_walk events_by_id depths max_mainline_auth_chain_depth [] (value_is_object (se_json event))"

definition resolved_mainline :: "StateMap \<Rightarrow> EventJsonIndex \<Rightarrow> string list" where
  "resolved_mainline resolved events_by_id =
     (case map_of resolved (make_state_key ''m.room.power_levels'' []) of
        None \<Rightarrow> []
      | Some pl \<Rightarrow>
          if value_has_content (se_json pl)
          then collect_mainline_power_events (se_event_id pl) (se_json pl) events_by_id else [])"

definition event_position :: "StateMap \<Rightarrow> EventJsonIndex \<Rightarrow> StateEventReference \<Rightarrow> nat" where
  "event_position resolved events_by_id event =
     (let mainline = resolved_mainline resolved events_by_id
      in if length mainline \<ge> max_mainline_auth_chain_depth then infinite_position
         else mainline_position events_by_id (mainline_depth mainline) event)"

text \<open>\<open>position_by_event_id\<close>: the first event with an id decides its position.\<close>

definition mainline_positions :: "StateMap \<Rightarrow> EventJsonIndex \<Rightarrow> StateEventReference list \<Rightarrow> (string \<times> nat) list" where
  "mainline_positions resolved events_by_id events =
     foldl (\<lambda>positions event.
        if map_of positions (se_event_id event) = None
        then AList.update (se_event_id event) (event_position resolved events_by_id event) positions
        else positions) [] events"

definition mainline_compare :: "(string \<Rightarrow> nat) \<Rightarrow> StateEventReference \<Rightarrow> StateEventReference \<Rightarrow> bool" where
  "mainline_compare position a b =
     (if position (se_event_id a) \<noteq> position (se_event_id b)
      then position (se_event_id a) > position (se_event_id b)
      else if se_origin_server_ts a \<noteq> se_origin_server_ts b
      then se_origin_server_ts a < se_origin_server_ts b
      else se_event_id a < se_event_id b)"

definition mainline_order :: "StateEventReference list \<Rightarrow> StateMap \<Rightarrow> EventJsonIndex \<Rightarrow> StateEventReference list" where
  "mainline_order events resolved events_by_id =
     (let positions = mainline_positions resolved events_by_id events
      in stable_sort (mainline_compare (\<lambda>i. the (map_of positions i))) events)"

section \<open>Room version 2 and later\<close>

definition state_json :: "StateMap \<Rightarrow> StateKey \<Rightarrow> Value" where
  "state_json current_state key =
     (case map_of current_state key of None \<Rightarrow> VNull | Some event \<Rightarrow> se_json event)"

definition build_auth_event_map_from_state :: "Value \<Rightarrow> StateMap \<Rightarrow> AuthEventMap" where
  "build_auth_event_map_from_state event current_state =
     (let member_json = (\<lambda>user. state_json current_state (make_state_key ''m.room.member'' user));
          empty_map = \<lparr>am_create = VNull, am_power_levels = VNull, am_join_rules = VNull, am_sender_member = VNull,
            am_target_member = VNull, am_authorising_user_member = VNull, am_third_party_invite = VNull\<rparr>
      in case value_is_object event of
        None \<Rightarrow> empty_map
      | Some obj \<Rightarrow>
          (let sndr = string_member obj ''sender'';
               key = string_member obj ''state_key'';
               is_member = (key \<noteq> None \<and> string_member obj ''type'' = Some ''m.room.member'');
               content = object_member_as_object obj ''content'';
               token = Option.bind content (\<lambda>c. Option.bind (object_member_as_object c ''third_party_invite'')
                         (\<lambda>tpi. Option.bind (object_member_as_object tpi ''signed'') (\<lambda>s. string_member s ''token'')));
               joining = (Option.bind content (\<lambda>c. string_member c ''membership'') = Some ''join'');
               authorising_user = Option.bind content (\<lambda>c. string_member c ''join_authorised_via_users_server'')
           in \<lparr>am_create = state_json current_state (make_state_key ''m.room.create'' []),
               am_power_levels = state_json current_state (make_state_key ''m.room.power_levels'' []),
               am_join_rules = state_json current_state (make_state_key ''m.room.join_rules'' []),
               am_sender_member = (case sndr of None \<Rightarrow> VNull | Some user \<Rightarrow> member_json user),
               am_target_member = (if is_member then member_json (the key) else VNull),
               am_authorising_user_member =
                 (case authorising_user of
                    None \<Rightarrow> VNull
                  | Some user \<Rightarrow> if is_member \<and> joining \<and> user \<noteq> [] then member_json user else VNull),
               am_third_party_invite =
                 (case token of
                    None \<Rightarrow> VNull
                  | Some t \<Rightarrow> if is_member then state_json current_state (make_state_key ''m.room.third_party_invite'' t)
                              else VNull)\<rparr>))"

fun collect_conflicted ::
  "StateMap \<Rightarrow> StateEventReference list \<Rightarrow> StateEventReference list \<Rightarrow> StateEventReference list option" where
  "collect_conflicted conflicted_events all_conflicted [] = Some all_conflicted"
| "collect_conflicted conflicted_events all_conflicted (event # events) =
     (if map_of conflicted_events (se_key event) = None
         \<or> list_ex (\<lambda>existing. state_key_matches (se_key existing) (se_key event)
                                 \<and> se_event_id existing = se_event_id event) all_conflicted
      then collect_conflicted conflicted_events all_conflicted events
      else if length all_conflicted + 1 > max_conflicted_state_keys then None
      else collect_conflicted conflicted_events (all_conflicted @ [event]) events)"

definition passes_auth :: "Sodium \<Rightarrow> RoomVersionPolicy \<Rightarrow> StateMap \<Rightarrow> StateEventReference \<Rightarrow> bool" where
  "passes_auth S policy resolved event \<longleftrightarrow>
     value_has_content (se_json event)
     \<and> allowed (authorize_event_against_auth_events S (se_json event) policy
                  (build_auth_event_map_from_state (se_json event) resolved))"

definition put_event :: "StateMap \<Rightarrow> StateEventReference \<Rightarrow> StateMap" where
  "put_event resolved event = AList.update (se_key event) event resolved"

definition apply_iterative_auth_checks ::
  "Sodium \<Rightarrow> RoomVersionPolicy \<Rightarrow> StateMap \<Rightarrow> StateEventReference list \<Rightarrow> StateMap" where
  "apply_iterative_auth_checks S policy resolved sorted_events =
     foldl (\<lambda>resolved event. if passes_auth S policy resolved event then put_event resolved event else resolved)
       resolved sorted_events"

definition resolve_conflicted ::
  "Sodium \<Rightarrow> RoomVersionPolicy \<Rightarrow> StateGroup list \<Rightarrow> StateMap \<Rightarrow> StateEventReference list \<Rightarrow> StateMap" where
  "resolve_conflicted S policy groups unconflicted all_conflicted =
     (let power_events = filter is_power_event all_conflicted;
          remaining_events = filter (\<lambda>event. \<not> is_power_event event) all_conflicted;
          sorted_power = reverse_topological_power_sort power_events unconflicted policy;
          partially_resolved = apply_iterative_auth_checks S policy unconflicted sorted_power;
          ordered = mainline_order remaining_events partially_resolved (build_event_json_index groups)
      in apply_iterative_auth_checks S policy partially_resolved ordered)"

definition resolve_state_v2 :: "Sodium \<Rightarrow> StateResolutionRequest \<Rightarrow> RoomVersionPolicy \<Rightarrow> StateResolutionResult" where
  "resolve_state_v2 S request policy =
     (case validate_state_resolution_request request of
        Some problem \<Rightarrow> make_result False [] problem
      | None \<Rightarrow>
          if sr_state_groups request = [] then make_result True [] []
          else (let (unconflicted, conflicted_events) = partition_conflicted_state (sr_state_groups request)
                in if unconflicted = [] \<and> conflicted_events = [] then make_result False [] ''too many state keys''
                   else case collect_conflicted conflicted_events [] (group_events (sr_state_groups request)) of
                          None \<Rightarrow> make_result False [] ''too many conflicted events''
                        | Some all_conflicted \<Rightarrow>
                            make_result True
                              (map snd (resolve_conflicted S policy (sr_state_groups request) unconflicted all_conflicted))
                              []))"

definition state_resolution_summary :: "StateResolutionResult \<Rightarrow> string" where
  "state_resolution_summary result =
     ''state resolution: resolved='' @ (if res_resolved result then ''true'' else ''false'')
     @ '' events='' @ nat_to_string (length (res_state result)) @ '' reason='' @ res_reason result"

section \<open>State maps\<close>

text \<open>The invariant of a state map: one entry per key, and every event stands under its own key.\<close>

definition state_map :: "StateMap \<Rightarrow> bool" where
  "state_map m \<longleftrightarrow> distinct (map fst m) \<and> (\<forall>k e. map_of m k = Some e \<longrightarrow> se_key e = k)"

lemma state_map_empty [simp]: "state_map []"
  by (simp add: state_map_def)

lemma state_map_update [simp]: "state_map m \<Longrightarrow> state_map (AList.update (se_key e) e m)"
  by (auto simp: state_map_def distinct_update update_conv')

lemma state_map_delete [simp]: "state_map m \<Longrightarrow> state_map (AList.delete k m)"
  by (auto simp: state_map_def distinct_delete delete_conv')

lemma state_map_keys: "state_map m \<Longrightarrow> map se_key (map snd m) = map fst m"
  by (auto simp: state_map_def)

lemma state_map_ran: "state_map m \<Longrightarrow> set (map snd m) = ran (map_of m)"
  by (auto simp: state_map_def ran_distinct)

lemma state_map_events: "state_map m \<Longrightarrow> e \<in> set (map snd m) \<longleftrightarrow> map_of m (se_key e) = Some e"
  unfolding state_map_ran by (auto simp: state_map_def ran_def)

lemma state_key_matches_iff [simp]: "state_key_matches l r \<longleftrightarrow> l = r"
  by (cases l; cases r) (simp add: state_key_matches_def)

section \<open>The winners of room version 1\<close>

definition v1_precedes :: "StateEventReference \<Rightarrow> StateEventReference \<Rightarrow> bool" where
  "v1_precedes e e' \<longleftrightarrow> se_depth e > se_depth e' \<or> se_depth e = se_depth e' \<and> se_event_id e < se_event_id e'"

interpretation v1_order: identity_order v1_precedes se_event_id
  by unfold_locales (auto simp: v1_precedes_def)

lemma select_v1_winner_precedes:
  "select_v1_winner x e = (if v1_precedes e x then e else x)"
  by (auto simp: select_v1_winner_def v1_precedes_def)

lemma resolve_v1_events_iff:
  "resolve_v1_events m es = (if list_all (\<lambda>e. se_event_id e \<noteq> []) es then Some (foldl resolve_v1_event m es) else None)"
  by (induction es arbitrary: m) auto

lemma map_of_resolve_v1_event:
  "map_of (resolve_v1_event m e) k =
     (if se_key e \<noteq> k then map_of m k
      else Some (case map_of m k of None \<Rightarrow> e
        | Some x \<Rightarrow> if se_event_id x = se_event_id e then x else select_v1_winner x e))"
  by (auto simp: resolve_v1_event_def update_conv' split: option.splits)

lemma state_map_resolve_v1_event: "state_map m \<Longrightarrow> state_map (resolve_v1_event m e)"
proof -
  assume m: "state_map m"
  have "state_map (AList.update (se_key e) (select_v1_winner x e) m)" if "map_of m (se_key e) = Some x" for x
  proof -
    have "se_key (select_v1_winner x e) = se_key e"
      using m that by (auto simp: state_map_def select_v1_winner_def)
    with m state_map_update [of m "select_v1_winner x e"] show ?thesis by simp
  qed
  with m show ?thesis
    by (auto simp: resolve_v1_event_def split: option.splits)
qed

definition v1_best :: "StateEventReference set \<Rightarrow> StateEventReference \<Rightarrow> bool" where
  "v1_best E w \<longleftrightarrow> w \<in> E \<and> (\<forall>e \<in> E. se_key e = se_key w \<longrightarrow> e = w \<or> v1_precedes w e)"

lemma v1_fold:
  assumes "inj_on se_event_id (set es)"
  shows "state_map (foldl resolve_v1_event [] es)
     \<and> (\<forall>k. case map_of (foldl resolve_v1_event [] es) k of
          None \<Rightarrow> \<forall>e \<in> set es. se_key e \<noteq> k
        | Some w \<Rightarrow> se_key w = k \<and> v1_best (set es) w)"
  using assms
proof (induction es rule: rev_induct)
  case (snoc e es)
  let ?m = "foldl resolve_v1_event [] es"
  have IH: "state_map ?m" "\<And>k. case map_of ?m k of None \<Rightarrow> \<forall>e \<in> set es. se_key e \<noteq> k
        | Some w \<Rightarrow> se_key w = k \<and> v1_best (set es) w"
    using snoc.IH snoc.prems by (simp_all add: inj_on_Un)
  have "case map_of (resolve_v1_event ?m e) k of None \<Rightarrow> \<forall>e \<in> set (es @ [e]). se_key e \<noteq> k
        | Some w \<Rightarrow> se_key w = k \<and> v1_best (set (es @ [e])) w" for k
  proof (cases "map_of ?m k")
    case None
    with IH(2) [of k] show ?thesis
      by (auto simp: map_of_resolve_v1_event v1_best_def)
  next
    case (Some x)
    with IH(2) [of k] have x: "se_key x = k" "x \<in> set es" "\<And>e'. e' \<in> set es \<Longrightarrow> se_key e' = k \<Longrightarrow> e' = x \<or> v1_precedes x e'"
      by (simp_all add: v1_best_def)
    have eq: "se_event_id x = se_event_id e \<longleftrightarrow> x = e"
      using snoc.prems x(2) by (auto simp: inj_on_def)
    show ?thesis
    proof (cases "se_key e = k \<and> x \<noteq> e \<and> v1_precedes e x")
      case True
      then have "v1_precedes e e'" if "e' \<in> set es" "se_key e' = k" for e'
        using x(3) [OF that] v1_order.lt_trans [of e x e'] by blast
      with True Some eq show ?thesis
        by (auto simp: map_of_resolve_v1_event v1_best_def select_v1_winner_precedes)
    next
      case False
      then have "se_key e = k \<Longrightarrow> e = x \<or> v1_precedes x e"
        using v1_order.lt_separates [of x e] eq by blast
      moreover from this have "map_of (resolve_v1_event ?m e) k = Some x"
        using Some eq v1_order.lt_asym [of x e]
        by (auto simp: map_of_resolve_v1_event select_v1_winner_precedes v1_order.lt_irrefl)
      ultimately show ?thesis
        using x by (simp add: v1_best_def)
    qed
  qed
  with IH(1) show ?case by (simp add: state_map_resolve_v1_event)
qed simp

lemma v1_resolved:
  assumes "inj_on se_event_id (set es)"
  defines "m \<equiv> foldl resolve_v1_event [] es"
  shows "set (map snd m) = {w. v1_best (set es) w}"
    and "distinct (map se_key (map snd m))"
    and "se_key ` set (map snd m) = se_key ` set es"
proof -
  have m: "state_map m" and look: "\<And>k. case map_of m k of None \<Rightarrow> \<forall>e \<in> set es. se_key e \<noteq> k
        | Some w \<Rightarrow> se_key w = k \<and> v1_best (set es) w"
    using v1_fold [OF assms(1)] unfolding m_def by blast+
  have "w \<in> set (map snd m) \<longleftrightarrow> v1_best (set es) w" for w
  proof
    assume "w \<in> set (map snd m)"
    with m look [of "se_key w"] show "v1_best (set es) w" by (simp only: state_map_events) simp
  next
    assume w: "v1_best (set es) w"
    with look [of "se_key w"] obtain x where x: "map_of m (se_key w) = Some x" "se_key x = se_key w" "v1_best (set es) x"
      by (auto simp: v1_best_def split: option.splits)
    with w have "x = w" using v1_order.lt_asym by (metis v1_best_def)
    with x m show "w \<in> set (map snd m)" by (simp only: state_map_events)
  qed
  then show best: "set (map snd m) = {w. v1_best (set es) w}" by blast
  show "distinct (map se_key (map snd m))"
    using m by (simp only: state_map_keys) (simp add: state_map_def)
  have "\<exists>w. v1_best (set es) w \<and> se_key w = se_key e" if "e \<in> set es" for e
    using look [of "se_key e"] that by (auto split: option.splits)
  then show "se_key ` set (map snd m) = se_key ` set es"
    unfolding best by (fastforce simp: v1_best_def)
qed

text \<open>
  Room version 1: a well-formed request resolves, and the resolved state holds, for every
  state key of the request, exactly one event, the one of greatest depth and among those the one
  with the smallest event id. So the outcome does not depend on the order of groups and events.
\<close>
theorem resolve_state_winners:
  assumes "sr_room_version request \<noteq> []"
    and "validate_state_resolution_request request = None"
    and "list_all (\<lambda>e. se_event_id e \<noteq> []) (group_events (sr_state_groups request))"
    and "inj_on se_event_id (set (group_events (sr_state_groups request)))"
  shows "res_resolved (resolve_state request)
     \<and> set (res_state (resolve_state request))
         = {w \<in> set (group_events (sr_state_groups request)).
              \<forall>e \<in> set (group_events (sr_state_groups request)). se_key e = se_key w \<longrightarrow> e = w \<or> v1_precedes w e}
     \<and> distinct (map se_key (res_state (resolve_state request)))
     \<and> se_key ` set (res_state (resolve_state request)) = se_key ` set (group_events (sr_state_groups request))"
  using assms(1-3) v1_resolved [OF assms(4)]
  by (simp add: resolve_state_def resolve_v1_events_iff make_result_def v1_best_def del: set_concat set_map)

definition sample_topic :: "string \<Rightarrow> nat \<Rightarrow> StateEventReference" where
  "sample_topic event_id d = \<lparr>se_key = make_state_key ''m.room.topic'' [], se_event_id = event_id, se_sender = ''@a:x'',
     se_origin_server_ts = 1, se_depth = d, se_json = VNull\<rparr>"

definition topic_request :: StateResolutionRequest where
  "topic_request = \<lparr>sr_room_version = ''1'', sr_state_groups =
     [\<lparr>sg_group_id = ''g1'', sg_state = [sample_topic ''$b'' 3]\<rparr>,
      \<lparr>sg_group_id = ''g2'', sg_state = [sample_topic ''$a'' 3]\<rparr>,
      \<lparr>sg_group_id = ''g3'', sg_state = [sample_topic ''$0'' 2]\<rparr>]\<rparr>"

theorem resolve_state_winners_witness:
  "set (res_state (resolve_state topic_request)) = {sample_topic ''$a'' 3} \<and> res_resolved (resolve_state topic_request)"
proof -
  have "sr_room_version topic_request \<noteq> []" and "validate_state_resolution_request topic_request = None"
    and "list_all (\<lambda>e. se_event_id e \<noteq> []) (group_events (sr_state_groups topic_request))"
    by code_simp+
  moreover have "inj_on se_event_id (set (group_events (sr_state_groups topic_request)))"
    by (simp add: topic_request_def sample_topic_def)
  ultimately have "res_resolved (resolve_state topic_request)"
    and "set (res_state (resolve_state topic_request)) = {w \<in> set (group_events (sr_state_groups topic_request)).
       \<forall>e \<in> set (group_events (sr_state_groups topic_request)). se_key e = se_key w \<longrightarrow> e = w \<or> v1_precedes w e}"
    using resolve_state_winners [of topic_request] by blast+
  moreover have "{w \<in> set (group_events (sr_state_groups topic_request)).
       \<forall>e \<in> set (group_events (sr_state_groups topic_request)). se_key e = se_key w \<longrightarrow> e = w \<or> v1_precedes w e}
     = {sample_topic ''$a'' 3}"
    by code_simp
  ultimately show ?thesis by simp
qed

section \<open>The mainline\<close>

text \<open>The next power levels event of the walk, starting from an event of the index.\<close>

definition mainline_parent :: "EventJsonIndex \<Rightarrow> string \<Rightarrow> string option" where
  "mainline_parent events_by_id event_id =
     Option.bind (Option.bind (map_of events_by_id event_id) value_is_object)
       (\<lambda>obj. power_levels_auth_ancestor obj events_by_id)"

definition mainline_ends :: "EventJsonIndex \<Rightarrow> string list \<Rightarrow> bool" where
  "mainline_ends events_by_id ids \<longleftrightarrow>
     (case mainline_parent events_by_id (last ids) of None \<Rightarrow> True | Some j \<Rightarrow> j \<in> set ids \<or> j = [])"

abbreviation mainline_step :: "EventJsonIndex \<Rightarrow> string \<Rightarrow> string \<Rightarrow> bool" where
  "mainline_step events_by_id i j \<equiv> mainline_parent events_by_id i = Some j \<and> is_power_levels_entry events_by_id j"

lemma power_levels_auth_ancestor_entry:
  "power_levels_auth_ancestor obj idx = Some j \<Longrightarrow> is_power_levels_entry idx j"
  by (auto simp: power_levels_auth_ancestor_def find_Some_iff split: option.splits)

lemma is_power_levels_entry_object:
  "is_power_levels_entry idx j \<Longrightarrow> \<exists>obj. Option.bind (map_of idx j) value_is_object = Some obj"
  by (auto simp: is_power_levels_entry_def split: option.splits)

lemma successively_snoc:
  "successively P (xs @ [x]) \<longleftrightarrow> successively P xs \<and> (xs \<noteq> [] \<longrightarrow> P (last xs) x)"
  by (auto simp: successively_append_iff)

lemma mainline_walk_chain:
  assumes "distinct result" and "[] \<notin> set result" and "successively (mainline_step idx) result"
    and "result \<noteq> [] \<longrightarrow> mainline_step idx (last result) current_id"
    and "current = Option.bind (map_of idx current_id) value_is_object"
    and "walk = mainline_walk idx n result current_id current"
  shows "distinct walk \<and> [] \<notin> set walk \<and> successively (mainline_step idx) walk \<and> prefix result walk
     \<and> length walk \<le> length result + n
     \<and> (walk \<noteq> [] \<and> length walk < length result + n \<longrightarrow> mainline_ends idx walk)"
  using assms
proof (induction n arbitrary: result current_id current)
  case (Suc n)
  show ?case
  proof (cases current)
    case None
    with Suc.prems is_power_levels_entry_object have "result = []" by fastforce
    with None Suc.prems(6) show ?thesis by simp
  next
    case (Some obj)
    show ?thesis
    proof (cases "current_id = [] \<or> current_id \<in> set result")
      case True
      with Some Suc.prems show ?thesis by (auto simp: mainline_ends_def)
    next
      case False
      have parent: "mainline_parent idx current_id = power_levels_auth_ancestor obj idx"
        using Some Suc.prems(5) by (simp add: mainline_parent_def)
      have grown: "distinct (result @ [current_id])" "[] \<notin> set (result @ [current_id])"
          "successively (mainline_step idx) (result @ [current_id])"
        using False Suc.prems by (auto simp: successively_snoc)
      show ?thesis
      proof (cases "power_levels_auth_ancestor obj idx")
        case None
        with Some False grown parent Suc.prems(6) show ?thesis by (auto simp: mainline_ends_def)
      next
        case (Some j)
        then have "mainline_step idx (last (result @ [current_id])) j"
          using parent power_levels_auth_ancestor_entry by simp
        from Suc.IH [OF grown _ refl, of j] this Suc.prems(6) Some False \<open>current = Some obj\<close> show ?thesis
          by (auto dest: append_prefixD)
      qed
    qed
  qed
qed simp

lemma mainline_walk_head:
  assumes "current_id \<noteq> []"
  shows "prefix [current_id] (mainline_walk idx (Suc n) [] current_id (Some obj))"
proof -
  have grows: "prefix result (mainline_walk idx n result i cur)" for n result i cur
    by (induction n arbitrary: result i cur) (auto split: option.splits dest: append_prefixD)
  with assms show ?thesis by (auto split: option.splits)
qed

text \<open>
  C18: the mainline walk ends on every input, cyclic or very deep authorization chains included:
  it lists at most 10000 distinct ids, starts at the resolved power levels event, follows in each
  step the power levels event the previous one cites, and below the cap it stops only where no
  further event is known or the chain closes a cycle.
\<close>
theorem mainline_is_bounded_chain:
  assumes "map_of idx head_id = Some power_levels_event" and "value_is_object power_levels_event = Some obj"
    and "head_id \<noteq> []"
  shows "let mainline = collect_mainline_power_events head_id power_levels_event idx
     in mainline \<noteq> [] \<and> hd mainline = head_id \<and> distinct mainline \<and> [] \<notin> set mainline
        \<and> successively (mainline_step idx) mainline
        \<and> length mainline \<le> max_mainline_auth_chain_depth
        \<and> (length mainline < max_mainline_auth_chain_depth \<longrightarrow> mainline_ends idx mainline)"
proof -
  let ?m = "collect_mainline_power_events head_id power_levels_event idx"
  have ten: "max_mainline_auth_chain_depth = Suc 9999" by simp
  have "prefix [head_id] ?m"
    using mainline_walk_head [OF assms(3), of idx 9999 obj] assms(2)
    unfolding collect_mainline_power_events_def ten by simp
  then have "?m \<noteq> [] \<and> hd ?m = head_id" by (auto simp: prefix_def)
  moreover have "distinct ?m \<and> [] \<notin> set ?m \<and> successively (mainline_step idx) ?m \<and> prefix [] ?m
     \<and> length ?m \<le> length ([] :: string list) + max_mainline_auth_chain_depth
     \<and> (?m \<noteq> [] \<and> length ?m < length ([] :: string list) + max_mainline_auth_chain_depth \<longrightarrow> mainline_ends idx ?m)"
    by (rule mainline_walk_chain [where current_id = head_id and current = "value_is_object power_levels_event"])
      (simp_all add: assms collect_mainline_power_events_def)
  ultimately show ?thesis by (simp add: Let_def)
qed

text \<open>Two power levels events that cite each other.\<close>

definition cyclic_power_levels :: "string \<Rightarrow> Object" where
  "cyclic_power_levels cited = [(''type'', VString ''m.room.power_levels''), (''auth_events'', VArray [VString cited])]"

definition cyclic_index :: EventJsonIndex where
  "cyclic_index = [(''$p'', VObject (cyclic_power_levels ''$q'')), (''$q'', VObject (cyclic_power_levels ''$p''))]"

theorem mainline_is_bounded_chain_witness:
  "collect_mainline_power_events ''$p'' (VObject (cyclic_power_levels ''$q'')) cyclic_index = [''$p'', ''$q'']
   \<and> successively (mainline_step cyclic_index) [''$p'', ''$q''] \<and> mainline_ends cyclic_index [''$p'', ''$q'']"
proof -
  have walk: "collect_mainline_power_events ''$p'' (VObject (cyclic_power_levels ''$q'')) cyclic_index = [''$p'', ''$q'']"
    by code_simp
  have "map_of cyclic_index ''$p'' = Some (VObject (cyclic_power_levels ''$q''))"
    and "value_is_object (VObject (cyclic_power_levels ''$q'')) = Some (cyclic_power_levels ''$q'')"
    by code_simp+
  from mainline_is_bounded_chain [OF this] walk show ?thesis by (simp add: Let_def)
qed

end
