(* ===== verification/State_Partition.thy ===== *)
theory State_Partition
  imports State_Resolution
begin

text \<open>
  The partition of state into conflicted and unconflicted keys (\<open>partition_conflicted_state\<close> in
  \<open>src/events/state_resolution.cpp\<close>). Each key is treated on its own: \<open>partition_entry\<close> is what
  the loop does to the entries of one key, and the theorem at the end compares the two maps with
  what the groups say.
\<close>

section \<open>Counting state keys\<close>

definition key_count :: "StateEventReference list \<Rightarrow> StateKey \<Rightarrow> nat" where
  "key_count es k = length (filter (\<lambda>e. se_key e = k) es)"

lemma key_count_simps [simp]:
  "key_count [] k = 0"
  "key_count (e # es) k = (if se_key e = k then Suc (key_count es k) else key_count es k)"
  by (simp_all add: key_count_def)

lemma key_count_0 [simp]: "key_count es k = 0 \<longleftrightarrow> k \<notin> se_key ` set es"
  by (induction es) auto

lemma card_keys: "distinct (map fst m) \<Longrightarrow> card (dom (map_of m)) = length m"
  by (simp add: dom_map_of_conv_image_fst distinct_card flip: set_map)

lemma count_state_keys_Some:
  assumes "count_state_keys counts es = Some counts'"
  shows "map_of counts' k =
     (case map_of counts k of
        None \<Rightarrow> if key_count es k = 0 then None else Some (key_count es k)
      | Some n \<Rightarrow> Some (n + key_count es k))"
  using assms
  by (induction es arbitrary: counts)
    (auto simp: Let_def update_conv' split: if_splits option.splits)

lemma count_state_keys_None:
  assumes "distinct (map fst counts)" and "length counts \<le> max_conflicted_state_keys"
  shows "count_state_keys counts es = None \<longleftrightarrow> card (dom (map_of counts) \<union> se_key ` set es) > max_conflicted_state_keys"
  using assms
proof (induction es arbitrary: counts)
  case (Cons e es)
  let ?c = "AList.update (se_key e) (case map_of counts (se_key e) of None \<Rightarrow> 1 | Some n \<Rightarrow> n + 1) counts"
  have d: "distinct (map fst ?c)" using Cons.prems by (simp add: distinct_update)
  have doms: "dom (map_of ?c) = insert (se_key e) (dom (map_of counts))"
    by (auto simp: update_conv')
  have "card (dom (map_of ?c)) \<le> card (insert (se_key e) (dom (map_of counts)) \<union> se_key ` set es)"
    unfolding doms by (rule card_mono) (auto simp: finite_dom_map_of)
  with card_keys [OF d] Cons.IH [OF d] show ?case
    by (auto simp: Let_def doms)
next
  case Nil
  then show ?case by (simp add: card_keys)
qed

section \<open>The partition, key by key\<close>

text \<open>What \<open>partition_event\<close> does to the two entries of one key.\<close>

definition partition_entry ::
  "bool \<Rightarrow> StateEventReference option \<times> StateEventReference option \<Rightarrow> StateEventReference
    \<Rightarrow> StateEventReference option \<times> StateEventReference option" where
  "partition_entry everywhere entries e =
     (if everywhere
      then case fst entries of
             None \<Rightarrow> (Some e, snd entries)
           | Some x \<Rightarrow> if se_event_id x \<noteq> se_event_id e then (None, Some e) else entries
      else (fst entries, Some e))"

definition entries_at :: "StateMap \<times> StateMap \<Rightarrow> StateKey \<Rightarrow> StateEventReference option \<times> StateEventReference option" where
  "entries_at maps k = (map_of (fst maps) k, map_of (snd maps) k)"

definition state_maps :: "StateMap \<times> StateMap \<Rightarrow> bool" where
  "state_maps maps \<longleftrightarrow> state_map (fst maps) \<and> state_map (snd maps)"

lemma state_maps_empty [simp]: "state_maps ([], [])"
  by (simp add: state_maps_def)

lemma partition_event_maps:
  assumes "state_maps maps"
  shows "state_maps (partition_event n counts maps e)"
proof -
  obtain u c where maps: "maps = (u, c)" by (cases maps)
  have u: "state_map u" and c: "state_map c" using assms by (simp_all add: maps state_maps_def)
  show ?thesis
  proof (cases "map_of u (se_key e)")
    case None
    with u c show ?thesis by (simp add: state_maps_def partition_event_def maps Let_def)
  next
    case (Some x)
    with u have "se_key x = se_key e" by (simp add: state_map_def)
    with c state_map_update [of c x] have "state_map (AList.update (se_key e) x c)" by simp
    with u c Some show ?thesis by (simp add: state_maps_def partition_event_def maps Let_def)
  qed
qed

lemma partition_event_entries:
  "entries_at (partition_event n counts maps e) k =
     (if se_key e = k then partition_entry (map_of counts k = Some n) (entries_at maps k) e else entries_at maps k)"
  by (cases maps; cases "map_of (fst maps) (se_key e)"; cases "se_key e = k")
    (simp_all add: entries_at_def partition_event_def partition_entry_def Let_def update_conv' delete_conv')

lemma partition_fold_entries:
  assumes "state_maps maps"
  shows "state_maps (foldl (partition_event n counts) maps es)"
    and "entries_at (foldl (partition_event n counts) maps es) k
      = foldl (partition_entry (map_of counts k = Some n)) (entries_at maps k) (filter (\<lambda>e. se_key e = k) es)"
  using assms by (induction es arbitrary: maps) (simp_all add: partition_event_entries partition_event_maps)

lemma entry_elsewhere:
  "foldl (partition_entry False) entries es = (if es = [] then entries else (fst entries, Some (last es)))"
  by (induction es arbitrary: entries) (auto simp: partition_entry_def)

definition agreeing :: "StateEventReference list \<Rightarrow> bool" where
  "agreeing es \<longleftrightarrow> (\<exists>i. \<forall>e \<in> set es. se_event_id e = i)"

lemma agreeing_simps [simp]:
  "agreeing []" "agreeing [e]"
  "es \<noteq> [] \<Longrightarrow> agreeing (es @ [e]) \<longleftrightarrow> agreeing es \<and> se_event_id e = se_event_id (hd es)"
  using hd_in_set [of es] by (auto simp: agreeing_def)

lemma agreeing_Cons: "agreeing (e # es) \<longleftrightarrow> (\<forall>x \<in> set es. se_event_id x = se_event_id e)"
  by (auto simp: agreeing_def)

lemma entry_agreed:
  assumes "agreeing es" and "es \<noteq> []"
  shows "foldl (partition_entry True) (None, None) es = (Some (hd es), None)"
  using assms
proof (induction es rule: rev_induct)
  case (snoc e es)
  then show ?case by (cases "es = []") (simp_all add: partition_entry_def)
qed simp

lemma entry_conflicted_stays:
  "snd entries \<noteq> None \<Longrightarrow> snd (foldl (partition_entry b) entries es) \<noteq> None"
proof (induction es arbitrary: entries)
  case (Cons e es)
  then have "snd (partition_entry b entries e) \<noteq> None"
    by (auto simp: partition_entry_def split: option.splits)
  with Cons.IH show ?case by simp
qed simp

lemma entry_disagreed:
  assumes "\<not> agreeing es"
  shows "snd (foldl (partition_entry True) (None, None) es) \<noteq> None"
  using assms
proof (induction es rule: rev_induct)
  case (snoc e es)
  then have "es \<noteq> []" by auto
  show ?case
  proof (cases "agreeing es")
    case True
    with snoc.prems \<open>es \<noteq> []\<close> have "se_event_id (hd es) \<noteq> se_event_id e" by simp
    then have "partition_entry True (Some (hd es), None) e = (None, Some e)"
      by (simp add: partition_entry_def)
    with entry_agreed [OF True \<open>es \<noteq> []\<close>] show ?thesis by simp
  next
    case False
    from entry_conflicted_stays [OF snoc.IH [OF False], of True "[e]"] show ?thesis by simp
  qed
qed simp

lemma entry_member:
  "fst (foldl (partition_entry b) (None, c) es) = Some e \<Longrightarrow> e \<in> set es"
proof (induction es rule: rev_induct)
  case (snoc x es)
  then have "fst (foldl (partition_entry b) (None, c) es) = Some e \<or> x = e"
    by (cases "fst (foldl (partition_entry b) (None, c) es)")
      (simp_all add: partition_entry_def [of _ _ x] split: if_splits)
  with snoc.IH show ?case by auto
qed simp

lemma entry_two_groups:
  assumes "\<not> agreeing es" and "length es \<le> 2"
  shows "fst (foldl (partition_entry True) (None, None) es) = None"
proof -
  obtain a b where "es = [a, b]"
    using assms by (cases es; cases "tl es") auto
  with assms show ?thesis by (simp add: agreeing_def partition_entry_def)
qed

section \<open>What the partition returns\<close>

abbreviation events_at :: "StateGroup list \<Rightarrow> StateKey \<Rightarrow> StateEventReference list" where
  "events_at groups k \<equiv> filter (\<lambda>e. se_key e = k) (group_events groups)"

definition listed_everywhere :: "StateGroup list \<Rightarrow> StateKey \<Rightarrow> bool" where
  "listed_everywhere groups k \<longleftrightarrow> key_count (group_events groups) k = length groups"

definition few_state_keys :: "StateGroup list \<Rightarrow> bool" where
  "few_state_keys groups \<longleftrightarrow> card (se_key ` set (group_events groups)) \<le> max_conflicted_state_keys"

lemma partition_aborts: "\<not> few_state_keys groups \<Longrightarrow> partition_conflicted_state groups = ([], [])"
  using count_state_keys_None [of "[]" "group_events groups"]
  by (simp add: partition_conflicted_state_def few_state_keys_def)

lemma partition_counts:
  assumes "few_state_keys groups"
  obtains counts where
    "partition_conflicted_state groups = foldl (partition_event (length groups) counts) ([], []) (group_events groups)"
    and "\<And>k. k \<in> se_key ` set (group_events groups) \<Longrightarrow> map_of counts k = Some (key_count (group_events groups) k)"
proof -
  have "count_state_keys [] (group_events groups) \<noteq> None"
    using assms count_state_keys_None [of "[]" "group_events groups"] by (simp add: few_state_keys_def)
  then obtain counts where counts: "count_state_keys [] (group_events groups) = Some counts" by blast
  show thesis
  proof (rule that)
    show "partition_conflicted_state groups = foldl (partition_event (length groups) counts) ([], []) (group_events groups)"
      by (simp add: partition_conflicted_state_def counts)
  next
    fix k
    assume "k \<in> se_key ` set (group_events groups)"
    then have "key_count (group_events groups) k \<noteq> 0" by (simp only: key_count_0) simp
    then show "map_of counts k = Some (key_count (group_events groups) k)"
      using count_state_keys_Some [OF counts, of k] by simp
  qed
qed

lemma partition_entries:
  assumes "few_state_keys groups"
  shows "entries_at (partition_conflicted_state groups) k
     = foldl (partition_entry (listed_everywhere groups k)) (None, None) (events_at groups k)"
proof -
  obtain counts where part:
    "partition_conflicted_state groups = foldl (partition_event (length groups) counts) ([], []) (group_events groups)"
    and counts: "\<And>k. k \<in> se_key ` set (group_events groups) \<Longrightarrow> map_of counts k = Some (key_count (group_events groups) k)"
    using partition_counts [OF assms] by blast
  have *: "entries_at (partition_conflicted_state groups) k
     = foldl (partition_entry (map_of counts k = Some (length groups))) (None, None) (events_at groups k)"
    unfolding part by (subst partition_fold_entries) (simp_all add: state_maps_def entries_at_def)
  show ?thesis
  proof (cases "k \<in> se_key ` set (group_events groups)")
    case True
    with * counts show ?thesis by (simp add: listed_everywhere_def)
  next
    case False
    then have "events_at groups k = []" by (auto simp: filter_empty_conv simp del: filter_concat)
    with * show ?thesis by simp
  qed
qed

lemma partition_state_maps:
  "state_map (fst (partition_conflicted_state groups))" "state_map (snd (partition_conflicted_state groups))"
proof -
  have "state_maps (partition_conflicted_state groups)"
    by (cases "count_state_keys [] (group_events groups)")
      (simp_all add: partition_conflicted_state_def partition_fold_entries)
  then show "state_map (fst (partition_conflicted_state groups))" "state_map (snd (partition_conflicted_state groups))"
    by (simp_all add: state_maps_def)
qed

lemma partition_agreed:
  assumes "few_state_keys groups" and "listed_everywhere groups k" and "agreeing (events_at groups k)"
    and "events_at groups k \<noteq> []"
  shows "map_of (fst (partition_conflicted_state groups)) k = Some (hd (events_at groups k))"
    and "map_of (snd (partition_conflicted_state groups)) k = None"
  using partition_entries [OF assms(1), of k] entry_agreed [OF assms(3,4)] assms(2)
  by (simp_all add: entries_at_def)

lemma partition_conflicted_iff:
  assumes "few_state_keys groups"
  shows "map_of (snd (partition_conflicted_state groups)) k \<noteq> None
     \<longleftrightarrow> events_at groups k \<noteq> [] \<and> \<not> (listed_everywhere groups k \<and> agreeing (events_at groups k))"
proof -
  have "snd (entries_at (partition_conflicted_state groups) k) \<noteq> None
     \<longleftrightarrow> events_at groups k \<noteq> [] \<and> \<not> (listed_everywhere groups k \<and> agreeing (events_at groups k))"
    unfolding partition_entries [OF assms]
    using entry_agreed [of "events_at groups k"] entry_disagreed [of "events_at groups k"]
    by (cases "events_at groups k = []"; cases "listed_everywhere groups k"; cases "agreeing (events_at groups k)")
      (simp_all add: entry_elsewhere)
  then show ?thesis by (simp add: entries_at_def)
qed

lemma partition_unconflicted_member:
  assumes "map_of (fst (partition_conflicted_state groups)) k = Some e"
  shows "e \<in> set (group_events groups)" and "se_key e = k" and "listed_everywhere groups k"
proof -
  have few: "few_state_keys groups" using assms partition_aborts by fastforce
  have entry: "fst (foldl (partition_entry (listed_everywhere groups k)) (None, None) (events_at groups k)) = Some e"
    using assms by (simp add: entries_at_def flip: partition_entries [OF few])
  from entry_member [OF this] show "e \<in> set (group_events groups)" and "se_key e = k" by simp_all
  show "listed_everywhere groups k"
    using entry by (cases "listed_everywhere groups k") (simp_all add: entry_elsewhere split: if_splits)
qed

section \<open>Agreement between groups\<close>

definition one_event_per_key :: "StateGroup \<Rightarrow> bool" where
  "one_event_per_key g \<longleftrightarrow> distinct (map se_key (sg_state g))"

definition agreed :: "StateGroup list \<Rightarrow> StateKey \<Rightarrow> bool" where
  "agreed groups k \<longleftrightarrow> groups \<noteq> []
     \<and> (\<forall>g \<in> set groups. state_group_contains g k
          \<and> se_event_id (the (state_group_event g k)) = se_event_id (the (state_group_event (hd groups) k)))"

lemma group_events_at:
  assumes "one_event_per_key g"
  shows "filter (\<lambda>e. se_key e = k) (sg_state g) = (case state_group_event g k of None \<Rightarrow> [] | Some e \<Rightarrow> [e])"
proof -
  have "distinct (map se_key es) \<Longrightarrow> filter (\<lambda>e. se_key e = k) es
      = (case find (\<lambda>e. se_key e = k) es of None \<Rightarrow> [] | Some e \<Rightarrow> [e])" for es
  proof (induction es)
    case (Cons a es)
    show ?case
    proof (cases "se_key a = k")
      case True
      with Cons.prems show ?thesis by (auto simp: filter_empty_conv image_iff)
    qed (use Cons in simp)
  qed simp
  with assms show ?thesis by (simp add: one_event_per_key_def state_group_event_def)
qed

lemma events_at_groups:
  assumes "list_all one_event_per_key groups"
  shows "events_at groups k = List.map_filter (\<lambda>g. state_group_event g k) groups"
  using assms
  by (induction groups) (simp_all add: group_events_at map_filter_simps split: option.split)

lemma agreed_iff:
  assumes "list_all one_event_per_key groups"
  shows "agreed groups k \<longleftrightarrow> events_at groups k \<noteq> [] \<and> listed_everywhere groups k \<and> agreeing (events_at groups k)"
proof (cases "\<forall>g \<in> set groups. state_group_event g k \<noteq> None")
  case True
  then have eq: "events_at groups k = map (\<lambda>g. the (state_group_event g k)) groups"
    using events_at_groups [OF assms, of k] map_filter_total [of groups "\<lambda>g. state_group_event g k"] by simp
  then have "listed_everywhere groups k" by (simp add: listed_everywhere_def key_count_def)
  moreover have "groups \<noteq> [] \<Longrightarrow> agreeing (events_at groups k)
      \<longleftrightarrow> (\<forall>g \<in> set groups. se_event_id (the (state_group_event g k)) = se_event_id (the (state_group_event (hd groups) k)))"
    unfolding eq by (cases groups) (simp_all add: agreeing_Cons)
  moreover have "\<forall>g \<in> set groups. state_group_contains g k" using True by (simp add: state_group_contains_def)
  ultimately show ?thesis using eq by (cases "groups = []") (simp_all add: agreed_def)
next
  case False
  then have "\<not> listed_everywhere groups k"
    using events_at_groups [OF assms, of k] map_filter_all [of "\<lambda>g. state_group_event g k" groups]
    by (simp add: listed_everywhere_def key_count_def)
  with False show ?thesis by (auto simp: agreed_def state_group_contains_def)
qed

lemma agreed_head:
  assumes "list_all one_event_per_key groups" and "agreed groups k"
  shows "state_group_event (hd groups) k = Some (hd (events_at groups k))"
proof -
  obtain g gs where groups: "groups = g # gs" using assms(2) by (cases groups) (auto simp: agreed_def)
  with assms(2) obtain e where "state_group_event g k = Some e" by (auto simp: agreed_def state_group_contains_def)
  with events_at_groups [OF assms(1)] groups show ?thesis by (simp add: map_filter_simps)
qed

lemma partition_two_groups:
  assumes "few_state_keys groups" and "list_all one_event_per_key groups"
    and "length groups \<le> 2" and "map_of (fst (partition_conflicted_state groups)) k \<noteq> None"
  shows "agreed groups k"
proof -
  obtain e where e: "map_of (fst (partition_conflicted_state groups)) k = Some e" using assms(4) by blast
  note listed = partition_unconflicted_member [OF e]
  have entry: "fst (foldl (partition_entry True) (None, None) (events_at groups k)) = Some e"
    using e listed(3) partition_entries [OF assms(1), of k] by (simp add: entries_at_def) (metis fst_conv)
  have "length (events_at groups k) \<le> 2"
    using assms(3) listed(3) by (simp add: listed_everywhere_def key_count_def)
  with entry entry_two_groups have "agreeing (events_at groups k)" by fastforce
  moreover have "events_at groups k \<noteq> []" using entry by auto
  ultimately show "agreed groups k" using listed(3) agreed_iff [OF assms(2)] by blast
qed


end
