(* ===== verification/Authorization_Rules.thy ===== *)
theory Authorization_Rules
  imports Authorization
begin

text \<open>
  What \<open>authorize_event_against_auth_events\<close> guarantees: the consequences of a decision to allow,
  one theorem per group of rules, with a small sample room on which they are evaluated. The last
  section records two decisions that differ from the rules the code sets out to implement.
\<close>

section \<open>A sample room\<close>

definition room_v10 :: RoomVersionPolicy where
  "room_v10 = the (find_room_version_policy ''10'')"

definition member_event :: "string \<Rightarrow> string \<Rightarrow> string \<Rightarrow> Value" where
  "member_event sndr target m =
     VObject [(''type'', VString ''m.room.member''), (''sender'', VString sndr),
              (''state_key'', VString target), (''content'', VObject [(''membership'', VString m)])]"

definition sample_create :: Value where
  "sample_create =
     VObject [(''type'', VString ''m.room.create''), (''sender'', VString ''@a:x''),
              (''room_id'', VString ''!r:x''),
              (''content'', VObject [(''creator'', VString ''@a:x''), (''m.federate'', VBool False)])]"

definition levels_before :: Object where
  "levels_before = [(''users'', VObject [(''@a:x'', VInt 100), (''@m:x'', VInt 50)]),
     (''events'', VObject [(''m.room.power_levels'', VInt 100)])]"

definition levels_after :: Object where
  "levels_after = [(''users'', VObject [(''@a:x'', VInt 100), (''@m:x'', VInt 50), (''@u:x'', VInt 10)]),
     (''events'', VObject [(''m.room.power_levels'', VInt 100)])]"

definition sample_power_levels :: Value where
  "sample_power_levels =
     VObject [(''type'', VString ''m.room.power_levels''), (''sender'', VString ''@a:x''),
              (''state_key'', VString []),
              (''content'', VObject levels_before)]"

text \<open>The room as \<open>@m:x\<close>, a moderator, sees it; the target is an ordinary member.\<close>

definition sample_room :: AuthEventMap where
  "sample_room =
     \<lparr>am_create = sample_create, am_power_levels = sample_power_levels, am_join_rules = VNull,
      am_sender_member = member_event ''@m:x'' ''@m:x'' ''join'',
      am_target_member = member_event ''@u:x'' ''@u:x'' ''join'',
      am_authorising_user_member = VNull, am_third_party_invite = VNull\<rparr>"

abbreviation authorized :: "Sodium \<Rightarrow> Value \<Rightarrow> RoomVersionPolicy \<Rightarrow> AuthEventMap \<Rightarrow> bool" where
  "authorized S event policy am \<equiv> allowed (authorize_event_against_auth_events S event policy am)"

section \<open>Creation and federation\<close>

lemma first_objection: "(if a \<noteq> [] then a else b) = [] \<longleftrightarrow> a = [] \<and> b = []"
  by auto

text \<open>A create event is authorized only in a room without one, with no previous events; below
  room version 12 its room id belongs to the sender's own domain and, before version 11, its content
  names a creator; in version 12 it carries no room id.\<close>

theorem create_event_authorized:
  assumes "authorized S (VObject obj) policy am" and "string_member obj ''type'' = Some ''m.room.create''"
  shows "am_create am = VNull
    \<and> (\<forall>entries. array_member obj ''prev_events'' = Some entries \<longrightarrow> entries = [])
    \<and> (if create_event_is_room_id policy then string_member obj ''room_id'' = None
       else \<exists>room sndr. string_member obj ''room_id'' = Some room \<and> string_member obj ''sender'' = Some sndr
              \<and> domain_of room = domain_of sndr
              \<and> (redaction_rules policy \<noteq> redaction_room_v11_plus \<longrightarrow>
                   (\<exists>content. object_member_as_object obj ''content'' = Some content
                      \<and> object_member content ''creator'' \<noteq> None)))"
proof -
  from assms have none: "am_create am = VNull" and reason: "create_event_rejection_reason obj policy = []"
    by (auto simp: authorize_allowed value_has_content_def)
  from reason have prev: "create_prev_events_reason obj = []" and room: "create_room_id_reason obj policy = []"
    and content: "create_content_reason (object_member_as_object obj ''content'') policy = []"
    by (auto simp: create_event_rejection_reason_def Let_def first_objection)
  have "entries = []" if "array_member obj ''prev_events'' = Some entries" for entries
    using that prev
    by (auto simp: array_member_def create_prev_events_reason_def bind_eq_Some_conv split: if_splits)
  moreover have "if create_event_is_room_id policy then string_member obj ''room_id'' = None
       else \<exists>room sndr. string_member obj ''room_id'' = Some room \<and> string_member obj ''sender'' = Some sndr
              \<and> domain_of room = domain_of sndr"
    using room by (auto simp: create_room_id_reason_def split: if_splits option.splits)
  moreover have "\<exists>c. object_member_as_object obj ''content'' = Some c \<and> object_member c ''creator'' \<noteq> None"
    if "\<not> create_event_is_room_id policy" "redaction_rules policy \<noteq> redaction_room_v11_plus"
    using content that by (cases "object_member_as_object obj ''content''") (auto simp: create_content_reason_def split: if_splits)
  ultimately show ?thesis using none by (auto split: if_splits)
qed

definition sample_create_members :: Object where
  "sample_create_members =
     [(''type'', VString ''m.room.create''), (''sender'', VString ''@a:x''), (''room_id'', VString ''!r:x''),
      (''content'', VObject [(''creator'', VString ''@a:x'')])]"

definition empty_room :: AuthEventMap where
  "empty_room =
     \<lparr>am_create = VNull, am_power_levels = VNull, am_join_rules = VNull, am_sender_member = VNull,
      am_target_member = VNull, am_authorising_user_member = VNull, am_third_party_invite = VNull\<rparr>"

theorem create_event_authorized_witness:
  "authorized sample_sodium (VObject sample_create_members) room_v10 empty_room
   \<and> (\<exists>room sndr. string_member sample_create_members ''room_id'' = Some room
        \<and> string_member sample_create_members ''sender'' = Some sndr \<and> domain_of room = domain_of sndr)"
proof -
  have ok: "authorized sample_sodium (VObject sample_create_members) room_v10 empty_room" by code_simp
  have "string_member sample_create_members ''type'' = Some ''m.room.create''"
    "\<not> create_event_is_room_id room_v10" by code_simp+
  with create_event_authorized [OF ok] ok show ?thesis by auto
qed

text \<open>In a room that disables federation (versions 6 and later) only senders of the creator's
  domain are authorized for anything but the create event.\<close>

theorem non_federated_room_is_closed:
  assumes "authorized S (VObject obj) policy am" and "string_member obj ''type'' \<noteq> Some ''m.room.create''"
    and "string_member obj ''sender'' = Some sndr"
    and "auth_rules policy \<noteq> auth_room_v1" and "create_is_non_federated (am_create am)"
  shows "creator_domain_source (am_create am) \<noteq> []
    \<and> domain_of sndr = domain_of (creator_domain_source (am_create am))"
proof -
  from assms(1-3) have "federation_denial (am_create am) policy sndr = None"
    by (auto simp: authorize_allowed split: if_splits)
  moreover have "auth_rules policy = auth_room_v6_plus \<or> auth_rules policy = auth_room_v12"
    using assms(4) by (cases "auth_rules policy") auto
  ultimately show ?thesis
    using assms(5) by (auto simp: federation_denial_def split: if_splits)
qed

theorem non_federated_room_is_closed_witness:
  "authorized sample_sodium (member_event ''@m:x'' ''@m:x'' ''leave'') room_v10 sample_room
   \<and> domain_of ''@m:x'' = domain_of (creator_domain_source (am_create sample_room))"
proof -
  let ?obj = "[(''type'', VString ''m.room.member''), (''sender'', VString ''@m:x''),
      (''state_key'', VString ''@m:x''), (''content'', VObject [(''membership'', VString ''leave'')])]"
  have ok: "authorized sample_sodium (VObject ?obj) room_v10 sample_room" by code_simp
  have "string_member ?obj ''type'' \<noteq> Some ''m.room.create''" "string_member ?obj ''sender'' = Some ''@m:x''"
    "auth_rules room_v10 \<noteq> auth_room_v1" "create_is_non_federated (am_create sample_room)"
    by code_simp+
  with non_federated_room_is_closed [OF ok] ok show ?thesis by (simp add: member_event_def)
qed

section \<open>Membership\<close>

text \<open>Only joined users act: every authorized event other than a create or membership event
  has a joined sender, or the creator named by the create event before any membership of theirs.\<close>

theorem sender_is_joined:
  assumes "authorized S (VObject obj) policy am"
    and "string_member obj ''type'' = Some event_type" and "string_member obj ''sender'' = Some sndr"
    and "event_type \<noteq> ''m.room.create''" and "event_type \<noteq> ''m.room.member''"
  shows "member_state (am_sender_member am) = Join
    \<or> (am_sender_member am = VNull \<and> event_content_string (am_create am) ''creator'' = Some sndr)"
  using assms
  by (auto simp: authorize_allowed authorize_other_event_def sender_membership_def value_has_content_def
      split: if_splits)

definition sample_message :: Object where
  "sample_message =
     [(''type'', VString ''m.room.message''), (''sender'', VString ''@m:x''), (''content'', VObject [])]"

theorem sender_is_joined_witness:
  "authorized sample_sodium (VObject sample_message) room_v10 sample_room
   \<and> (member_state (am_sender_member sample_room) = Join
      \<or> (am_sender_member sample_room = VNull
         \<and> event_content_string (am_create sample_room) ''creator'' = Some ''@m:x''))"
proof -
  have ok: "authorized sample_sodium (VObject sample_message) room_v10 sample_room" by code_simp
  have "string_member sample_message ''type'' = Some ''m.room.message''"
    "string_member sample_message ''sender'' = Some ''@m:x''" by code_simp+
  with sender_is_joined [OF ok] ok show ?thesis by simp
qed

lemma banned_sender_cannot_act:
  assumes "authorized S (VObject obj) policy am" and "member_state (am_sender_member am) = Ban"
    and "string_member obj ''type'' = Some event_type" and "event_type \<noteq> ''m.room.create''"
  shows "event_type = ''m.room.member'' \<and> extract_content_membership (VObject obj) = ''invite''
    \<and> string_member obj ''state_key'' \<noteq> string_member obj ''sender''
    \<and> third_party_invite_of obj \<noteq> None"
proof -
  have content: "value_has_content (am_sender_member am)"
    using assms(2) by (auto simp: member_state_def split: if_splits)
  obtain sndr where sndr: "string_member obj ''sender'' = Some sndr"
    and allowed: "if event_type = ''m.room.member'' then allowed (authorize_member S obj policy am sndr)
           else allowed (authorize_other_event obj policy am event_type sndr)"
    using assms(1,3,4) by (auto simp: authorize_allowed split: if_splits)
  have type: "event_type = ''m.room.member''"
    using allowed assms(2) content
    by (auto simp: authorize_other_event_def sender_membership_def split: if_splits)
  with allowed obtain state_key where key: "string_member obj ''state_key'' = Some state_key"
    and cases: "allowed (authorize_member S obj policy am sndr)"
    by (auto simp: authorize_member_allowed)
  have self: "target_member_state am True = Ban"
    using assms(2) content by (simp add: target_member_state_def)
  from cases key assms(2) self
  have "extract_content_membership (VObject obj) = ''invite''"
    and invite: "allowed (authorize_invite S obj policy am state_key sndr Ban (target_member_state am (sndr = state_key)))"
    by (auto simp: authorize_member_allowed Let_def authorize_join_def authorize_knock_def authorize_leave_def
        authorize_ban_def membership_at_least_one_of_def split: if_splits)
  moreover from invite self have "sndr \<noteq> state_key"
    by (auto simp: auth_simps split: option.splits)
  moreover from invite have "third_party_invite_of obj \<noteq> None"
    by (auto simp: auth_simps split: option.splits)
  ultimately show ?thesis using type key sndr by simp
qed

text \<open>C13: a banned user is shut out: while the sender's membership is ban, the only event of theirs
  that can be authorized is an invite of someone else backed by a third-party invite token.\<close>

theorem banned_sender_is_shut_out:
  assumes "authorized S (VObject obj) policy am" and "member_state (am_sender_member am) = Ban"
    and "string_member obj ''type'' = Some event_type" and "event_type \<noteq> ''m.room.create''"
  shows "event_type = ''m.room.member'' \<and> extract_content_membership (VObject obj) = ''invite''
    \<and> string_member obj ''state_key'' \<noteq> string_member obj ''sender''
    \<and> third_party_invite_of obj \<noteq> None"
  using assms by (rule banned_sender_cannot_act)

text \<open>An invite by token: the invite event of the room, and the signed acceptance.\<close>

definition sample_token_event :: Value where
  "sample_token_event =
     VObject [(''type'', VString ''m.room.third_party_invite''), (''sender'', VString ''@m:x''),
              (''state_key'', VString ''t''),
              (''content'', VObject [(''public_key'', VString (concat (map letter_pair (replicate 32 (CHR ''p'')))))])]"

definition sample_signed :: Object where
  "sample_signed =
     [(''mxid'', VString ''@u:x''), (''token'', VString ''t''),
      (''signatures'', VObject [(''id.x'', VObject [(''ed25519:0'',
         VString (concat (map letter_pair (replicate 64 (CHR ''s'')))))])])]"

definition sample_token_invite :: Object where
  "sample_token_invite =
     [(''type'', VString ''m.room.member''), (''sender'', VString ''@m:x''), (''state_key'', VString ''@u:x''),
      (''content'', VObject [(''membership'', VString ''invite''),
         (''third_party_invite'', VObject [(''signed'', VObject sample_signed)])])]"

definition banned_room :: AuthEventMap where
  "banned_room = sample_room\<lparr>am_sender_member := member_event ''@a:x'' ''@m:x'' ''ban'',
     am_target_member := VNull, am_third_party_invite := sample_token_event\<rparr>"

theorem banned_sender_is_shut_out_witness:
  "authorized sample_sodium (VObject sample_token_invite) room_v10 banned_room
   \<and> member_state (am_sender_member banned_room) = Ban \<and> third_party_invite_of sample_token_invite \<noteq> None"
proof -
  have ok: "authorized sample_sodium (VObject sample_token_invite) room_v10 banned_room" by code_simp
  have ban: "member_state (am_sender_member banned_room) = Ban"
    "string_member sample_token_invite ''type'' = Some ''m.room.member''" by code_simp+
  from banned_sender_is_shut_out [OF ok ban] ok ban show ?thesis by simp
qed

text \<open>An invite by token is authorized exactly when the target is not banned, the signed blob names
  the target and the token of the room's invite event, the sender is that event's sender, and one of
  the blob's signatures verifies under one of the event's public keys.\<close>

theorem third_party_invite_authorized_iff:
  assumes "string_member obj ''type'' = Some ''m.room.member''"
    and "string_member obj ''sender'' = Some sndr" and "sndr \<noteq> []"
    and "string_member obj ''state_key'' = Some state_key" and "state_key \<noteq> []"
    and "extract_content_membership (VObject obj) = ''invite''"
    and "third_party_invite_of obj = Some tpi"
    and "value_has_content (am_create am)" and "federation_denial (am_create am) policy sndr = None"
  shows "authorized S (VObject obj) policy am \<longleftrightarrow>
    target_member_state am (sndr = state_key) \<noteq> Ban
    \<and> (\<exists>signed_obj token event_obj. object_member_as_object tpi ''signed'' = Some signed_obj
         \<and> string_member signed_obj ''mxid'' = Some state_key \<and> string_member signed_obj ''token'' = Some token
         \<and> am_third_party_invite am = VObject event_obj \<and> string_member event_obj ''state_key'' = Some token
         \<and> string_member event_obj ''sender'' = Some sndr
         \<and> third_party_invite_signature_is_valid S signed_obj (VObject event_obj))"
  using assms by (auto simp: authorize_allowed authorize_member_allowed auth_simps Let_def)

theorem third_party_invite_authorized_iff_witness:
  "authorized sample_sodium (VObject sample_token_invite) room_v10 banned_room
   \<longleftrightarrow> third_party_invite_signature_is_valid sample_sodium sample_signed sample_token_event"
proof -
  let ?P = "\<lambda>am. authorized sample_sodium (VObject sample_token_invite) room_v10 am"
  have "?P banned_room \<longleftrightarrow> target_member_state banned_room (''@m:x'' = ''@u:x'') \<noteq> Ban
      \<and> (\<exists>signed_obj token event_obj.
           object_member_as_object [(''signed'', VObject sample_signed)] ''signed'' = Some signed_obj
         \<and> string_member signed_obj ''mxid'' = Some ''@u:x'' \<and> string_member signed_obj ''token'' = Some token
         \<and> am_third_party_invite banned_room = VObject event_obj \<and> string_member event_obj ''state_key'' = Some token
         \<and> string_member event_obj ''sender'' = Some ''@m:x''
         \<and> third_party_invite_signature_is_valid sample_sodium signed_obj (VObject event_obj))"
    by (rule third_party_invite_authorized_iff) code_simp+
  moreover have "target_member_state banned_room (''@m:x'' = ''@u:x'') \<noteq> Ban" by code_simp
  ultimately show ?thesis
    by (auto simp: banned_room_def sample_token_event_def sample_signed_def member_defs)
qed


definition joining_room :: AuthEventMap where
  "joining_room = sample_room\<lparr>am_sender_member := member_event ''@m:x'' ''@u:x'' ''invite''\<rparr>"


text \<open>C31: removing or banning another user is authorized exactly when the sender is joined, has the
  kick (or ban) level, also has the ban level to lift a ban, and outranks the target strictly.\<close>

theorem kick_and_ban_authorized_iff:
  assumes "string_member obj ''type'' = Some ''m.room.member''"
    and "string_member obj ''sender'' = Some sndr" and "sndr \<noteq> []"
    and "string_member obj ''state_key'' = Some target" and "target \<noteq> []" and "target \<noteq> sndr"
    and "extract_content_membership (VObject obj) = m" and "m = ''leave'' \<or> m = ''ban''"
    and "value_has_content (am_create am)" and "federation_denial (am_create am) policy sndr = None"
  shows "authorized S (VObject obj) policy am \<longleftrightarrow>
    member_state (am_sender_member am) = Join
    \<and> user_power am policy target < user_power am policy sndr
    \<and> level_or_default am policy (if m = ''leave'' then ''kick'' else ''ban'') 50 \<le> user_power am policy sndr
    \<and> (m = ''leave'' \<and> target_member_state am False = Ban \<longrightarrow>
         level_or_default am policy ''ban'' 50 \<le> user_power am policy sndr)"
  using assms by (auto simp: authorize_allowed authorize_member_allowed auth_simps Let_def)

theorem kick_and_ban_authorized_iff_witness:
  "authorized sample_sodium (member_event ''@m:x'' ''@u:x'' ''ban'') room_v10 sample_room
   \<and> \<not> authorized sample_sodium (member_event ''@m:x'' ''@a:x'' ''ban'') room_v10 sample_room"
proof -
  let ?obj = "\<lambda>target. [(''type'', VString ''m.room.member''), (''sender'', VString ''@m:x''),
      (''state_key'', VString target), (''content'', VObject [(''membership'', VString ''ban'')])]"
  have iff: "authorized sample_sodium (VObject (?obj target)) room_v10 sample_room \<longleftrightarrow>
    member_state (am_sender_member sample_room) = Join
    \<and> user_power sample_room room_v10 target < user_power sample_room room_v10 ''@m:x''
    \<and> level_or_default sample_room room_v10 (if ''ban'' = ''leave'' then ''kick'' else ''ban'') 50
        \<le> user_power sample_room room_v10 ''@m:x''
    \<and> (''ban'' = ''leave'' \<and> target_member_state sample_room False = Ban \<longrightarrow>
         level_or_default sample_room room_v10 ''ban'' 50 \<le> user_power sample_room room_v10 ''@m:x'')"
    if "target = ''@u:x'' \<or> target = ''@a:x''" for target
  proof (rule kick_and_ban_authorized_iff)
    show "value_has_content (am_create sample_room)"
      "federation_denial (am_create sample_room) room_v10 ''@m:x'' = None" by code_simp+
  qed (use that in \<open>auto simp: member_defs extract_content_membership_def event_content_string_def event_content_def\<close>)
  have "member_state (am_sender_member sample_room) = Join"
    "user_power sample_room room_v10 ''@u:x'' = 0" "user_power sample_room room_v10 ''@m:x'' = 50"
    "user_power sample_room room_v10 ''@a:x'' = 100" "level_or_default sample_room room_v10 ''ban'' 50 = 50"
    by code_simp+
  then show ?thesis
    using iff [of "''@u:x''"] iff [of "''@a:x''"] by (simp add: member_event_def)
qed

section \<open>Power levels\<close>

lemma power_levels_event_authorized:
  assumes "authorized S (VObject obj) policy am" and "string_member obj ''type'' = Some ''m.room.power_levels''"
    and "string_member obj ''sender'' = Some sndr"
    and "event_content (am_power_levels am) = Some old"
  obtains new where "object_member_as_object obj ''content'' = Some new"
    and "scalar_power_level_rejection_reason old new (user_power am policy sndr)
           (\<not> power_levels_require_integers policy) = []"
    and "\<And>map_key. map_key \<in> set (bounded_power_level_maps policy) \<Longrightarrow>
           power_level_map_rejection_reason old new (user_power am policy sndr)
             (\<not> power_levels_require_integers policy) map_key = []"
    and "users_change_reason (object_member_as_object old ''users'') (object_member_as_object new ''users'')
           sndr (user_power am policy sndr) (\<not> power_levels_require_integers policy) = []"
proof -
  have "value_has_content (am_power_levels am)"
    using assms(4) by (auto simp: value_has_content_def event_content_def)
  with assms obtain new where new: "object_member_as_object obj ''content'' = Some new"
    and change: "power_levels_change_reason policy am sndr new (user_power am policy sndr) = []"
    by (auto simp: authorize_allowed authorize_other_event_def authorize_power_levels_event_allowed Let_def
        split: if_splits)
  from change assms(4) show thesis
    by (intro that [OF new])
      (auto simp: power_levels_change_reason_def Let_def first_objection first_reason_Nil split: if_splits)
qed


text \<open>The moderator gives the ordinary member level 10 and leaves everything else.\<close>

definition sample_change :: Object where
  "sample_change =
     [(''type'', VString ''m.room.power_levels''), (''sender'', VString ''@m:x''), (''state_key'', VString []),
      (''content'', VObject levels_after)]"

lemma sample_change_facts:
  "authorized sample_sodium (VObject sample_change) room_v10 sample_room"
  "string_member sample_change ''type'' = Some ''m.room.power_levels''"
  "string_member sample_change ''sender'' = Some ''@m:x''"
  "event_content (am_power_levels sample_room) = Some levels_before"
  "power_levels_require_integers room_v10"
  "user_power sample_room room_v10 ''@m:x'' = 50"
  by code_simp+




text \<open>Settings out of reach stay: an authorized change leaves every scalar level and every entry
  of the bounded maps whose current value is above the sender's level as it was, and sets none above it.\<close>

theorem power_levels_settings_in_reach:
  assumes "authorized S (VObject obj) policy am" and "string_member obj ''type'' = Some ''m.room.power_levels''"
    and "string_member obj ''sender'' = Some sndr"
    and "event_content (am_power_levels am) = Some old" and "strs = (\<not> power_levels_require_integers policy)"
    and "event_content (VObject obj) = Some new"
    and "(key \<in> set scalar_power_level_keys
           \<and> before = power_level_member old key strs \<and> after = power_level_member new key strs)
         \<or> (\<exists>map_key \<in> set (bounded_power_level_maps policy).
              before = map_member_level (object_member_as_object old map_key) key strs
              \<and> after = map_member_level (object_member_as_object new map_key) key strs)"
    and "before = Some l \<or> after = Some l" and "user_power am policy sndr < l"
  shows "before = after"
proof -
  from power_levels_event_authorized [OF assms(1-4)] obtain new' where
    new': "object_member_as_object obj ''content'' = Some new'" and
    scalars: "scalar_power_level_rejection_reason old new' (user_power am policy sndr) strs = []" and
    maps: "\<And>map_key. map_key \<in> set (bounded_power_level_maps policy) \<Longrightarrow>
           power_level_map_rejection_reason old new' (user_power am policy sndr) strs map_key = []"
    unfolding assms(5) by metis
  have [simp]: "new' = new" using new' assms(6) by (simp add: event_content_def)
  from assms(7) show ?thesis
  proof
    assume "key \<in> set scalar_power_level_keys
        \<and> before = power_level_member old key strs \<and> after = power_level_member new key strs"
    with scalars assms(8,9) show ?thesis
      by (auto simp: scalar_power_level_rejection_reason_def first_reason_Nil scalar_change_reason_Nil)
  next
    assume "\<exists>map_key \<in> set (bounded_power_level_maps policy).
        before = map_member_level (object_member_as_object old map_key) key strs
        \<and> after = map_member_level (object_member_as_object new map_key) key strs"
    then obtain map_key where key: "map_key \<in> set (bounded_power_level_maps policy)"
      "before = map_member_level (object_member_as_object old map_key) key strs"
      "after = map_member_level (object_member_as_object new map_key) key strs" by blast
    show ?thesis
    proof (rule ccontr)
      assume "before \<noteq> after"
      with power_level_map_bound [of old new "user_power am policy sndr" strs map_key key] maps key assms(8,9)
      show False by auto
    qed
  qed
qed

theorem power_levels_settings_in_reach_witness:
  "map_member_level (object_member_as_object levels_before ''events'') ''m.room.power_levels'' False
   = map_member_level (object_member_as_object levels_after ''events'') ''m.room.power_levels'' False"
proof (rule power_levels_settings_in_reach [OF sample_change_facts(1-4)])
  show "False = (\<not> power_levels_require_integers room_v10)" using sample_change_facts(5) by simp
  show "user_power sample_room room_v10 ''@m:x'' < 100" using sample_change_facts(6) by simp
  show "event_content (VObject sample_change) = Some levels_after" by code_simp
  show "map_member_level (object_member_as_object levels_before ''events'') ''m.room.power_levels'' False = Some 100
      \<or> map_member_level (object_member_as_object levels_after ''events'') ''m.room.power_levels'' False = Some 100"
    by code_simp
  have "''events'' \<in> set (bounded_power_level_maps room_v10)" by code_simp
  then show "(''m.room.power_levels'' \<in> set scalar_power_level_keys
      \<and> map_member_level (object_member_as_object levels_before ''events'') ''m.room.power_levels'' False
          = power_level_member levels_before ''m.room.power_levels'' False
      \<and> map_member_level (object_member_as_object levels_after ''events'') ''m.room.power_levels'' False
          = power_level_member levels_after ''m.room.power_levels'' False)
      \<or> (\<exists>map_key \<in> set (bounded_power_level_maps room_v10).
          map_member_level (object_member_as_object levels_before ''events'') ''m.room.power_levels'' False
          = map_member_level (object_member_as_object levels_before map_key) ''m.room.power_levels'' False
          \<and> map_member_level (object_member_as_object levels_after ''events'') ''m.room.power_levels'' False
          = map_member_level (object_member_as_object levels_after map_key) ''m.room.power_levels'' False)"
    by blast
qed

section \<open>Other events\<close>

text \<open>Any other event needs the level its type asks for, state events by default 50 and messages
  0, and a state key that is a user id must be the sender's own.\<close>

theorem other_event_authorized_iff:
  assumes "string_member obj ''type'' = Some event_type" and "event_type \<noteq> []"
    and "event_type \<notin> {''m.room.create'', ''m.room.member'', ''m.room.third_party_invite'', ''m.room.power_levels''}"
    and "string_member obj ''sender'' = Some sndr" and "sndr \<noteq> []"
    and "value_has_content (am_create am)" and "federation_denial (am_create am) policy sndr = None"
  shows "authorized S (VObject obj) policy am \<longleftrightarrow>
    sender_membership am sndr = Join
    \<and> (case string_member obj ''state_key'' of
         Some state_key \<Rightarrow>
           (prefix ''@'' state_key \<longrightarrow> state_key = sndr)
           \<and> events_map_level am event_type (level_or_default am policy ''state_default'' 50) \<le> user_power am policy sndr
       | None \<Rightarrow>
           events_map_level am event_type (level_or_default am policy ''events_default'' 0) \<le> user_power am policy sndr)"
  using assms
  by (auto simp: authorize_allowed authorize_other_event_def auth_simps Let_def split: option.splits if_splits)

definition sample_state_event :: "string \<Rightarrow> Object" where
  "sample_state_event key =
     [(''type'', VString ''im.widget''), (''sender'', VString ''@m:x''), (''state_key'', VString key),
      (''content'', VObject [])]"

theorem other_event_authorized_iff_witness:
  "authorized sample_sodium (VObject (sample_state_event ''@m:x'')) room_v10 sample_room
   \<and> \<not> authorized sample_sodium (VObject (sample_state_event ''@a:x'')) room_v10 sample_room"
proof -
  have facts: "value_has_content (am_create sample_room)"
    "federation_denial (am_create sample_room) room_v10 ''@m:x'' = None"
    "sender_membership sample_room ''@m:x'' = Join" "user_power sample_room room_v10 ''@m:x'' = 50"
    "events_map_level sample_room ''im.widget'' (level_or_default sample_room room_v10 ''state_default'' 50) = 50"
    by code_simp+
  show ?thesis
    using other_event_authorized_iff [of "sample_state_event ''@m:x''" "''im.widget''" "''@m:x''" sample_room room_v10
          sample_sodium]
      other_event_authorized_iff [of "sample_state_event ''@a:x''" "''im.widget''" "''@m:x''" sample_room room_v10
          sample_sodium] facts
    by (simp add: sample_state_event_def member_defs)
qed

section \<open>Redacted power levels\<close>

lemma power_level_member_redacted:
  "content_key_allowed type k policy \<Longrightarrow> k \<noteq> ''third_party_invite'' \<Longrightarrow>
     object_member (redact_content_members type policy content) k = object_member content k"
  by (simp add: object_member_redact_content_members option.map_ident)

lemma event_content_redacted:
  assumes "string_member obj ''type'' = Some type"
  shows "event_content (VObject (redact_members (Some type) policy obj)) =
    (case object_member obj ''content'' of
       None \<Rightarrow> None
     | Some (VObject content) \<Rightarrow> Some (redact_content_members type policy content)
     | Some _ \<Rightarrow> Some [])"
  by (auto simp: event_content_def object_member_as_object_def object_member_redact_members member_survives_def
      redact_member_def redact_content_def split: option.split Value.split)

text \<open>C32: redacting a power levels event keeps the room's authority structure: every user's level is
  unchanged in every room version, and so is every scalar level, the invite level from version 11 on.\<close>

theorem redaction_keeps_power_levels:
  assumes "string_member obj ''type'' = Some ''m.room.power_levels''"
    and "redact_event (VObject obj) policy = Inr redacted"
    and "key \<in> set scalar_power_level_keys"
    and "key \<noteq> ''invite'' \<or> redaction_rules policy = redaction_room_v11_plus"
  shows "extract_user_power_level redacted user_id strs = extract_user_power_level (VObject obj) user_id strs
    \<and> extract_power_level_key redacted key d strs = extract_power_level_key (VObject obj) key d strs"
proof -
  have red: "redacted = VObject (redact_members (Some ''m.room.power_levels'') policy obj)"
    using assms(1,2) by (simp add: redact_event_def)
  have allowed: "content_key_allowed ''m.room.power_levels'' key policy"
    "content_key_allowed ''m.room.power_levels'' ''users'' policy"
    "content_key_allowed ''m.room.power_levels'' ''users_default'' policy" "key \<noteq> ''third_party_invite''"
    using assms(3,4) by (auto simp: content_key_allowed_def scalar_power_level_keys_def)
  show ?thesis
  proof (cases "object_member obj ''content''")
    case None
    then show ?thesis
      by (simp add: red event_content_redacted [OF assms(1)] event_content_def [of "VObject obj"]
          object_member_as_object_def extract_user_power_level_def extract_power_level_key_def)
  next
    case (Some v)
    then show ?thesis
      using allowed
      by (cases v)
        (simp_all add: red event_content_redacted [OF assms(1)] event_content_def [of "VObject obj"]
          object_member_as_object_def extract_user_power_level_def extract_power_level_key_def
          power_level_member_def power_level_member_redacted power_level_value_def [of None] object_member_def [of "[]"])
  qed
qed

theorem redaction_keeps_power_levels_witness:
  "\<exists>redacted. redact_event (VObject sample_change) room_v10 = Inr redacted
     \<and> extract_user_power_level redacted ''@m:x'' False = extract_user_power_level (VObject sample_change) ''@m:x'' False
     \<and> extract_power_level_key redacted ''ban'' 50 False = extract_power_level_key (VObject sample_change) ''ban'' 50 False"
proof -
  obtain redacted where r: "redact_event (VObject sample_change) room_v10 = Inr redacted"
    by (simp add: redact_event_def)
  moreover have "''ban'' \<in> set scalar_power_level_keys" by code_simp
  ultimately show ?thesis
    using redaction_keeps_power_levels [OF sample_change_facts(2) r, of "''ban''" "''@m:x''" False 50] by auto
qed

section \<open>Where decisions differ from the rules\<close>


text \<open>A room that mutes \<open>@m:x\<close> with a negative level.\<close>

definition muted_room :: AuthEventMap where
  "muted_room = sample_room\<lparr>am_power_levels :=
     VObject [(''type'', VString ''m.room.power_levels''),
       (''content'', VObject [(''users'', VObject [(''@m:x'', VInt (- 1))])])]\<rparr>"

text \<open>A negative explicit level is read as no entry at all: a user muted with level -1 counts with
  the default level 0 and is authorized to send messages.\<close>

theorem negative_level_reads_as_default:
  "user_power muted_room room_v10 ''@m:x'' = 0
   \<and> authorized sample_sodium (VObject sample_message) room_v10 muted_room"
  by code_simp

section \<open>The auth chain\<close>

text \<open>Appending keeps an auth chain free of duplicates and of the empty id.\<close>

lemma append_auth_chain_event_distinct:
  "distinct chain \<and> [] \<notin> set chain \<Longrightarrow>
     distinct (append_auth_chain_event chain i) \<and> [] \<notin> set (append_auth_chain_event chain i)"
  by (auto simp: append_auth_chain_event_def auth_chain_contains_def list_ex_iff)

lemma append_auth_chain_event_contains:
  "i \<noteq> [] \<Longrightarrow> auth_chain_contains (append_auth_chain_event chain i) i"
  by (auto simp: append_auth_chain_event_def auth_chain_contains_def list_ex_iff)

text \<open>The create event is listed as an auth event in every known version but 12.\<close>

lemma select_auth_events_create:
  "find_room_version_policy (req_room_version request) = Some policy \<Longrightarrow>
     auth_reference kind_create ''m.room.create'' [] \<in> set (select_auth_events request)
     \<longleftrightarrow> \<not> create_event_is_room_id policy"
  by (auto simp: select_auth_events_def auth_reference_def)

end
