(* ===== verification/Rate_Limit.thy ===== *)
theory Rate_Limit
  imports Merovingian_Prelude
begin

text \<open>
  Rate limiting of HTTP requests: \<open>src/http/rate_limit.cpp\<close> (tiers and policies) and the engine of
  \<open>include/merovingian/http/rate_limit.hpp\<close> (policy resolution, fixed-window buckets, eviction).

  Time points of the steady clock are integers in nanoseconds, passed to each call. Counters are
  \<open>uint32_t\<close> in the code; a counter is incremented only below the policy's maximum, so natural
  numbers stay in range. Bucket tables are association lists; the hash that spreads their keys has
  no effect on results. \<open>std::string_view\<close> deny reasons are strings.

  Shown: no bucket admits more than twice its limit in any interval of one window, whatever other
  requests are interleaved; waiting for the announced time ends a denial; the tables stay bounded;
  and the two copies of the built-in defaults agree.
\<close>

section \<open>Tiers and policies\<close>

datatype RateLimitTier = auth_sensitive | media | sync | federation | admin | generic

record RateLimitPolicy =
  max_requests :: nat
  window_seconds :: nat

record RateLimitState =
  requests_seen_before :: nat
  window_elapsed_seconds :: nat

abbreviation rl_policy :: "nat \<Rightarrow> nat \<Rightarrow> RateLimitPolicy" where
  "rl_policy m w \<equiv> \<lparr>max_requests = m, window_seconds = w\<rparr>"

definition rate_limit_tier_for :: "string \<Rightarrow> RateLimitTier" where
  "rate_limit_tier_for target =
     (if prefix ''/_matrix/client/v3/login'' target \<or> prefix ''/_matrix/client/v3/refresh'' target
         \<or> prefix ''/_matrix/client/v3/register'' target \<or> sublist ''/requestToken'' target then auth_sensitive
      else if prefix ''/_matrix/media/'' target \<or> prefix ''/_matrix/client/v1/media/'' target then media
      else if prefix ''/_matrix/client/v3/sync'' target
         \<or> prefix ''/_matrix/client/unstable/org.matrix.msc4186/sync'' target
         \<or> prefix ''/_matrix/client/unstable/org.matrix.simplified_msc3575/sync'' target then sync
      else if prefix ''/_matrix/federation/'' target then federation
      else if prefix ''/_merovingian/admin/'' target then admin
      else generic)"

definition rate_limit_tier_name :: "RateLimitTier \<Rightarrow> string" where
  "rate_limit_tier_name tier = (case tier of
     auth_sensitive \<Rightarrow> ''auth_sensitive'' | media \<Rightarrow> ''media'' | sync \<Rightarrow> ''sync''
   | federation \<Rightarrow> ''federation'' | admin \<Rightarrow> ''admin'' | generic \<Rightarrow> ''generic'')"

definition rate_limit_tier_from_name :: "string \<Rightarrow> RateLimitTier option" where
  "rate_limit_tier_from_name name =
     (if name = ''auth_sensitive'' then Some auth_sensitive
      else if name = ''media'' then Some media
      else if name = ''sync'' then Some sync
      else if name = ''federation'' then Some federation
      else if name = ''admin'' then Some admin
      else if name = ''generic'' then Some generic
      else None)"

definition rate_limit_tier_default :: "RateLimitTier \<Rightarrow> RateLimitPolicy" where
  "rate_limit_tier_default tier = (case tier of
     auth_sensitive \<Rightarrow> rl_policy 20 60 | media \<Rightarrow> rl_policy 20 60
   | sync \<Rightarrow> rl_policy 90 60 | generic \<Rightarrow> rl_policy 90 60
   | federation \<Rightarrow> rl_policy 120 60 | admin \<Rightarrow> rl_policy 30 60)"

definition rate_limit_policy_is_valid :: "RateLimitPolicy \<Rightarrow> bool" where
  "rate_limit_policy_is_valid policy \<longleftrightarrow>
     max_requests policy > 0 \<and> window_seconds policy > 0 \<and> window_seconds policy \<le> 3600"

definition request_is_rate_limited :: "RateLimitState \<Rightarrow> RateLimitPolicy \<Rightarrow> bool" where
  "request_is_rate_limited state policy =
     (if \<not> rate_limit_policy_is_valid policy then True
      else if window_elapsed_seconds state \<ge> window_seconds policy then False
      else requests_seen_before state \<ge> max_requests policy)"

definition builtin_per_ip_refinement :: "string \<Rightarrow> RateLimitPolicy option" where
  "builtin_per_ip_refinement target =
     (if prefix ''/_matrix/client/v3/keys/'' target \<or> prefix ''/_matrix/client/v3/devices'' target
      then Some (rl_policy 30 60)
      else if prefix ''/_matrix/client/v3/search'' target then Some (rl_policy 20 60)
      else if prefix ''/_matrix/client/v1/media/thumbnail/'' target \<or> prefix ''/_matrix/media/v3/thumbnail/'' target
      then Some (rl_policy 60 60)
      else None)"

definition endpoint_default_rate_limit :: "string \<Rightarrow> string \<Rightarrow> RateLimitPolicy" where
  "endpoint_default_rate_limit method_name target =
     (case builtin_per_ip_refinement target of
        Some refinement \<Rightarrow> refinement
      | None \<Rightarrow> rate_limit_tier_default (rate_limit_tier_for target))"

definition rate_limit_summary :: "RateLimitPolicy \<Rightarrow> string" where
  "rate_limit_summary policy = ''HTTP rate limit: max_requests='' @ nat_to_string (max_requests policy)
     @ '' window_seconds='' @ nat_to_string (window_seconds policy)"

section \<open>Configuration and policy resolution\<close>

record RateLimitConfig =
  builtin_per_ip :: "(string \<times> RateLimitPolicy) list"
  builtin_per_user :: "(string \<times> RateLimitPolicy) list"
  per_ip :: "(string \<times> RateLimitPolicy) list"
  per_user :: "(string \<times> RateLimitPolicy) list"
  tier_overrides :: "(string \<times> RateLimitPolicy) list"
  default_per_ip :: RateLimitPolicy

definition default_client_rate_limit_config :: RateLimitConfig where
  "default_client_rate_limit_config =
     \<lparr>builtin_per_ip = [(''/_matrix/client/v3/keys/'', rl_policy 30 60), (''/_matrix/client/v3/devices'', rl_policy 30 60),
        (''/_matrix/client/v3/search'', rl_policy 20 60), (''/_matrix/client/v1/media/thumbnail/'', rl_policy 60 60),
        (''/_matrix/media/v3/thumbnail/'', rl_policy 60 60)],
      builtin_per_user = [(''/_matrix/client/v3/login'', rl_policy 5 60)],
      per_ip = [], per_user = [], tier_overrides = [], default_per_ip = rl_policy 90 60\<rparr>"

definition valid_or_nullopt :: "RateLimitPolicy \<Rightarrow> RateLimitPolicy option" where
  "valid_or_nullopt policy = (if \<not> rate_limit_policy_is_valid policy then None else Some policy)"

text \<open>The loop of \<open>lookup_policy\<close>, with the best match so far and its length.\<close>

fun lookup_policy_loop :: "(string \<times> RateLimitPolicy) list \<Rightarrow> string \<Rightarrow> RateLimitPolicy option \<Rightarrow> nat \<Rightarrow> RateLimitPolicy option" where
  "lookup_policy_loop [] target best best_len = best"
| "lookup_policy_loop ((key, policy) # table) target best best_len =
     (if prefix key target \<and> length key > best_len
      then lookup_policy_loop table target (Some policy) (length key)
      else lookup_policy_loop table target best best_len)"

definition lookup_policy :: "(string \<times> RateLimitPolicy) list \<Rightarrow> string \<Rightarrow> RateLimitPolicy option" where
  "lookup_policy table target = lookup_policy_loop table target None 0"

definition resolve_per_ip_policy :: "RateLimitConfig \<Rightarrow> string \<Rightarrow> RateLimitPolicy option" where
  "resolve_per_ip_policy config target =
     (case lookup_policy (per_ip config) target of
        Some operator_prefix \<Rightarrow> valid_or_nullopt operator_prefix
      | None \<Rightarrow>
          (let tier = rate_limit_tier_for target
           in case map_of (tier_overrides config) (rate_limit_tier_name tier) of
                Some override \<Rightarrow> valid_or_nullopt override
              | None \<Rightarrow>
                  (case lookup_policy (builtin_per_ip config) target of
                     Some refinement \<Rightarrow> valid_or_nullopt refinement
                   | None \<Rightarrow>
                       if tier = generic then valid_or_nullopt (default_per_ip config)
                       else Some (rate_limit_tier_default tier))))"

definition resolve_per_user_policy :: "RateLimitConfig \<Rightarrow> string \<Rightarrow> RateLimitPolicy option" where
  "resolve_per_user_policy config target =
     (let policy = (case lookup_policy (per_user config) target of
                      Some p \<Rightarrow> Some p
                    | None \<Rightarrow> lookup_policy (builtin_per_user config) target)
      in case policy of
           None \<Rightarrow> None
         | Some p \<Rightarrow> if \<not> rate_limit_policy_is_valid p then None else Some p)"

section \<open>Buckets\<close>

record Bucket =
  bucket_count :: nat
  bucket_window_seconds :: nat
  window_start :: int

type_synonym BucketTable = "(string \<times> Bucket) list"

record RateLimitDecision =
  rl_allowed :: bool
  rl_max_requests :: nat
  rl_window_seconds :: nat
  rl_requests_seen :: nat
  rl_per_ip_count :: nat
  rl_per_user_count :: nat
  rl_per_user_max :: nat
  rl_retry_after_ms :: nat
  rl_deny_reason :: string

record RateLimitEngine =
  m_config :: RateLimitConfig
  m_ip_buckets :: BucketTable
  m_user_buckets :: BucketTable

abbreviation kMaxBucketsPerTable :: nat where "kMaxBucketsPerTable \<equiv> 100000"

abbreviation seconds :: "nat \<Rightarrow> int" where "seconds s \<equiv> int s * 1000000000"

abbreviation no_limit :: RateLimitDecision where
  "no_limit \<equiv> \<lparr>rl_allowed = True, rl_max_requests = 0, rl_window_seconds = 0, rl_requests_seen = 0, rl_per_ip_count = 0,
     rl_per_user_count = 0, rl_per_user_max = 0, rl_retry_after_ms = 0, rl_deny_reason = []\<rparr>"

text \<open>The entry with the least window start, the first of several.\<close>

fun oldest_entry :: "string \<times> Bucket \<Rightarrow> BucketTable \<Rightarrow> string" where
  "oldest_entry oldest [] = fst oldest"
| "oldest_entry oldest (entry # table) =
     oldest_entry (if window_start (snd entry) < window_start (snd oldest) then entry else oldest) table"

definition evict_to_make_room :: "BucketTable \<Rightarrow> int \<Rightarrow> BucketTable" where
  "evict_to_make_room table now =
     (if length table < kMaxBucketsPerTable then table
      else let fresh = filter (\<lambda>entry. \<not> now - window_start (snd entry)
                          \<ge> int (bucket_window_seconds (snd entry)) * 2 * 1000000000) table
           in if length fresh < kMaxBucketsPerTable then fresh
              else AList.delete (oldest_entry (hd fresh) fresh) fresh)"

definition remaining_window_ms :: "int \<Rightarrow> RateLimitPolicy \<Rightarrow> int \<Rightarrow> nat" where
  "remaining_window_ms start policy now =
     nat (max 0 (int (window_seconds policy) * 1000 - (now - start) div 1000000))"

definition check_bucket :: "BucketTable \<Rightarrow> string \<Rightarrow> RateLimitPolicy option \<Rightarrow> int \<Rightarrow> RateLimitDecision \<times> BucketTable" where
  "check_bucket table key policy now =
     (case policy of
        None \<Rightarrow> (no_limit, table)
      | Some p \<Rightarrow>
          if key = [] then (no_limit, table)
          else case map_of table key of
                 None \<Rightarrow>
                   (no_limit\<lparr>rl_max_requests := max_requests p, rl_window_seconds := window_seconds p,
                      rl_requests_seen := 1, rl_per_ip_count := 1\<rparr>,
                    AList.update key \<lparr>bucket_count = 1, bucket_window_seconds = window_seconds p, window_start = now\<rparr>
                      (evict_to_make_room table now))
               | Some stored \<Rightarrow>
                   (let expired = (now - window_start stored \<ge> seconds (window_seconds p));
                        count = (if expired then 0 else bucket_count stored);
                        start = (if expired then now else window_start stored);
                        bucket = \<lparr>bucket_count = count, bucket_window_seconds = window_seconds p, window_start = start\<rparr>
                    in if count \<ge> max_requests p
                       then (\<lparr>rl_allowed = False, rl_max_requests = max_requests p, rl_window_seconds = window_seconds p,
                              rl_requests_seen = count, rl_per_ip_count = count, rl_per_user_count = 0,
                              rl_per_user_max = 0, rl_retry_after_ms = remaining_window_ms start p now,
                              rl_deny_reason = ''per_ip_cap''\<rparr>,
                             AList.update key bucket table)
                       else (no_limit\<lparr>rl_max_requests := max_requests p, rl_window_seconds := window_seconds p,
                               rl_requests_seen := count + 1, rl_per_ip_count := count + 1\<rparr>,
                             AList.update key (bucket\<lparr>bucket_count := count + 1\<rparr>) table)))"

section \<open>The engine\<close>

definition check :: "RateLimitEngine \<Rightarrow> int \<Rightarrow> string \<Rightarrow> string \<Rightarrow> string \<Rightarrow> RateLimitDecision \<times> RateLimitEngine" where
  "check engine now ip_bucket target user_bucket =
     (let ip_policy = resolve_per_ip_policy (m_config engine) target;
          user_policy = resolve_per_user_policy (m_config engine) target;
          user_max = (case user_policy of None \<Rightarrow> 0 | Some p \<Rightarrow> max_requests p)
      in case ip_policy of
           None \<Rightarrow> (no_limit\<lparr>rl_allowed := False, rl_deny_reason := ''invalid_policy''\<rparr>, engine)
         | Some p \<Rightarrow>
             (let (ip_decision, ip_table) =
                    (if ip_bucket = [] then (no_limit, m_ip_buckets engine)
                     else check_bucket (m_ip_buckets engine) ip_bucket ip_policy now);
                  (user_decision, user_table) =
                    (if user_bucket = [] then (no_limit, m_user_buckets engine)
                     else check_bucket (m_user_buckets engine) user_bucket user_policy now);
                  engine' = engine\<lparr>m_ip_buckets := ip_table, m_user_buckets := user_table\<rparr>
              in if \<not> rl_allowed user_decision
                 then (user_decision\<lparr>rl_deny_reason := ''per_user_cap'', rl_per_ip_count := rl_requests_seen ip_decision,
                         rl_per_user_count := rl_requests_seen user_decision, rl_per_user_max := user_max\<rparr>, engine')
                 else if \<not> rl_allowed ip_decision
                 then (ip_decision\<lparr>rl_deny_reason := ''per_ip_cap'', rl_per_user_count := rl_requests_seen user_decision,
                         rl_per_user_max := user_max\<rparr>, engine')
                 else (no_limit\<lparr>rl_max_requests := max_requests p, rl_window_seconds := window_seconds p,
                         rl_requests_seen := rl_requests_seen ip_decision, rl_per_ip_count := rl_requests_seen ip_decision,
                         rl_per_user_count := rl_requests_seen user_decision, rl_per_user_max := user_max\<rparr>, engine')))"

definition reset_engine :: "RateLimitEngine \<Rightarrow> RateLimitEngine" where
  "reset_engine engine = engine\<lparr>m_ip_buckets := [], m_user_buckets := []\<rparr>"

section \<open>Policies\<close>

lemma tier_names_round_trip: "rate_limit_tier_from_name (rate_limit_tier_name tier) = Some tier"
  by (cases tier) (simp_all add: rate_limit_tier_name_def rate_limit_tier_from_name_def)

lemma rate_limit_tier_default_valid [simp]: "rate_limit_policy_is_valid (rate_limit_tier_default tier)"
  by (cases tier) (simp_all add: rate_limit_policy_is_valid_def rate_limit_tier_default_def)

lemma resolve_per_ip_policy_valid:
  "resolve_per_ip_policy config target = Some p \<Longrightarrow> rate_limit_policy_is_valid p"
  by (auto simp: resolve_per_ip_policy_def valid_or_nullopt_def Let_def split: option.splits if_splits)

text \<open>The loop finds the longest matching prefix, whatever the order of the table.\<close>

definition longest_match :: "(string \<times> RateLimitPolicy) list \<Rightarrow> string \<Rightarrow> string \<Rightarrow> bool" where
  "longest_match table target key \<longleftrightarrow> prefix key target \<and> key \<in> fst ` set table
     \<and> (\<forall>k \<in> fst ` set table. prefix k target \<longrightarrow> length k \<le> length key)"

lemma lookup_policy_loop_result:
  "lookup_policy_loop table target best n = best
     \<and> (\<forall>k \<in> fst ` set table. prefix k target \<longrightarrow> length k \<le> n)
   \<or> (\<exists>key p. lookup_policy_loop table target best n = Some p \<and> (key, p) \<in> set table \<and> n < length key
        \<and> longest_match table target key)"
proof (induction table arbitrary: best n)
  case (Cons entry table)
  obtain key q where entry: "entry = (key, q)" by (cases entry)
  show ?case
  proof (cases "prefix key target \<and> length key > n")
    case True
    then have step: "lookup_policy_loop (entry # table) target best n = lookup_policy_loop table target (Some q) (length key)"
      by (simp add: entry)
    from Cons.IH [of "Some q" "length key"] show ?thesis
    proof (elim disjE conjE exE)
      assume "lookup_policy_loop table target (Some q) (length key) = Some q"
        and "\<forall>k \<in> fst ` set table. prefix k target \<longrightarrow> length k \<le> length key"
      then have "longest_match (entry # table) target key" using True by (simp add: longest_match_def entry)
      with step True \<open>lookup_policy_loop table target (Some q) (length key) = Some q\<close> show ?thesis by (auto simp: entry)
    next
      fix k p
      assume k: "lookup_policy_loop table target (Some q) (length key) = Some p" "(k, p) \<in> set table"
        "length key < length k" "longest_match table target k"
      then have "longest_match (entry # table) target k" by (auto simp: longest_match_def entry)
      with k True step show ?thesis by (intro disjI2 exI [of _ k] exI [of _ p]) (simp add: entry)
    qed
  next
    case False
    then have step: "lookup_policy_loop (entry # table) target best n = lookup_policy_loop table target best n"
      by (auto simp: entry)
    from Cons.IH [of best n] show ?thesis
    proof (elim disjE conjE exE)
      fix k p
      assume k: "lookup_policy_loop table target best n = Some p" "(k, p) \<in> set table"
        "n < length k" "longest_match table target k"
      then have "longest_match (entry # table) target k" using False by (auto simp: longest_match_def entry)
      with k step show ?thesis by (intro disjI2 exI [of _ k] exI [of _ p]) simp
    qed (use False step in \<open>auto simp: entry\<close>)
  qed
qed simp

lemma longest_match_unique: "longest_match table target k \<Longrightarrow> longest_match table target k' \<Longrightarrow> k = k'"
  unfolding longest_match_def by (metis order.antisym prefix_length_prefix prefix_order.antisym)

lemma lookup_policy_iff:
  assumes "distinct (map fst table)"
  shows "lookup_policy table target = Some p \<longleftrightarrow> (\<exists>key. (key, p) \<in> set table \<and> key \<noteq> [] \<and> longest_match table target key)"
proof
  assume "lookup_policy table target = Some p"
  with lookup_policy_loop_result [of table target None 0]
  show "\<exists>key. (key, p) \<in> set table \<and> key \<noteq> [] \<and> longest_match table target key"
    by (auto simp: lookup_policy_def)
next
  assume "\<exists>key. (key, p) \<in> set table \<and> key \<noteq> [] \<and> longest_match table target key"
  then obtain key where key: "(key, p) \<in> set table" "key \<noteq> []" "longest_match table target key" by blast
  have "\<not> (\<forall>k \<in> fst ` set table. prefix k target \<longrightarrow> length k \<le> 0)"
    using key by (auto simp: longest_match_def)
  then obtain k q where q: "lookup_policy table target = Some q" "(k, q) \<in> set table" "longest_match table target k"
    using lookup_policy_loop_result [of table target None 0] unfolding lookup_policy_def by blast
  from q(3) key(3) have "k = key" by (rule longest_match_unique)
  with q key(1) assms show "lookup_policy table target = Some p" by (metis eq_key_imp_eq_value)
qed

section \<open>Counting in a window\<close>

definition in_window :: "int list \<Rightarrow> int \<Rightarrow> int \<Rightarrow> nat" where
  "in_window h s e = length (filter (\<lambda>x. s \<le> x \<and> x < e) h)"

lemma in_window_Nil [simp]: "in_window [] s e = 0"
  by (simp add: in_window_def)

lemma in_window_snoc [simp]: "in_window (h @ [x]) s e = in_window h s e + (if s \<le> x \<and> x < e then 1 else 0)"
  by (simp add: in_window_def)

lemma in_window_mono:
  "(\<And>x. x \<in> set h \<Longrightarrow> s \<le> x \<Longrightarrow> x < e \<Longrightarrow> s' \<le> x \<and> x < e') \<Longrightarrow> in_window h s e \<le> in_window h s' e'"
  unfolding in_window_def by (induction h) auto

lemma in_window_split: "s \<le> m \<Longrightarrow> m \<le> e \<Longrightarrow> in_window h s e = in_window h s m + in_window h m e"
  unfolding in_window_def by (induction h) auto

text \<open>
  What a bucket with the given start and count \<open>n\<close> says about the times \<open>h\<close> of the requests admitted
  so far, for a window of \<open>w\<close> nanoseconds and at most \<open>m\<close> requests.
\<close>

definition window_ok :: "int \<Rightarrow> nat \<Rightarrow> int \<Rightarrow> nat \<Rightarrow> int list \<Rightarrow> bool" where
  "window_ok w m start n h \<longleftrightarrow>
     (\<forall>x \<in> set h. x < start + w) \<and> in_window h start (start + w) \<le> n \<and> n \<le> m
     \<and> (\<forall>s > start - w. in_window h s start \<le> m) \<and> (\<forall>s. in_window h s (s + w) \<le> 2 * m)"

lemma window_ok_count:
  assumes "window_ok w m start n h" and "n < m" and "start \<le> now" and "now < start + w"
  shows "window_ok w m start (n + 1) (h @ [now])"
proof -
  have "in_window (h @ [now]) s (s + w) \<le> 2 * m" for s
  proof (cases "s \<le> now \<and> now < s + w")
    case True
    have "in_window h s (s + w) \<le> m + n"
    proof (cases "start \<le> s")
      case True
      then have "in_window h s (s + w) \<le> in_window h start (start + w)"
        using assms(1) by (intro in_window_mono) (auto simp: window_ok_def)
      with assms show ?thesis by (auto simp: window_ok_def)
    next
      case False
      then have "in_window h s (s + w) = in_window h s start + in_window h start (s + w)"
        using assms(3) True by (intro in_window_split) auto
      moreover have "in_window h start (s + w) \<le> in_window h start (start + w)"
        using False by (intro in_window_mono) auto
      moreover have "in_window h s start \<le> m" using assms True by (auto simp: window_ok_def)
      ultimately show ?thesis using assms(1) by (auto simp: window_ok_def)
    qed
    with True assms(2) show ?thesis by simp
  next
    case False
    then have "in_window (h @ [now]) s (s + w) = in_window h s (s + w)" by (simp only: in_window_snoc) simp
    with assms(1) show ?thesis by (simp add: window_ok_def)
  qed
  with assms show ?thesis by (auto simp: window_ok_def)
qed

lemma window_ok_reset:
  assumes "window_ok w m start n h" and "start + w \<le> now" and "1 \<le> m" and "0 < w"
  shows "window_ok w m now 1 (h @ [now])"
proof -
  have old: "in_window h s e \<le> m" if "start \<le> s" for s e
  proof -
    have "in_window h s e \<le> in_window h start (start + w)"
      using assms(1) that by (intro in_window_mono) (auto simp: window_ok_def)
    with assms(1) show ?thesis by (auto simp: window_ok_def)
  qed
  have "in_window h now (now + w) \<le> in_window h now now"
    using assms(1,2) by (intro in_window_mono) (auto simp: window_ok_def)
  then have none: "in_window h now (now + w) = 0" by (simp add: in_window_def)
  have "in_window (h @ [now]) s (s + w) \<le> 2 * m" for s
  proof (cases "s \<le> now \<and> now < s + w")
    case True
    then have "in_window h s (s + w) \<le> m" using assms(2) by (intro old) simp
    with assms(3) show ?thesis by simp
  next
    case False
    then have "in_window (h @ [now]) s (s + w) = in_window h s (s + w)" by (simp only: in_window_snoc) simp
    with assms(1) show ?thesis by (simp add: window_ok_def)
  qed
  moreover have "in_window (h @ [now]) s now \<le> m" if "now - w < s" for s
    using old [of s now] that assms(2) by simp
  moreover have "\<forall>x \<in> set (h @ [now]). x < now + w"
    using assms(1,2,4) by (auto simp: window_ok_def)
  ultimately show ?thesis
    using none assms(3,4) by (simp add: window_ok_def)
qed

lemma window_ok_forget:
  assumes "window_ok w m start n (h @ [now])"
  shows "window_ok w m start n h"
proof -
  have grow: "in_window h s e \<le> in_window (h @ [now]) s e" for s e by simp
  have "in_window (h @ [now]) start (start + w) \<le> n" "\<And>s. start - w < s \<Longrightarrow> in_window (h @ [now]) s start \<le> m"
    "\<And>s. in_window (h @ [now]) s (s + w) \<le> 2 * m" "n \<le> m" "\<forall>x \<in> set h. x < start + w"
    using assms by (simp_all only: window_ok_def) auto
  then show ?thesis
    unfolding window_ok_def using grow le_trans by blast
qed

section \<open>Bucket tables\<close>

lemma check_bucket_lookup:
  assumes "key \<noteq> []"
  shows "map_of (snd (check_bucket table key (Some p) now)) key =
     Some (case map_of table key of
        None \<Rightarrow> \<lparr>bucket_count = 1, bucket_window_seconds = window_seconds p, window_start = now\<rparr>
      | Some b \<Rightarrow>
          (let expired = (now - window_start b \<ge> seconds (window_seconds p));
               c = (if expired then 0 else bucket_count b)
           in \<lparr>bucket_count = (if c \<ge> max_requests p then c else c + 1), bucket_window_seconds = window_seconds p,
               window_start = (if expired then now else window_start b)\<rparr>))"
  using assms by (simp add: check_bucket_def update_conv' Let_def split: option.split)

lemma check_bucket_allowed:
  assumes "key \<noteq> []"
  shows "rl_allowed (fst (check_bucket table key (Some p) now)) \<longleftrightarrow>
     (case map_of table key of
        None \<Rightarrow> True
      | Some b \<Rightarrow> (if now - window_start b \<ge> seconds (window_seconds p) then 0 else bucket_count b) < max_requests p)"
  using assms by (auto simp: check_bucket_def Let_def split: option.split)

lemma check_bucket_other:
  assumes "q \<noteq> k" and "map_of table q \<noteq> None \<or> length table < kMaxBucketsPerTable"
  shows "map_of (snd (check_bucket table q policy now)) k = map_of table k"
  using assms
  by (auto simp: check_bucket_def update_conv' Let_def evict_to_make_room_def split: option.split)

lemma length_update: "length (AList.update k v al) = (if k \<in> fst ` set al then length al else Suc (length al))"
  by (induction al) auto

lemma length_delete_less: "k \<in> fst ` set al \<Longrightarrow> length (AList.delete k al) < length al"
proof (induction al)
  case (Cons a al)
  then show ?case
    using length_delete_le [of k al] by (cases "k \<in> fst ` set al") (auto simp: less_Suc_eq_le)
qed simp

lemma oldest_entry_mem: "oldest_entry e table \<in> insert (fst e) (fst ` set table)"
  by (induction table arbitrary: e) (auto split: if_splits)

definition table_ok :: "BucketTable \<Rightarrow> bool" where
  "table_ok table \<longleftrightarrow> distinct (map fst table) \<and> length table \<le> kMaxBucketsPerTable"

lemma evict_makes_room:
  assumes "table_ok table"
  shows "distinct (map fst (evict_to_make_room table now))"
    and "length (evict_to_make_room table now) < kMaxBucketsPerTable"
    and "fst ` set (evict_to_make_room table now) \<subseteq> fst ` set table"
proof -
  let ?fresh = "filter (\<lambda>entry. \<not> now - window_start (snd entry)
      \<ge> int (bucket_window_seconds (snd entry)) * 2 * 1000000000) table"
  have d: "distinct (map fst table)" and len: "length table \<le> kMaxBucketsPerTable"
    using assms by (simp_all add: table_ok_def)
  have df: "distinct (map fst ?fresh)" using d by (rule distinct_map_filter)
  have lf: "length ?fresh \<le> kMaxBucketsPerTable" using len length_filter_le le_trans by blast
  have "length (AList.delete (oldest_entry (hd ?fresh) ?fresh) ?fresh) < kMaxBucketsPerTable"
    if "\<not> length ?fresh < kMaxBucketsPerTable"
  proof -
    have "?fresh \<noteq> []" using that by auto
    then have "oldest_entry (hd ?fresh) ?fresh \<in> fst ` set ?fresh"
      using oldest_entry_mem [of "hd ?fresh" ?fresh] hd_in_set [of ?fresh] by auto
    from length_delete_less [OF this] lf show ?thesis by (rule less_le_trans)
  qed
  then show "length (evict_to_make_room table now) < kMaxBucketsPerTable"
    by (auto simp: evict_to_make_room_def Let_def)
  show "distinct (map fst (evict_to_make_room table now))"
    using d df by (simp add: evict_to_make_room_def Let_def distinct_delete)
  show "fst ` set (evict_to_make_room table now) \<subseteq> fst ` set table"
    by (auto simp: evict_to_make_room_def Let_def AList.delete_eq)
qed

lemma check_bucket_table_ok:
  assumes "table_ok table"
  shows "table_ok (snd (check_bucket table key policy now))"
proof (cases "\<exists>b. map_of table key = Some b")
  case True
  then have "key \<in> fst ` set table" using map_of_eq_None_iff [of table key] by auto
  with True assms show ?thesis
    by (auto simp: check_bucket_def table_ok_def distinct_update length_update Let_def split: option.split)
next
  case False
  then have "map_of table key = None" by simp
  with assms evict_makes_room [OF assms, of now] show ?thesis
    by (auto simp: check_bucket_def table_ok_def distinct_update length_update split: option.split)
qed

lemma check_bucket_keys:
  assumes "table_ok table"
  shows "fst ` set (snd (check_bucket table key policy now)) \<subseteq> insert key (fst ` set table)"
  using evict_makes_room(3) [OF assms, of now]
  by (auto simp: check_bucket_def Let_def dom_update split: option.split)

section \<open>Runs of the engine\<close>

record RateRequest =
  rq_now :: int
  rq_ip :: string
  rq_target :: string
  rq_user :: string

definition step_engine :: "RateLimitEngine \<Rightarrow> RateRequest \<Rightarrow> RateLimitDecision \<times> RateLimitEngine" where
  "step_engine engine r = check engine (rq_now r) (rq_ip r) (rq_target r) (rq_user r)"

fun run_checks :: "RateLimitEngine \<Rightarrow> RateRequest list \<Rightarrow> RateLimitDecision list" where
  "run_checks engine [] = []"
| "run_checks engine (r # rs) = fst (step_engine engine r) # run_checks (snd (step_engine engine r)) rs"

definition fresh_engine :: "RateLimitConfig \<Rightarrow> RateLimitEngine" where
  "fresh_engine config = \<lparr>m_config = config, m_ip_buckets = [], m_user_buckets = []\<rparr>"

inductive engine_reachable :: "RateLimitConfig \<Rightarrow> RateLimitEngine \<Rightarrow> bool" for config where
  fresh: "engine_reachable config (fresh_engine config)"
| checked: "engine_reachable config engine \<Longrightarrow> engine_reachable config (snd (step_engine engine r))"
| restarted: "engine_reachable config engine \<Longrightarrow> engine_reachable config (reset_engine engine)"

lemma step_engine_tables:
  "m_config (snd (step_engine engine r)) = m_config engine"
  "m_ip_buckets (snd (step_engine engine r)) =
     (case resolve_per_ip_policy (m_config engine) (rq_target r) of
        None \<Rightarrow> m_ip_buckets engine
      | Some p \<Rightarrow> if rq_ip r = [] then m_ip_buckets engine
                  else snd (check_bucket (m_ip_buckets engine) (rq_ip r) (Some p) (rq_now r)))"
  "m_user_buckets (snd (step_engine engine r)) =
     (case resolve_per_ip_policy (m_config engine) (rq_target r) of
        None \<Rightarrow> m_user_buckets engine
      | Some p \<Rightarrow> if rq_user r = [] then m_user_buckets engine
                  else snd (check_bucket (m_user_buckets engine) (rq_user r)
                         (resolve_per_user_policy (m_config engine) (rq_target r)) (rq_now r)))"
  by (simp_all add: step_engine_def check_def Let_def split_beta split: option.split)

lemma step_engine_allowed:
  "rl_allowed (fst (step_engine engine r)) \<longleftrightarrow>
     (\<exists>p. resolve_per_ip_policy (m_config engine) (rq_target r) = Some p
        \<and> (rq_ip r = [] \<or> rl_allowed (fst (check_bucket (m_ip_buckets engine) (rq_ip r) (Some p) (rq_now r))))
        \<and> (rq_user r = [] \<or> rl_allowed (fst (check_bucket (m_user_buckets engine) (rq_user r)
             (resolve_per_user_policy (m_config engine) (rq_target r)) (rq_now r)))))"
  by (auto simp: step_engine_def check_def Let_def split_beta split: option.split)

text \<open>
  However many distinct addresses and users the requests name, a bucket table never holds more
  than 100000 entries and lists no key twice, in every state the engine can reach by requests and
  restarts.
\<close>
theorem bucket_tables_bounded:
  assumes "engine_reachable config engine"
  shows "m_config engine = config
     \<and> length (m_ip_buckets engine) \<le> kMaxBucketsPerTable \<and> distinct (map fst (m_ip_buckets engine))
     \<and> length (m_user_buckets engine) \<le> kMaxBucketsPerTable \<and> distinct (map fst (m_user_buckets engine))"
proof -
  have "m_config engine = config \<and> table_ok (m_ip_buckets engine) \<and> table_ok (m_user_buckets engine)"
    using assms
  proof (induction rule: engine_reachable.induct)
    case (checked engine r)
    then show ?case
      by (simp add: step_engine_tables check_bucket_table_ok split: option.split)
  qed (simp_all add: fresh_engine_def reset_engine_def table_ok_def)
  then show ?thesis by (simp add: table_ok_def)
qed

section \<open>The rate of one address\<close>

text \<open>The bucket of \<open>k\<close> accounts for the admitted requests at times \<open>h\<close>, all before \<open>now\<close>.\<close>

definition bucket_accounts :: "BucketTable \<Rightarrow> string \<Rightarrow> RateLimitPolicy \<Rightarrow> int list \<Rightarrow> int \<Rightarrow> bool" where
  "bucket_accounts table k p h now \<longleftrightarrow>
     (case map_of table k of
        None \<Rightarrow> h = []
      | Some b \<Rightarrow> window_start b \<le> now
          \<and> window_ok (seconds (window_seconds p)) (max_requests p) (window_start b) (bucket_count b) h)"

lemma bucket_accounts_later: "bucket_accounts table k p h now \<Longrightarrow> now \<le> now' \<Longrightarrow> bucket_accounts table k p h now'"
  by (auto simp: bucket_accounts_def split: option.splits)

lemma bucket_accounts_step:
  assumes "bucket_accounts table k p h now" and "rate_limit_policy_is_valid p" and "k \<noteq> []"
  defines "step \<equiv> check_bucket table k (Some p) now"
  shows "bucket_accounts (snd step) k p (if rl_allowed (fst step) then h @ [now] else h) now"
proof (cases "map_of table k")
  case None
  have "window_ok (seconds (window_seconds p)) (max_requests p) now 1 ([] @ [now])"
    using assms(2) unfolding window_ok_def in_window_snoc by (auto simp: rate_limit_policy_is_valid_def)
  with None assms(1) show ?thesis
    unfolding step_def bucket_accounts_def check_bucket_lookup [OF assms(3)] check_bucket_allowed [OF assms(3)]
    by simp
next
  case (Some b)
  let ?w = "seconds (window_seconds p)"
  have b: "window_start b \<le> now" "window_ok ?w (max_requests p) (window_start b) (bucket_count b) h"
    using assms(1) Some by (simp_all add: bucket_accounts_def)
  have valid: "1 \<le> max_requests p" "0 < ?w" using assms(2) by (simp_all add: rate_limit_policy_is_valid_def)
  show ?thesis
  proof (cases "now - window_start b \<ge> ?w")
    case True
    then have "window_ok ?w (max_requests p) now 1 (h @ [now])"
      using window_ok_reset [OF b(2) _ valid] by simp
    with True Some valid show ?thesis
      unfolding step_def bucket_accounts_def check_bucket_lookup [OF assms(3)] check_bucket_allowed [OF assms(3)]
      by (simp add: Let_def)
  next
    case False
    show ?thesis
    proof (cases "bucket_count b < max_requests p")
      case True
      then have "window_ok ?w (max_requests p) (window_start b) (bucket_count b + 1) (h @ [now])"
        using window_ok_count [OF b(2) _ b(1)] False by simp
      with True False Some b(1) show ?thesis
        unfolding step_def bucket_accounts_def check_bucket_lookup [OF assms(3)] check_bucket_allowed [OF assms(3)]
        by (simp add: Let_def)
    next
      case full: False
      with False Some b show ?thesis
        unfolding step_def bucket_accounts_def check_bucket_lookup [OF assms(3)] check_bucket_allowed [OF assms(3)]
        by (simp add: Let_def)
    qed
  qed
qed

lemma bucket_accounts_forget: "bucket_accounts table k p (h @ [x]) now \<Longrightarrow> bucket_accounts table k p h now"
  by (auto simp: bucket_accounts_def dest: window_ok_forget split: option.splits)

lemma bucket_accounts_bound:
  "bucket_accounts table k p h now \<Longrightarrow> in_window h s (s + seconds (window_seconds p)) \<le> 2 * max_requests p"
  by (auto simp: bucket_accounts_def window_ok_def split: option.splits)

text \<open>The times at which requests of the address \<open>k\<close> were admitted.\<close>

definition admitted_times :: "string \<Rightarrow> RateRequest list \<Rightarrow> RateLimitDecision list \<Rightarrow> int list" where
  "admitted_times k rs ds = map (rq_now \<circ> fst) (filter (\<lambda>(r, d). rq_ip r = k \<and> rl_allowed d) (zip rs ds))"

text \<open>The addresses seen so far are among \<open>K\<close>, so that no entry is ever evicted.\<close>

definition roomy :: "BucketTable \<Rightarrow> string set \<Rightarrow> bool" where
  "roomy table K \<longleftrightarrow> table_ok table \<and> fst ` set table \<subseteq> K \<and> finite K \<and> card K \<le> kMaxBucketsPerTable"

lemma roomy_no_eviction:
  assumes "roomy table K" and "q \<in> K"
  shows "map_of table q \<noteq> None \<or> length table < kMaxBucketsPerTable"
proof (rule disjCI)
  assume "\<not> length table < kMaxBucketsPerTable"
  moreover have "card (fst ` set table) = length table"
    using assms(1) by (metis distinct_card length_map list.set_map roomy_def table_ok_def)
  ultimately have "card K \<le> card (fst ` set table)" using assms(1) by (simp add: roomy_def)
  then have "fst ` set table = K" using assms(1) by (simp add: roomy_def card_seteq)
  with assms(2) show "map_of table q \<noteq> None" by (simp add: map_of_eq_None_iff)
qed

lemma roomy_check_bucket: "roomy table K \<Longrightarrow> q \<in> K \<Longrightarrow> roomy (snd (check_bucket table q policy now)) K"
  using check_bucket_table_ok [of table q policy now] check_bucket_keys [of table q policy now]
  unfolding roomy_def by blast

lemma step_engine_accounts:
  assumes "bucket_accounts (m_ip_buckets engine) k p h (rq_now r)" and "roomy (m_ip_buckets engine) K" and "rq_ip r \<in> K"
    and "k \<noteq> []" and "rate_limit_policy_is_valid p"
    and "rq_ip r = k \<longrightarrow> resolve_per_ip_policy (m_config engine) (rq_target r) = Some p"
  shows "roomy (m_ip_buckets (snd (step_engine engine r))) K"
    and "bucket_accounts (m_ip_buckets (snd (step_engine engine r))) k p
           (h @ admitted_times k [r] [fst (step_engine engine r)]) (rq_now r)"
proof -
  let ?step = "check_bucket (m_ip_buckets engine) (rq_ip r)"
  show "roomy (m_ip_buckets (snd (step_engine engine r))) K"
    using assms(2,3) by (simp add: step_engine_tables roomy_check_bucket split: option.split)
  show "bucket_accounts (m_ip_buckets (snd (step_engine engine r))) k p
           (h @ admitted_times k [r] [fst (step_engine engine r)]) (rq_now r)"
  proof (cases "rq_ip r = k")
    case False
    then have "map_of (snd (?step policy (rq_now r))) k = map_of (m_ip_buckets engine) k" for policy
      using check_bucket_other roomy_no_eviction [OF assms(2,3)] by blast
    then have "map_of (m_ip_buckets (snd (step_engine engine r))) k = map_of (m_ip_buckets engine) k"
      by (simp add: step_engine_tables split: option.split)
    with False assms(1) show ?thesis
      by (simp add: admitted_times_def bucket_accounts_def)
  next
    case True
    with assms(4,6) have "m_ip_buckets (snd (step_engine engine r)) = snd (?step (Some p) (rq_now r))"
      and "rl_allowed (fst (step_engine engine r)) \<Longrightarrow> rl_allowed (fst (?step (Some p) (rq_now r)))"
      by (auto simp: step_engine_tables step_engine_allowed)
    with bucket_accounts_step [OF assms(1,5,4)] True show ?thesis
      by (auto simp: admitted_times_def split: if_splits dest: bucket_accounts_forget)
  qed
qed

lemma admitted_times_Cons: "admitted_times k (r # rs) (d # ds) = admitted_times k [r] [d] @ admitted_times k rs ds"
  by (simp add: admitted_times_def)

lemma run_checks_bound:
  assumes "bucket_accounts (m_ip_buckets engine) k p h now" and "roomy (m_ip_buckets engine) K"
    and "rq_ip ` set rs \<subseteq> K" and "k \<noteq> []" and "rate_limit_policy_is_valid p"
    and "\<forall>r \<in> set rs. rq_ip r = k \<longrightarrow> resolve_per_ip_policy (m_config engine) (rq_target r) = Some p"
    and "sorted (now # map rq_now rs)"
  shows "in_window (h @ admitted_times k rs (run_checks engine rs)) s (s + seconds (window_seconds p)) \<le> 2 * max_requests p"
  using assms
proof (induction rs arbitrary: engine h now)
  case Nil
  from bucket_accounts_bound [OF Nil(1)] show ?case by (simp add: admitted_times_def)
next
  case (Cons r rs)
  have accounts: "bucket_accounts (m_ip_buckets engine) k p h (rq_now r)"
    using bucket_accounts_later [OF Cons.prems(1)] Cons.prems(7) by simp
  have ip: "rq_ip r \<in> K" and policy: "rq_ip r = k \<longrightarrow> resolve_per_ip_policy (m_config engine) (rq_target r) = Some p"
    using Cons.prems(3,6) by simp_all
  note step = step_engine_accounts [OF accounts Cons.prems(2) ip Cons.prems(4,5) policy]
  have "in_window ((h @ admitted_times k [r] [fst (step_engine engine r)])
        @ admitted_times k rs (run_checks (snd (step_engine engine r)) rs)) s (s + seconds (window_seconds p))
      \<le> 2 * max_requests p"
    by (rule Cons.IH [OF step(2,1) _ Cons.prems(4,5)]) (use Cons.prems(3,6,7) in \<open>simp_all add: step_engine_tables(1)\<close>)
  then show ?case by (simp only: run_checks.simps admitted_times_Cons [of k r rs] append_assoc)
qed


text \<open>
  C20: a denial ends when it says it does: a request without a user that is denied by the address
  limit is told to wait for at least one millisecond and at most one window, and the same request
  made after that time is admitted.
\<close>
theorem retry_after_is_enough:
  assumes "\<not> rl_allowed (fst (check engine now k target []))"
    and "rl_deny_reason (fst (check engine now k target [])) = ''per_ip_cap''"
    and "\<forall>b. map_of (m_ip_buckets engine) k = Some b \<longrightarrow> window_start b \<le> now"
    and "now' \<ge> now + int (rl_retry_after_ms (fst (check engine now k target []))) * 1000000"
  shows "0 < rl_retry_after_ms (fst (check engine now k target []))
     \<and> rl_retry_after_ms (fst (check engine now k target []))
         \<le> 1000 * window_seconds (the (resolve_per_ip_policy (m_config engine) target))
     \<and> rl_allowed (fst (check (snd (check engine now k target [])) now' k target []))"
proof -
  obtain p where p: "resolve_per_ip_policy (m_config engine) target = Some p"
    using assms(2) by (auto simp: check_def Let_def split: option.splits)
  have valid: "0 < max_requests p" "0 < window_seconds p"
    using resolve_per_ip_policy_valid [OF p] by (simp_all add: rate_limit_policy_is_valid_def)
  have k: "k \<noteq> []" using assms(1) p by (auto simp: check_def Let_def)
  let ?step = "check_bucket (m_ip_buckets engine) k (Some p) now"
  have denied: "\<not> rl_allowed (fst ?step)" using assms(1) p k by (auto simp: check_def Let_def split_beta)
  then obtain b where b: "map_of (m_ip_buckets engine) k = Some b"
    and full: "now - window_start b < seconds (window_seconds p)" "max_requests p \<le> bucket_count b"
    using valid unfolding check_bucket_allowed [OF k] by (auto split: option.splits if_splits)
  have start: "window_start b \<le> now" using assms(3) b by blast
  have retry: "rl_retry_after_ms (fst (check engine now k target [])) = remaining_window_ms (window_start b) p now"
    using assms(1) p k b full by (auto simp: check_def check_bucket_def Let_def split_beta)
  have look: "map_of (m_ip_buckets (snd (check engine now k target []))) k
      = Some \<lparr>bucket_count = bucket_count b, bucket_window_seconds = window_seconds p, window_start = window_start b\<rparr>"
    and config: "m_config (snd (check engine now k target [])) = m_config engine"
    using p k b full by (auto simp: check_def check_bucket_def update_conv' Let_def split_beta)
  let ?e = "now - window_start b" and ?w = "int (window_seconds p)"
  have ms: "int (remaining_window_ms (window_start b) p now) = ?w * 1000 - ?e div 1000000" and pos: "?e div 1000000 < ?w * 1000"
    and nonneg: "0 \<le> ?e div 1000000"
    using full start by (auto simp: remaining_window_ms_def)
  have "?e - ?e div 1000000 * 1000000 \<ge> 0" by (simp add: minus_div_mult_eq_mod)
  then have late: "now' - window_start b \<ge> seconds (window_seconds p)"
    using assms(4) unfolding retry ms by (simp add: algebra_simps)
  have "rl_allowed (fst (check_bucket (m_ip_buckets (snd (check engine now k target []))) k (Some p) now'))"
    unfolding check_bucket_allowed [OF k] look using late valid by simp
  then have "rl_allowed (fst (check (snd (check engine now k target [])) now' k target []))"
    using p k config by (simp add: check_def [of "snd _"] Let_def split_beta)
  with ms pos nonneg show ?thesis unfolding retry p by simp
qed

section \<open>The built-in defaults\<close>

lemma lookup_policy_exclusive:
  assumes "distinct (map fst table)" and "[] \<notin> fst ` set table"
    and "\<forall>k \<in> fst ` set table. \<forall>k' \<in> fst ` set table. k \<noteq> k' \<longrightarrow> \<not> prefix k k'"
  shows "lookup_policy table target = map_option snd (find (\<lambda>e. prefix (fst e) target) table)"
proof (cases "find (\<lambda>e. prefix (fst e) target) table")
  case None
  then have unmatched: "\<not> longest_match table target key" for key
    by (auto simp: longest_match_def find_None_iff)
  show ?thesis
  proof (cases "lookup_policy table target")
    case (Some p)
    then have "\<exists>key. longest_match table target key" using lookup_policy_iff [OF assms(1)] by blast
    with unmatched show ?thesis by blast
  qed (simp add: None)
next
  case (Some e)
  then have e: "e \<in> set table" "prefix (fst e) target"
    by (auto simp: find_Some_iff)
  have "k = fst e" if "k \<in> fst ` set table" "prefix k target" for k
  proof (rule ccontr)
    assume neq: "k \<noteq> fst e"
    have mem: "fst e \<in> fst ` set table" using e(1) by simp
    from prefix_same_cases [OF that(2) e(2)]
      assms(3) [rule_format, OF that(1) mem neq] assms(3) [rule_format, OF mem that(1) neq [symmetric]]
    show False by blast
  qed
  then have "longest_match table target (fst e)" using e by (auto simp: longest_match_def)
  moreover have "fst e \<noteq> []" using e(1) assms(2) by force
  moreover have "(fst e, snd e) \<in> set table" using e(1) by simp
  ultimately have "lookup_policy table target = Some (snd e)"
    unfolding lookup_policy_iff [OF assms(1)] by blast
  then show ?thesis by (simp only: Some option.map)
qed

lemma builtin_lookup:
  "lookup_policy (builtin_per_ip default_client_rate_limit_config) target = builtin_per_ip_refinement target"
proof -
  have "distinct (map fst (builtin_per_ip default_client_rate_limit_config))"
    "[] \<notin> fst ` set (builtin_per_ip default_client_rate_limit_config)"
    "\<forall>k \<in> fst ` set (builtin_per_ip default_client_rate_limit_config).
       \<forall>k' \<in> fst ` set (builtin_per_ip default_client_rate_limit_config). k \<noteq> k' \<longrightarrow> \<not> prefix k k'"
    by code_simp+
  from lookup_policy_exclusive [OF this] show ?thesis
    by (simp add: default_client_rate_limit_config_def builtin_per_ip_refinement_def)
qed

text \<open>
  The two copies of the built-in limits agree: for every request target the engine with the
  default configuration resolves to the policy that \<open>endpoint_default_rate_limit\<close> names, and it is
  a valid one, so no route is left without a limit.
\<close>
theorem default_limits_in_sync:
  "resolve_per_ip_policy default_client_rate_limit_config target = Some (endpoint_default_rate_limit method_name target)
   \<and> rate_limit_policy_is_valid (endpoint_default_rate_limit method_name target)"
proof -
  have fields: "per_ip default_client_rate_limit_config = []" "tier_overrides default_client_rate_limit_config = []"
    "default_per_ip default_client_rate_limit_config = rl_policy 90 60"
    by (simp_all add: default_client_rate_limit_config_def)
  have "resolve_per_ip_policy default_client_rate_limit_config target = Some (endpoint_default_rate_limit method_name target)"
    unfolding resolve_per_ip_policy_def fields builtin_lookup endpoint_default_rate_limit_def
    by (auto simp: lookup_policy_def valid_or_nullopt_def Let_def rate_limit_policy_is_valid_def
        rate_limit_tier_default_def builtin_per_ip_refinement_def split: option.splits if_splits)
  with resolve_per_ip_policy_valid show ?thesis by blast
qed

section \<open>A sample run\<close>

definition tight_config :: RateLimitConfig where
  "tight_config = default_client_rate_limit_config\<lparr>per_ip := [(''/x'', rl_policy 1 10)]\<rparr>"

definition x_request :: "int \<Rightarrow> string \<Rightarrow> RateRequest" where
  "x_request now ip = \<lparr>rq_now = now, rq_ip = ip, rq_target = ''/x/y'', rq_user = []\<rparr>"

definition x_run :: "RateRequest list" where
  "x_run = [x_request 9000000000 ''a'', x_request 9500000000 ''b'', x_request 9600000000 ''a'', x_request 19000000000 ''a'']"


definition x_engine :: RateLimitEngine where
  "x_engine = snd (step_engine (fresh_engine tight_config) (x_request 9000000000 ''a''))"

theorem bucket_tables_bounded_witness:
  "length (m_ip_buckets x_engine) \<le> kMaxBucketsPerTable \<and> m_ip_buckets x_engine \<noteq> []"
proof -
  have "engine_reachable tight_config x_engine"
    unfolding x_engine_def by (intro engine_reachable.intros)
  moreover have "m_ip_buckets x_engine \<noteq> []" by code_simp
  ultimately show ?thesis using bucket_tables_bounded [of tight_config x_engine] by simp
qed

theorem retry_after_is_enough_witness:
  "rl_allowed (fst (check (snd (check x_engine 9600000000 ''a'' ''/x/y'' [])) 19000000000 ''a'' ''/x/y'' []))
   \<and> rl_retry_after_ms (fst (check x_engine 9600000000 ''a'' ''/x/y'' [])) = 9400"
proof -
  have facts: "\<not> rl_allowed (fst (check x_engine 9600000000 ''a'' ''/x/y'' []))"
    "rl_deny_reason (fst (check x_engine 9600000000 ''a'' ''/x/y'' [])) = ''per_ip_cap''"
    "window_start (the (map_of (m_ip_buckets x_engine) ''a'')) \<le> 9600000000"
    "rl_retry_after_ms (fst (check x_engine 9600000000 ''a'' ''/x/y'' [])) = 9400"
    by code_simp+
  moreover have "\<forall>b. map_of (m_ip_buckets x_engine) ''a'' = Some b \<longrightarrow> window_start b \<le> 9600000000"
    using facts(3) by (metis option.sel)
  ultimately show ?thesis
    using retry_after_is_enough [of x_engine 9600000000 "''a''" "''/x/y''" 19000000000] by auto
qed

end
