(* ===== verification/Glob.thy ===== *)
theory Glob
  imports Merovingian_Prelude
begin

text \<open>
  Glob patterns of the Matrix specification: a star stands for any text, a question mark for one
  character. \<open>glob_matches\<close> says declaratively what a match is; \<open>glob_matcher\<close> is the contract that the
  two table-driven matchers of the server (\<open>src/federation/server_acl.cpp\<close> and
  \<open>src/push/push_rules.cpp\<close>) fulfil, with what their callers rely on.
\<close>

text \<open>\<open>std::tolower\<close> of the C locale.\<close>

definition to_lower_ascii :: "char \<Rightarrow> char" where
  "to_lower_ascii c = (if 65 \<le> byte c \<and> byte c \<le> 90 then char_of (byte c + 32) else c)"

definition ascii_lower :: "string \<Rightarrow> string" where
  "ascii_lower value = map to_lower_ascii value"

section \<open>Matching as a division of the text into pieces\<close>

definition glob_piece :: "char \<Rightarrow> string \<Rightarrow> bool" where
  "glob_piece x piece \<longleftrightarrow>
     (if x = CHR ''*'' then True else if x = CHR ''?'' then length piece = 1
      else \<exists>c. piece = [c] \<and> to_lower_ascii c = to_lower_ascii x)"

definition glob_matches :: "string \<Rightarrow> string \<Rightarrow> bool" where
  "glob_matches pattern t \<longleftrightarrow> (\<exists>pieces. list_all2 glob_piece pattern pieces \<and> concat pieces = t)"

named_theorems glob_simps

lemma glob_matches_Nil [glob_simps]: "glob_matches [] t \<longleftrightarrow> t = []"
  by (auto simp: glob_matches_def)

lemma glob_matches_snoc:
  "glob_matches (q @ [x]) t \<longleftrightarrow> (\<exists>u v. t = u @ v \<and> glob_matches q u \<and> glob_piece x v)"
proof
  assume "glob_matches (q @ [x]) t"
  then obtain pieces v where "list_all2 glob_piece q pieces" "glob_piece x v" "concat pieces @ v = t"
    by (auto simp: glob_matches_def list_all2_append1 list_all2_Cons1)
  then show "\<exists>u v. t = u @ v \<and> glob_matches q u \<and> glob_piece x v" by (auto simp: glob_matches_def)
next
  assume "\<exists>u v. t = u @ v \<and> glob_matches q u \<and> glob_piece x v"
  then obtain pieces v where "list_all2 glob_piece q pieces" "glob_piece x v" "t = concat pieces @ v"
    by (auto simp: glob_matches_def)
  then have "list_all2 glob_piece (q @ [x]) (pieces @ [v])" "concat (pieces @ [v]) = t"
    by (auto intro: list_all2_appendI)
  then show "glob_matches (q @ [x]) t" unfolding glob_matches_def by blast
qed

lemma glob_matches_snoc_empty [glob_simps]: "glob_matches (q @ [x]) [] \<longleftrightarrow> x = CHR ''*'' \<and> glob_matches q []"
  by (auto simp: glob_matches_snoc glob_piece_def)

lemma glob_matches_star_snoc [glob_simps]:
  "glob_matches (q @ [CHR ''*'']) (w @ [c]) \<longleftrightarrow> glob_matches q (w @ [c]) \<or> glob_matches (q @ [CHR ''*'']) w"
proof -
  have "(\<exists>u v. w @ [c] = u @ v \<and> glob_matches q u) \<longleftrightarrow> glob_matches q (w @ [c]) \<or> (\<exists>u v. w = u @ v \<and> glob_matches q u)"
  proof
    assume "\<exists>u v. w @ [c] = u @ v \<and> glob_matches q u"
    then obtain u v where uv: "w @ [c] = u @ v" "glob_matches q u" by blast
    then show "glob_matches q (w @ [c]) \<or> (\<exists>u v. w = u @ v \<and> glob_matches q u)"
      by (cases v rule: rev_cases) auto
  next
    assume "glob_matches q (w @ [c]) \<or> (\<exists>u v. w = u @ v \<and> glob_matches q u)"
    then show "\<exists>u v. w @ [c] = u @ v \<and> glob_matches q u" by (metis append_Nil2 append_assoc)
  qed
  then show ?thesis by (simp add: glob_matches_snoc glob_piece_def)
qed

lemma glob_matches_question_snoc [glob_simps]:
  "glob_matches (q @ [CHR ''?'']) (w @ [c]) \<longleftrightarrow> glob_matches q w"
  by (auto simp: glob_matches_snoc glob_piece_def length_Suc_conv)

lemma glob_matches_char_snoc [glob_simps]:
  assumes "x \<noteq> CHR ''*''" and "x \<noteq> CHR ''?''"
  shows "glob_matches (q @ [x]) (w @ [c]) \<longleftrightarrow> to_lower_ascii c = to_lower_ascii x \<and> glob_matches q w"
  using assms by (auto simp: glob_matches_snoc glob_piece_def)

section \<open>The contract of a matcher\<close>

definition literal_pattern :: "string \<Rightarrow> bool" where
  "literal_pattern pattern \<longleftrightarrow> CHR ''*'' \<notin> set pattern \<and> CHR ''?'' \<notin> set pattern"

locale glob_matcher =
  fixes matches :: "string \<Rightarrow> string \<Rightarrow> bool"
  assumes matches_iff: "matches pattern t \<longleftrightarrow> glob_matches pattern t"
begin

lemma star_matches: "matches ''*'' t"
  using glob_matches_snoc [of "[]"] by (simp add: matches_iff glob_piece_def glob_matches_Nil)

lemma literal_matches_iff:
  "literal_pattern pattern \<Longrightarrow> matches pattern t \<longleftrightarrow> ascii_lower pattern = ascii_lower t"
proof (induction pattern arbitrary: t rule: rev_induct)
  case (snoc x q)
  then have lit: "literal_pattern q" "x \<noteq> CHR ''*''" "x \<noteq> CHR ''?''" by (auto simp: literal_pattern_def)
  note IH = snoc.IH [OF lit(1)]
  show ?case
  proof (cases t rule: rev_cases)
    case Nil
    then show ?thesis using lit by (simp add: matches_iff glob_matches_snoc_empty ascii_lower_def)
  next
    case (snoc w c)
    have "glob_matches q w \<longleftrightarrow> ascii_lower q = ascii_lower w" using IH by (simp only: matches_iff)
    then show ?thesis
      unfolding snoc matches_iff glob_matches_char_snoc [OF lit(2,3)] by (auto simp: ascii_lower_def)
  qed
qed (simp add: matches_iff glob_matches_Nil ascii_lower_def)

lemma star_prefix_matches_iff:
  assumes "literal_pattern ending"
  shows "matches (CHR ''*'' # ending) t \<longleftrightarrow> (\<exists>u v. t = u @ v \<and> ascii_lower v = ascii_lower ending)"
  using assms
proof (induction ending arbitrary: t rule: rev_induct)
  case Nil
  then show ?case using star_matches by (auto simp: ascii_lower_def)
next
  case (snoc x q)
  have lit: "literal_pattern q" "x \<noteq> CHR ''*''" "x \<noteq> CHR ''?''" using snoc.prems by (auto simp: literal_pattern_def)
  note IH = snoc.IH [OF lit(1)]
  show ?case
  proof (cases t rule: rev_cases)
    case Nil
    then show ?thesis
      using lit glob_matches_snoc_empty [of "CHR ''*'' # q" x] by (simp add: matches_iff ascii_lower_def)
  next
    case (snoc w c)
    have "(\<exists>u v. w @ [c] = u @ v \<and> ascii_lower v = ascii_lower (q @ [x]))
      \<longleftrightarrow> to_lower_ascii c = to_lower_ascii x \<and> (\<exists>u v. w = u @ v \<and> ascii_lower v = ascii_lower q)" (is "?l \<longleftrightarrow> ?r")
    proof
      assume ?l
      then obtain u v where uv: "w @ [c] = u @ v" "ascii_lower v = ascii_lower (q @ [x])" by blast
      then show ?r by (cases v rule: rev_cases) (auto simp: ascii_lower_def)
    next
      assume ?r
      then obtain u v where "w = u @ v" "ascii_lower v = ascii_lower q" "to_lower_ascii c = to_lower_ascii x" by blast
      then have "w @ [c] = u @ (v @ [c])" "ascii_lower (v @ [c]) = ascii_lower (q @ [x])"
        by (auto simp: ascii_lower_def)
      then show ?l by blast
    qed
    then show ?thesis
      using snoc lit IH [of w] glob_matches_char_snoc [OF lit(2,3), of "CHR ''*'' # q" w c] by (simp add: matches_iff)
  qed
qed

end

end
