(* ===== verification/Federation_Security.thy ===== *)
theory Federation_Security
  imports Json_Utf8 Event_Envelope Rate_Limit
begin

unbundle bit_operations_syntax

text \<open>
  The checks on remote servers: \<open>src/federation/security.cpp\<close>. The parser of address literals,
  \<open>inet_pton\<close>, belongs to the C library and is a parameter: \<open>pton4\<close> gives the 32 bits of an IPv4
  literal in host order, \<open>pton6\<close> the sixteen bytes of an IPv6 literal.

  Shown: a remote server that passes discovery has TLS and only addresses outside the loopback,
  private, link-local and unique-local networks, written down as network prefixes.
\<close>

section \<open>Names and addresses\<close>

record Inet =
  pton4 :: "string \<Rightarrow> 32 word option"
  pton6 :: "string \<Rightarrow> 8 word list option"

text \<open>What a C function sees of a string: the characters before the first NUL.\<close>

definition c_str :: "string \<Rightarrow> string" where
  "c_str s = takeWhile (\<lambda>c. byte c \<noteq> 0) s"

definition server_name_is_valid :: "string \<Rightarrow> bool" where
  "server_name_is_valid name \<longleftrightarrow>
     name \<noteq> [] \<and> length name \<le> 255 \<and> find_char (CHR ''.'') name \<noteq> None \<and> contains_no_control_or_space name"

definition ipv4_is_private_or_loopback :: "32 word \<Rightarrow> bool" where
  "ipv4_is_private_or_loopback address =
     (let first = (drop_bit 24 address AND 255); second = (drop_bit 16 address AND 255)
      in first = 0 \<or> first = 10 \<or> first = 127 \<or> (first = 169 \<and> second = 254)
         \<or> (first = 172 \<and> second \<ge> 16 \<and> second \<le> 31) \<or> (first = 192 \<and> second = 168))"

definition mapped_v4 :: "8 word list \<Rightarrow> 32 word" where
  "mapped_v4 bytes = (push_bit 24 (ucast (bytes ! 12)) OR push_bit 16 (ucast (bytes ! 13))
     OR push_bit 8 (ucast (bytes ! 14)) OR ucast (bytes ! 15))"

definition ipv6_is_private_or_loopback :: "8 word list \<Rightarrow> bool" where
  "ipv6_is_private_or_loopback bytes =
     (let is_unspecified = list_all (\<lambda>b. b = 0) (take 16 bytes);
          is_loopback = (list_all (\<lambda>b. b = 0) (take 15 bytes) \<and> bytes ! 15 = 1);
          is_unique_local = (bytes ! 0 AND 254 = 252);
          is_link_local = (bytes ! 0 = 254 \<and> bytes ! 1 AND 192 = 128);
          is_v4_mapped = (list_all (\<lambda>b. b = 0) (take 10 bytes) \<and> bytes ! 10 = 255 \<and> bytes ! 11 = 255)
      in is_unspecified \<or> is_loopback \<or> is_unique_local \<or> is_link_local
         \<or> (is_v4_mapped \<and> ipv4_is_private_or_loopback (mapped_v4 bytes)))"

definition ip_address_is_valid :: "Inet \<Rightarrow> string \<Rightarrow> bool" where
  "ip_address_is_valid inet address \<longleftrightarrow> pton4 inet (c_str address) \<noteq> None \<or> pton6 inet (c_str address) \<noteq> None"

definition ip_address_is_private_or_loopback :: "Inet \<Rightarrow> string \<Rightarrow> bool" where
  "ip_address_is_private_or_loopback inet address =
     (case pton4 inet (c_str address) of
        Some v4 \<Rightarrow> ipv4_is_private_or_loopback v4
      | None \<Rightarrow>
          (case pton6 inet (c_str address) of
             Some v6 \<Rightarrow> ipv6_is_private_or_loopback v6
           | None \<Rightarrow> address = ''localhost'' \<or> prefix ''127.'' address \<or> prefix ''10.'' address
                      \<or> prefix ''192.168.'' address \<or> prefix ''169.254.'' address \<or> prefix ''fc'' address
                      \<or> prefix ''fd'' address))"

section \<open>Discovery, signatures and trust\<close>

record RemoteServerRecord =
  remote_server_name :: string
  well_known_host :: string
  resolved_host :: string
  resolved_addresses :: "string list"
  tls_required :: bool

type_synonym FederationDiscoveryDecision = "bool \<times> string"

type_synonym FederationVerificationDecision = "bool \<times> string"

definition federation_discovery_policy :: "Inet \<Rightarrow> RemoteServerRecord \<Rightarrow> FederationDiscoveryDecision" where
  "federation_discovery_policy inet remote =
     (if \<not> server_name_is_valid (remote_server_name remote) then (False, ''invalid remote server name'')
      else if resolved_host remote = [] then (False, ''remote host is unresolved'')
      else if well_known_host remote \<noteq> [] \<and> well_known_host remote \<noteq> resolved_host remote
      then (False, ''well-known host and resolved host mismatch'')
      else if resolved_addresses remote = [] then (False, ''remote addresses are unresolved'')
      else if list_ex (ip_address_is_private_or_loopback inet) (resolved_addresses remote)
      then (False, ''remote address is private or loopback'')
      else if \<not> tls_required remote then (False, ''federation requires TLS'')
      else (True, []))"

record FederationRequestSignature =
  frs_origin :: string
  frs_key_id :: string
  frs_signature :: string
  canonical_json_verified :: bool

definition verify_federation_request_signature :: "FederationRequestSignature \<Rightarrow> FederationVerificationDecision" where
  "verify_federation_request_signature sig =
     (if \<not> server_name_is_valid (frs_origin sig) then (False, ''invalid request origin'')
      else if frs_key_id sig = [] \<or> frs_signature sig = [] then (False, ''missing request signature'')
      else if \<not> canonical_json_verified sig then (False, ''canonical JSON signature verification required'')
      else (True, []))"

definition contains_signature_for :: "EventSignature list \<Rightarrow> string \<Rightarrow> bool" where
  "contains_signature_for sigs expected_server \<longleftrightarrow>
     list_ex (\<lambda>sig. server_name sig = expected_server \<and> key_id sig \<noteq> [] \<and> signature sig \<noteq> []) sigs"

definition verify_federation_event_signatures :: "EventSignature list \<Rightarrow> string \<Rightarrow> FederationVerificationDecision" where
  "verify_federation_event_signatures sigs expected_server =
     (if \<not> server_name_is_valid expected_server then (False, ''invalid expected event signer'')
      else if \<not> contains_signature_for sigs expected_server
      then (False, ''missing event signature for expected server'')
      else (True, []))"

definition federation_remote_rate_limit :: RateLimitPolicy where
  "federation_remote_rate_limit = \<lparr>max_requests = 120, window_seconds = 60\<rparr>"

record RemoteTrustState =
  consecutive_failures :: nat
  reputation_score :: nat
  quarantined :: bool
  circuit_open :: bool

record RemoteTrustDecision =
  trust_accepted :: bool
  apply_backoff :: bool
  trust_reason :: string

definition remote_trust_policy :: "RemoteTrustState \<Rightarrow> RemoteTrustDecision" where
  "remote_trust_policy state =
     (if quarantined state
      then \<lparr>trust_accepted = False, apply_backoff = False, trust_reason = ''remote server is quarantined''\<rparr>
      else if circuit_open state
      then \<lparr>trust_accepted = False, apply_backoff = True, trust_reason = ''remote circuit breaker is open''\<rparr>
      else if reputation_score state < 25
      then \<lparr>trust_accepted = False, apply_backoff = True, trust_reason = ''remote reputation is too low''\<rparr>
      else if consecutive_failures state \<ge> 3
      then \<lparr>trust_accepted = False, apply_backoff = True, trust_reason = ''remote backoff required''\<rparr>
      else \<lparr>trust_accepted = True, apply_backoff = False, trust_reason = []\<rparr>)"

section \<open>Network prefixes\<close>

text \<open>The networks a server must not be made to connect to, as address and prefix length.\<close>

definition in_network4 :: "32 word \<Rightarrow> 32 word \<times> nat \<Rightarrow> bool" where
  "in_network4 address net \<longleftrightarrow> drop_bit (32 - snd net) address = drop_bit (32 - snd net) (fst net)"

definition dotted :: "nat \<Rightarrow> nat \<Rightarrow> nat \<Rightarrow> nat \<Rightarrow> 32 word" where
  "dotted a b c d = of_nat (a * 2 ^ 24 + b * 2 ^ 16 + c * 2 ^ 8 + d)"

definition internal_networks4 :: "(32 word \<times> nat) list" where
  "internal_networks4 = [(dotted 0 0 0 0, 8), (dotted 10 0 0 0, 8), (dotted 127 0 0 0, 8), (dotted 169 254 0 0, 16),
     (dotted 172 16 0 0, 12), (dotted 192 168 0 0, 16)]"

lemma nat_bits: "drop_bit k (n :: nat) = n div 2 ^ k" "take_bit k n = n mod 2 ^ k"
  by (rule drop_bit_eq_div, rule take_bit_eq_mod)

lemma ipv4_octets:
  "unat (drop_bit 24 a AND 255) = unat a div 65536 div 256"
  "unat (drop_bit 16 a AND 255) = unat a div 65536 mod 256"
  for a :: "32 word"
proof -
  have mask: "(255 :: 32 word) = mask 8" by (simp add: mask_eq_exp_minus_1)
  have "unat a < 2 ^ 32" using unsigned_less [of a] by simp
  then show "unat (drop_bit 24 a AND 255) = unat a div 65536 div 256"
    unfolding mask take_bit_eq_mask [symmetric]
    by (simp add: unsigned_take_bit_eq unat_drop_bit_eq nat_bits div_mult2_eq [symmetric])
  show "unat (drop_bit 16 a AND 255) = unat a div 65536 mod 256"
    unfolding mask take_bit_eq_mask [symmetric]
    by (simp add: unsigned_take_bit_eq unat_drop_bit_eq nat_bits)
qed

lemma in_network4_iff:
  assumes "l \<le> 32" and "n < 2 ^ 32"
  shows "in_network4 a (of_nat n, l) \<longleftrightarrow> unat a div 2 ^ (32 - l) = n div 2 ^ (32 - l)"
  using assms
  by (simp add: in_network4_def word_unat_eq_iff unat_drop_bit_eq nat_bits unat_of_nat)

text \<open>The octet tests of the code are membership in one of the internal networks.\<close>

lemma div_mod_pair: "m = c * a + b \<longleftrightarrow> m div c = a \<and> m mod c = b" if "b < c" for m a b c :: nat
  using that by (auto simp: mult_div_mod_eq)

lemma octet_range: "m div 16 = 2753 \<longleftrightarrow> m div 256 = 172 \<and> 16 \<le> m mod 256 \<and> m mod 256 \<le> 31" for m :: nat
proof -
  have "m div 16 = 2753 \<longleftrightarrow> m div 16 div 16 = 172 \<and> m div 16 mod 16 = 1"
    using div_mod_pair [of 1 16 "m div 16" 172] by simp
  moreover have "m mod 256 div 16 = m div 16 mod 16"
    using mod_mult2_eq [of m 16 16] by simp
  moreover have "x div 16 = 1 \<longleftrightarrow> 16 \<le> x \<and> x \<le> 31" for x :: nat
    using div_mult_mod_eq [of x 16] mod_less_divisor [of 16 x] by linarith
  note this [of "m mod 256"]
  ultimately show ?thesis by (simp add: div_mult2_eq [symmetric])
qed

lemma ipv4_is_private_iff:
  "ipv4_is_private_or_loopback a \<longleftrightarrow> list_ex (in_network4 a) internal_networks4"
proof -
  define m where "m = unat a div 65536"
  have divs: "unat a div 16777216 = m div 256" "unat a div 1048576 = m div 16" "unat a div 65536 = m"
    by (simp_all add: m_def div_mult2_eq [symmetric])
  have "ipv4_is_private_or_loopback a \<longleftrightarrow> m div 256 = 0 \<or> m div 256 = 10 \<or> m div 256 = 127
      \<or> m div 256 = 169 \<and> m mod 256 = 254 \<or> m div 256 = 172 \<and> 16 \<le> m mod 256 \<and> m mod 256 \<le> 31
      \<or> m div 256 = 192 \<and> m mod 256 = 168"
    by (simp add: ipv4_is_private_or_loopback_def Let_def word_unat_eq_iff word_le_nat_alt ipv4_octets divs)
  moreover have "list_ex (in_network4 a) internal_networks4 \<longleftrightarrow> m div 256 = 0 \<or> m div 256 = 10 \<or> m div 256 = 127
      \<or> m = 43518 \<or> m div 16 = 2753 \<or> m = 49320"
    by (simp add: internal_networks4_def dotted_def in_network4_iff in_network4_iff [of 8 0, simplified] divs del: of_nat_numeral of_nat_0)
  ultimately show ?thesis
    using div_mod_pair [of 254 256 m 169] div_mod_pair [of 168 256 m 192] octet_range [of m] by simp
qed


text \<open>An IPv6 address as a number, most significant byte first.\<close>

fun octets_num :: "8 word list \<Rightarrow> nat" where
  "octets_num [] = 0"
| "octets_num (b # bs) = unat b * 2 ^ (8 * length bs) + octets_num bs"

definition in_network6 :: "8 word list \<Rightarrow> nat \<times> nat \<Rightarrow> bool" where
  "in_network6 bytes net \<longleftrightarrow> octets_num bytes div 2 ^ (128 - snd net) = fst net div 2 ^ (128 - snd net)"

definition internal_networks6 :: "(nat \<times> nat) list" where
  "internal_networks6 =
     [(0, 128), (1, 128), (252 * 2 ^ 120, 7), (254 * 2 ^ 120 + 128 * 2 ^ 112, 10)]
     @ map (\<lambda>(net, l). (65535 * 2 ^ 32 + unat net, 96 + l)) internal_networks4"

lemma octets_num_less: "octets_num bs < 2 ^ (8 * length bs)"
proof (induction bs)
  case (Cons b bs)
  have "unat b * 2 ^ (8 * length bs) + octets_num bs < (unat b + 1) * 2 ^ (8 * length bs)"
    using Cons.IH by simp
  also have "\<dots> \<le> 256 * 2 ^ (8 * length bs)"
    using unsigned_less [where ?'a = nat, of b] by (intro mult_right_mono) simp_all
  finally show ?case by (simp add: power_add)
qed simp

lemma octets_num_append: "octets_num (as @ bs) = octets_num as * 2 ^ (8 * length bs) + octets_num bs"
  by (induction as) (simp_all add: algebra_simps power_add)

lemma octets_num_take:
  "octets_num bs div 2 ^ (8 * (length bs - k)) = octets_num (take k bs)"
proof -
  have "octets_num bs = octets_num (take k bs) * 2 ^ (8 * (length bs - k)) + octets_num (drop k bs)"
    using octets_num_append [of "take k bs" "drop k bs"] by simp
  then show ?thesis using octets_num_less [of "drop k bs"] by simp
qed

lemma octets_num_inj: "length as = length bs \<Longrightarrow> octets_num as = octets_num bs \<longleftrightarrow> as = bs"
proof (induction as bs rule: list_induct2)
  case (Cons a as b bs)
  have "unat a = unat b" if "octets_num (a # as) = octets_num (b # bs)"
    using arg_cong [OF that, of "\<lambda>n. n div 2 ^ (8 * length as)"] Cons.hyps
      octets_num_less [of as] octets_num_less [of bs] by simp
  then show ?case using Cons by (auto simp: word_unat_eq_iff)
qed simp

lemma octets_num_prefix:
  assumes "length bytes = 16" and "l \<le> 8 * k" and "k \<le> 16"
  shows "octets_num bytes div 2 ^ (128 - l) = octets_num (take k bytes) div 2 ^ (8 * k - l)"
proof -
  have "128 - l = 8 * (length bytes - k) + (8 * k - l)" using assms by simp
  then show ?thesis unfolding octets_num_take [of bytes k, symmetric] by (simp only: power_add div_mult2_eq)
qed

lemma byte_masks:
  "w AND 254 = 252 \<longleftrightarrow> unat w div 2 = 126" "w AND 192 = 128 \<longleftrightarrow> unat w div 64 = 2" for w :: "8 word"
proof -
  have "unat w < 256" using unsigned_less [where ?'a = nat, of w] by simp
  then show "w AND 254 = 252 \<longleftrightarrow> unat w div 2 = 126" "w AND 192 = 128 \<longleftrightarrow> unat w div 64 = 2"
    using and_high_mask [of "unat w" 1 7] and_high_mask [of "unat w" 6 2]
    by (auto simp: word_unat_eq_iff unsigned_and_eq mask_eq_exp_minus_1 push_bit_eq_mult)
qed

lemma append_octet: "unat (push_bit 8 a OR ucast b) = unat a * 256 + unat b"
  if "unat a < 2 ^ 24" for a :: "32 word" and b :: "8 word"
proof -
  have "unat b < 256" using unsigned_less [where ?'a = nat, of b] by simp
  then have "push_bit 8 a OR ucast b = push_bit 8 a + (ucast b :: 32 word)"
    by (intro disjunctive_add_eq_or [symmetric] bit_eqI) (auto simp: bit_simps dest: bit_imp_le_length)
  then show ?thesis using that \<open>unat b < 256\<close>
    by (simp add: unat_word_ariths push_bit_eq_mult unsigned_ucast_eq nat_bits)
qed

lemma mapped_v4_num: "length bytes = 16 \<Longrightarrow> unat (mapped_v4 bytes) = octets_num (drop 12 bytes)"
proof -
  assume len: "length bytes = 16"
  have less: "unat b < 256" for b :: "8 word" using unsigned_less [where ?'a = nat, of b] by simp
  have low: "unat (ucast b :: 32 word) = unat b" for b :: "8 word"
    using less [of b] by (simp add: unsigned_ucast_eq nat_bits)
  define v1 v2 v3 where "v1 = (ucast (bytes ! 12) :: 32 word)" and "v2 = push_bit 8 v1 OR ucast (bytes ! 13)"
    and "v3 = push_bit 8 v2 OR ucast (bytes ! 14)"
  have v: "mapped_v4 bytes = push_bit 8 v3 OR ucast (bytes ! 15)"
    by (simp add: mapped_v4_def v1_def v2_def v3_def push_bit_or ac_simps)
  have u1: "unat v1 = unat (bytes ! 12)" by (simp add: v1_def low)
  have u2: "unat v2 = unat v1 * 256 + unat (bytes ! 13)"
    unfolding v2_def using less [of "bytes ! 12"] by (intro append_octet) (simp add: u1)
  have u3: "unat v3 = unat v2 * 256 + unat (bytes ! 14)"
    unfolding v3_def using less [of "bytes ! 12"] less [of "bytes ! 13"] by (intro append_octet) (simp add: u1 u2)
  have u4: "unat (mapped_v4 bytes) = unat v3 * 256 + unat (bytes ! 15)"
    unfolding v using less [of "bytes ! 12"] less [of "bytes ! 13"] less [of "bytes ! 14"]
    by (intro append_octet) (simp add: u1 u2 u3)
  have "drop 12 bytes = [bytes ! 12, bytes ! 13, bytes ! 14, bytes ! 15]"
    using len by (intro nth_equalityI) (auto simp: nth_Cons less_Suc_eq numeral_eq_Suc)
  then show ?thesis by (simp add: u1 u2 u3 u4)
qed

lemma all_zero_num: "list_all (\<lambda>b. b = 0) bs \<longleftrightarrow> octets_num bs = 0"
  by (induction bs) (auto simp: word_unat_eq_iff)

lemma in_mapped_network:
  assumes "length bytes = 16" and "net \<in> set internal_networks4"
  shows "in_network6 bytes (65535 * 2 ^ 32 + unat (fst net), 96 + snd net)
    \<longleftrightarrow> octets_num (take 12 bytes) = 65535 \<and> in_network4 (mapped_v4 bytes) net"
proof -
  obtain address l where net: "net = (address, l)" by (cases net)
  have l: "l \<le> 32" using assms(2) by (auto simp: internal_networks4_def net)
  have split: "2 ^ 32 = 2 ^ l * (2 :: nat) ^ (32 - l)" using l by (simp flip: power_add)
  have parts: "(a * 2 ^ 32 + b) div 2 ^ (32 - l) = 2 ^ l * a + b div 2 ^ (32 - l)" for a b :: nat
  proof -
    have eq: "a * 2 ^ 32 + b = b + (2 ^ l * a) * 2 ^ (32 - l)" unfolding split by (simp only: algebra_simps)
    show ?thesis unfolding eq by simp
  qed
  have less: "b div 2 ^ (32 - l) < 2 ^ l" if "b < 2 ^ 32" for b :: nat
    using that by (subst (asm) split) (simp add: less_mult_imp_div_less)
  have "octets_num bytes = octets_num (take 12 bytes) * 2 ^ 32 + octets_num (drop 12 bytes)"
    using octets_num_append [of "take 12 bytes" "drop 12 bytes"] assms(1) by simp
  then have "octets_num bytes div 2 ^ (32 - l) = 2 ^ l * octets_num (take 12 bytes) + unat (mapped_v4 bytes) div 2 ^ (32 - l)"
    using parts mapped_v4_num [OF assms(1)] by simp
  moreover have "2 ^ l * a + b = 2 ^ l * a' + b' \<longleftrightarrow> a = a' \<and> b = b'" if "b < 2 ^ l" "b' < 2 ^ l" for a b a' b' :: nat
    using div_mod_pair [OF that(2), of "2 ^ l * a + b" a'] that(1) by simp
  moreover have "unat w < 2 ^ 32" for w :: "32 word" using unsigned_less [where ?'a = nat, of w] by simp
  ultimately show ?thesis
    using less parts [of 65535 "unat address"]
    by (simp add: in_network6_def in_network4_def net word_unat_eq_iff unat_drop_bit_eq nat_bits)
qed

lemma octets_num_take_Suc:
  "k < length bytes \<Longrightarrow> octets_num (take (Suc k) bytes) = 256 * octets_num (take k bytes) + unat (bytes ! k)"
  by (simp add: take_Suc_conv_app_nth octets_num_append)

lemma last_octet:
  assumes "k < length bytes" and "v < 256"
  shows "octets_num (take (Suc k) bytes) = 256 * n + v \<longleftrightarrow> octets_num (take k bytes) = n \<and> bytes ! k = of_nat v"
proof -
  have "unat (bytes ! k) < 256" using unsigned_less [where ?'a = nat, of "bytes ! k"] by simp
  then show ?thesis
    using div_mod_pair [OF assms(2), of "256 * octets_num (take k bytes) + unat (bytes ! k)" n] assms
    by (simp add: octets_num_take_Suc word_unat_eq_iff unat_of_nat)
qed

lemma ipv6_is_private_iff:
  assumes "length bytes = 16"
  shows "ipv6_is_private_or_loopback bytes \<longleftrightarrow> list_ex (in_network6 bytes) internal_networks6"
proof -
  have less: "unat b < 256" for b :: "8 word" using unsigned_less [where ?'a = nat, of b] by simp
  have num: "octets_num (take 16 bytes) = octets_num bytes" using assms by simp
  have unspecified: "in_network6 bytes (0, 128) \<longleftrightarrow> list_all (\<lambda>b. b = 0) (take 16 bytes)"
    by (simp add: in_network6_def all_zero_num num)
  have loopback: "in_network6 bytes (1, 128) \<longleftrightarrow> list_all (\<lambda>b. b = 0) (take 15 bytes) \<and> bytes ! 15 = 1"
    using last_octet [of 15 bytes 1 0] assms by (simp add: in_network6_def all_zero_num)
  have unique_local: "in_network6 bytes (252 * 2 ^ 120, 7) \<longleftrightarrow> bytes ! 0 AND 254 = 252"
    using octets_num_prefix [OF assms, of 7 1] octets_num_take_Suc [of 0 bytes] assms
    by (simp add: in_network6_def byte_masks)
  have "(256 * a + b) div 64 = 1018 \<longleftrightarrow> a = 254 \<and> b div 64 = 2" if "b < 256" for a b :: nat
  proof -
    have "256 * a + b = b + (4 * a) * 64" by simp
    then have "(256 * a + b) div 64 = 4 * a + b div 64" by (simp only: div_mult_self1)
    then show ?thesis
      using div_mod_pair [of 2 4 "4 * a + b div 64" 254] that by (simp add: div_less_iff_less_mult)
  qed
  note this [OF less]
  moreover have two: "octets_num (take 2 bytes) = 256 * unat (bytes ! 0) + unat (bytes ! 1)"
    using octets_num_take_Suc [of 1 bytes] octets_num_take_Suc [of 0 bytes] assms by (simp add: numeral_2_eq_2)
  ultimately have link_local: "in_network6 bytes (254 * 2 ^ 120 + 128 * 2 ^ 112, 10) \<longleftrightarrow> bytes ! 0 = 254 \<and> bytes ! 1 AND 192 = 128"
    using octets_num_prefix [OF assms, of 10 2] two
    by (simp add: in_network6_def byte_masks(2) word_unat_eq_iff [of "bytes ! 0" 254])
  have v4_mapped: "octets_num (take 12 bytes) = 65535 \<longleftrightarrow>
      list_all (\<lambda>b. b = 0) (take 10 bytes) \<and> bytes ! 10 = 255 \<and> bytes ! 11 = 255"
    using last_octet [of 11 bytes 255 255] last_octet [of 10 bytes 255 0] assms by (auto simp: all_zero_num)
  have "list_ex (in_network6 bytes) (map (\<lambda>(net, l). (65535 * 2 ^ 32 + unat net, 96 + l)) internal_networks4)
    \<longleftrightarrow> octets_num (take 12 bytes) = 65535 \<and> list_ex (in_network4 (mapped_v4 bytes)) internal_networks4"
    using in_mapped_network [OF assms] by (simp add: list_ex_iff case_prod_unfold)
  then show ?thesis
    by (simp add: ipv6_is_private_or_loopback_def internal_networks6_def unspecified loopback [simplified] unique_local [simplified]
        link_local [simplified] v4_mapped ipv4_is_private_iff Let_def)
qed

section \<open>Discovery\<close>

text \<open>What the manual of \<open>inet_pton\<close> says of a successful IPv6 conversion: it fills sixteen bytes.\<close>

definition inet_documented :: "Inet \<Rightarrow> bool" where
  "inet_documented inet \<longleftrightarrow> (\<forall>text bytes. pton6 inet text = Some bytes \<longrightarrow> length bytes = 16)"

text \<open>An address a server may connect to: outside every internal network of its family.\<close>

definition public_address :: "Inet \<Rightarrow> string \<Rightarrow> bool" where
  "public_address inet address \<longleftrightarrow>
     (case pton4 inet (c_str address) of
        Some v4 \<Rightarrow> list_all (\<lambda>net. \<not> in_network4 v4 net) internal_networks4
      | None \<Rightarrow> (case pton6 inet (c_str address) of
           Some v6 \<Rightarrow> list_all (\<lambda>net. \<not> in_network6 v6 net) internal_networks6
         | None \<Rightarrow> False))"

lemma public_address_iff:
  assumes "inet_documented inet" and "ip_address_is_valid inet address"
  shows "\<not> ip_address_is_private_or_loopback inet address \<longleftrightarrow> public_address inet address"
  using assms
  by (auto simp: ip_address_is_private_or_loopback_def public_address_def ip_address_is_valid_def inet_documented_def
      ipv4_is_private_iff ipv6_is_private_iff list_ex_iff list_all_iff split: option.splits)

text \<open>
  C26: discovery accepts a remote server whose addresses are literals exactly when its name is valid,
  it is resolved to a host that agrees with its well-known answer, TLS is required and every address
  lies outside the unspecified, loopback, private, link-local and unique-local networks, IPv4
  addresses mapped into IPv6 included.
\<close>
theorem discovery_accepts_iff:
  assumes "inet_documented inet" and "list_all (ip_address_is_valid inet) (resolved_addresses remote)"
  shows "fst (federation_discovery_policy inet remote) \<longleftrightarrow>
    server_name_is_valid (remote_server_name remote) \<and> resolved_host remote \<noteq> []
    \<and> well_known_host remote \<in> {[], resolved_host remote} \<and> tls_required remote
    \<and> resolved_addresses remote \<noteq> [] \<and> list_all (public_address inet) (resolved_addresses remote)"
proof -
  have "list_ex (ip_address_is_private_or_loopback inet) (resolved_addresses remote)
      \<longleftrightarrow> \<not> list_all (public_address inet) (resolved_addresses remote)"
    using assms public_address_iff by (fastforce simp: list_ex_iff list_all_iff)
  then show ?thesis by (auto simp: federation_discovery_policy_def)
qed

text \<open>A reader of the literals the examples use.\<close>

definition sample_inet :: Inet where
  "sample_inet = \<lparr>
     pton4 = (\<lambda>t. if t = ''93.184.216.34'' then Some (dotted 93 184 216 34) else None),
     pton6 = (\<lambda>t. if t = ''::ffff:10.0.0.1''
                  then Some [0, 0, 0, 0, 0, 0, 0, 0, 0, 0, 255, 255, 10, 0, 0, 1] else None)\<rparr>"

definition sample_remote :: "string list \<Rightarrow> RemoteServerRecord" where
  "sample_remote addresses =
     \<lparr>remote_server_name = ''example.org'', well_known_host = [], resolved_host = ''matrix.example.org'',
      resolved_addresses = addresses, tls_required = True\<rparr>"

theorem discovery_accepts_iff_witness:
  "fst (federation_discovery_policy sample_inet (sample_remote [''93.184.216.34'']))
   \<and> \<not> fst (federation_discovery_policy sample_inet (sample_remote [''93.184.216.34'', ''::ffff:10.0.0.1'']))"
proof -
  have doc: "inet_documented sample_inet" by (simp add: inet_documented_def sample_inet_def)
  have "list_all (ip_address_is_valid sample_inet) [''93.184.216.34'', ''::ffff:10.0.0.1'']" by code_simp
  moreover have "public_address sample_inet ''93.184.216.34''" by code_simp
  moreover have "\<not> public_address sample_inet ''::ffff:10.0.0.1''" by code_simp
  moreover have "server_name_is_valid ''example.org''" by code_simp
  ultimately show ?thesis
    using discovery_accepts_iff [OF doc, of "sample_remote [''93.184.216.34'']"]
      discovery_accepts_iff [OF doc, of "sample_remote [''93.184.216.34'', ''::ffff:10.0.0.1'']"]
    by (simp add: sample_remote_def)
qed

end
