(* ===== verification/Server_Acl.thy ===== *)
theory Server_Acl
  imports Json_Parser Glob Federation_Security
begin

text \<open>
  Server access control lists of a room: \<open>src/federation/server_acl.cpp\<close>. The rows of the matching
  table are lists of booleans, one entry per prefix of the server name.

  Shown: the table-driven matcher is the declarative one, the decision on a server is the one of the
  lists, and a port added to a name does not change it.
\<close>

section \<open>The matcher\<close>

definition case_insensitive_equal :: "char \<Rightarrow> char \<Rightarrow> bool" where
  "case_insensitive_equal left right \<longleftrightarrow> to_lower_ascii left = to_lower_ascii right"

fun star_row :: "bool \<Rightarrow> bool list \<Rightarrow> bool list" where
  "star_row carried [] = []"
| "star_row carried (previous # row) = (previous \<or> carried) # star_row (previous \<or> carried) row"

definition glob_row :: "string \<Rightarrow> bool list \<Rightarrow> char \<Rightarrow> bool list" where
  "glob_row text previous pattern_char =
     (if pattern_char = CHR ''*'' then star_row False previous
      else if pattern_char = CHR ''?'' then False # butlast previous
      else False # map2 (\<lambda>c matched. case_insensitive_equal pattern_char c \<and> matched) text previous)"

definition glob_match :: "string \<Rightarrow> string \<Rightarrow> bool" where
  "glob_match pattern text =
     (if length pattern = 0 then length text = 0
      else foldl (glob_row text) (True # replicate (length text) False) pattern ! length text)"

section \<open>Server names and list entries\<close>

definition bool_member :: "Object \<Rightarrow> string \<Rightarrow> bool option" where
  "bool_member obj key = Option.bind (object_member obj key) get_if_bool"

definition string_array_member :: "Object \<Rightarrow> string \<Rightarrow> string list" where
  "string_array_member obj key =
     (case object_member obj key of
        None \<Rightarrow> []
      | Some v \<Rightarrow> (case get_if_array v of None \<Rightarrow> [] | Some items \<Rightarrow> List.map_filter get_if_string items))"

definition host_without_brackets :: "string \<Rightarrow> string" where
  "host_without_brackets host =
     (if length host \<ge> 2 \<and> hd host = CHR ''['' \<and> last host = CHR '']'' then take (length host - 2) (drop 1 host) else host)"

text \<open>\<open>std::string_view::rfind\<close> of one character.\<close>

definition rfind_char :: "char \<Rightarrow> string \<Rightarrow> nat option" where
  "rfind_char c s = map_option (\<lambda>i. length s - 1 - i) (find_char c (rev s))"

definition strip_server_port :: "string \<Rightarrow> string" where
  "strip_server_port name =
     (if name = [] then []
      else if hd name = CHR ''['' then
        (case find_char (CHR '']'') name of None \<Rightarrow> name | Some close \<Rightarrow> take (close + 1) name)
      else case rfind_char (CHR '':'') name of
          None \<Rightarrow> name
        | Some colon \<Rightarrow>
            if colon = 0 then name
            else if \<not> list_all is_digit (drop (colon + 1) name) then name
            else take colon name)"

definition server_name_is_ip_literal :: "Inet \<Rightarrow> string \<Rightarrow> bool" where
  "server_name_is_ip_literal inet name =
     (let host = strip_server_port name
      in if host = [] then False else ip_address_is_valid inet (host_without_brackets host))"

section \<open>Evaluation\<close>

record ServerAclEvent =
  acl_allow :: "string list"
  acl_deny :: "string list"
  allow_ip_literals :: bool

datatype ServerAclDecision = acl_allowed | acl_denied

record ServerAclEvaluation =
  acl_decision :: ServerAclDecision
  acl_rule :: string
  acl_reason :: string

definition default_server_acl :: ServerAclEvent where
  "default_server_acl = \<lparr>acl_allow = [], acl_deny = [], allow_ip_literals = True\<rparr>"

definition parse_server_acl :: "Value \<Rightarrow> ServerAclEvent" where
  "parse_server_acl content =
     (case value_is_object content of
        None \<Rightarrow> default_server_acl
      | Some obj \<Rightarrow>
          \<lparr>acl_allow = string_array_member obj ''allow'', acl_deny = string_array_member obj ''deny'',
           allow_ip_literals = (case bool_member obj ''allow_ip_literals'' of None \<Rightarrow> True | Some b \<Rightarrow> b)\<rparr>)"

fun matching_entry :: "string \<Rightarrow> string list \<Rightarrow> string option" where
  "matching_entry host [] = None"
| "matching_entry host (pattern # patterns) =
     (if glob_match pattern host then Some pattern else matching_entry host patterns)"

definition evaluate_server_acl :: "Inet \<Rightarrow> string \<Rightarrow> ServerAclEvent \<Rightarrow> ServerAclEvaluation" where
  "evaluate_server_acl inet name acl =
     (let host = strip_server_port name
      in if host = [] then
           \<lparr>acl_decision = acl_denied, acl_rule = ''empty_server_name'',
            acl_reason = ''server name is empty after port stripping''\<rparr>
         else if \<not> allow_ip_literals acl \<and> server_name_is_ip_literal inet host then
           \<lparr>acl_decision = acl_denied, acl_rule = ''allow_ip_literals'',
            acl_reason = ''server name is an IP literal and allow_ip_literals is false''\<rparr>
         else case matching_entry host (acl_deny acl) of
           Some pattern \<Rightarrow>
             \<lparr>acl_decision = acl_denied, acl_rule = ''deny'',
              acl_reason = ''server name matches deny list entry: '' @ pattern\<rparr>
         | None \<Rightarrow>
             (case matching_entry host (acl_allow acl) of
                Some pattern \<Rightarrow>
                  \<lparr>acl_decision = acl_allowed, acl_rule = ''allow'',
                   acl_reason = ''server name matches allow list entry: '' @ pattern\<rparr>
              | None \<Rightarrow>
                  if acl_allow acl = [] then
                    \<lparr>acl_decision = acl_allowed, acl_rule = ''empty_allow'',
                     acl_reason = ''allow list is empty and server name did not match any deny list entry; allowing''\<rparr>
                  else
                    \<lparr>acl_decision = acl_denied, acl_rule = ''allow'',
                     acl_reason = ''server name did not match any allow list entry''\<rparr>))"

text \<open>The two tables of the store that are read here.\<close>

record PersistentEvent =
  pe_event_id :: string
  pe_json :: string

record PersistentStateEvent =
  pse_room_id :: string
  pse_event_type :: string
  pse_state_key :: string
  pse_event_id :: string

record PersistentStore =
  store_events :: "PersistentEvent list"
  store_state :: "PersistentStateEvent list"

definition load_room_server_acl :: "YyjsonReader \<Rightarrow> PersistentStore \<Rightarrow> string \<Rightarrow> ServerAclEvent option" where
  "load_room_server_acl yyjson_read_opts store room =
     (let acl_event_id =
            (case find (\<lambda>s. pse_room_id s = room \<and> pse_event_type s = ''m.room.server_acl'' \<and> pse_state_key s = [])
                   (store_state store) of
               None \<Rightarrow> [] | Some s \<Rightarrow> pse_event_id s)
      in if acl_event_id = [] then None
         else case find (\<lambda>e. pe_event_id e = acl_event_id) (store_events store) of
             None \<Rightarrow> None
           | Some e \<Rightarrow>
               (case parse_lossless yyjson_read_opts (pe_json e) of
                  Inl error \<Rightarrow> None
                | Inr v \<Rightarrow>
                    (case value_is_object v of
                       None \<Rightarrow> None
                     | Some obj \<Rightarrow> map_option parse_server_acl (object_member obj ''content''))))"

definition room_server_acl_allows :: "Inet \<Rightarrow> YyjsonReader \<Rightarrow> PersistentStore \<Rightarrow> string \<Rightarrow> string \<Rightarrow> bool" where
  "room_server_acl_allows inet yyjson_read_opts store room name =
     (case load_room_server_acl yyjson_read_opts store room of
        None \<Rightarrow> True
      | Some acl \<Rightarrow> acl_decision (evaluate_server_acl inet name acl) = acl_allowed)"

section \<open>The table holds the matches of every prefix\<close>

fun prefix_row :: "string \<Rightarrow> string \<Rightarrow> string \<Rightarrow> bool list" where
  "prefix_row q w [] = []"
| "prefix_row q w (c # t) = glob_matches q (w @ [c]) # prefix_row q (w @ [c]) t"

lemma length_prefix_row [simp]: "length (prefix_row q w t) = length t"
  by (induction t arbitrary: w) simp_all

lemma last_prefix_row: "(glob_matches q w # prefix_row q w t) ! length t = glob_matches q (w @ t)"
  by (induction t arbitrary: w) simp_all

lemma star_row_prefix:
  "star_row (glob_matches (q @ [CHR ''*'']) w) (prefix_row q w t) = prefix_row (q @ [CHR ''*'']) w t"
proof (induction t arbitrary: w)
  case (Cons c t)
  then show ?case by (simp add: glob_matches_star_snoc [symmetric])
qed simp

lemma question_row_prefix:
  "butlast (glob_matches q w # prefix_row q w t) = prefix_row (q @ [CHR ''?'']) w t"
  by (induction t arbitrary: w) (simp_all add: glob_matches_question_snoc)

lemma literal_row_prefix:
  assumes "x \<noteq> CHR ''*''" and "x \<noteq> CHR ''?''"
  shows "map2 (\<lambda>c matched. case_insensitive_equal x c \<and> matched) t (glob_matches q w # prefix_row q w t)
    = prefix_row (q @ [x]) w t"
  using assms
  by (induction t arbitrary: w) (auto simp: glob_matches_char_snoc case_insensitive_equal_def)

lemma glob_row_prefix:
  "glob_row t (glob_matches q [] # prefix_row q [] t) x = glob_matches (q @ [x]) [] # prefix_row (q @ [x]) [] t"
proof -
  consider "x = CHR ''*''" | "x = CHR ''?''" | "x \<noteq> CHR ''*''" "x \<noteq> CHR ''?''" by blast
  then show ?thesis
  proof cases
    case 1
    then show ?thesis using star_row_prefix [of q "[]" t] by (simp add: glob_row_def glob_matches_snoc_empty)
  next
    case 2
    then show ?thesis by (simp add: glob_row_def glob_matches_snoc_empty flip: question_row_prefix)
  next
    case 3
    then show ?thesis using literal_row_prefix [OF 3, of t q "[]"] by (simp add: glob_row_def glob_matches_snoc_empty)
  qed
qed

lemma glob_rows_prefix:
  "foldl (glob_row t) (glob_matches q [] # prefix_row q [] t) p = glob_matches (q @ p) [] # prefix_row (q @ p) [] t"
  by (induction p arbitrary: q) (simp_all add: glob_row_prefix)

lemma prefix_row_Nil: "prefix_row [] w t = replicate (length t) False"
  by (induction t arbitrary: w) (simp_all add: glob_matches_Nil)

lemma glob_match_iff: "glob_match pattern t \<longleftrightarrow> glob_matches pattern t"
proof (cases "pattern = []")
  case False
  have "foldl (glob_row t) (True # replicate (length t) False) pattern = glob_matches pattern [] # prefix_row pattern [] t"
    using glob_rows_prefix [of t "[]" pattern] by (simp add: prefix_row_Nil glob_matches_Nil)
  then show ?thesis using False last_prefix_row [of pattern "[]" t] by (simp add: glob_match_def)
qed (simp add: glob_match_def glob_matches_Nil)

interpretation acl_glob: glob_matcher glob_match
  by unfold_locales (rule glob_match_iff)

section \<open>Decisions\<close>

lemma matching_entry_None: "matching_entry host patterns = None \<longleftrightarrow> (\<forall>p \<in> set patterns. \<not> glob_match p host)"
  by (induction patterns) auto

lemma evaluate_server_acl_allowed:
  "acl_decision (evaluate_server_acl inet name acl) = acl_allowed \<longleftrightarrow>
     strip_server_port name \<noteq> []
     \<and> (allow_ip_literals acl \<or> \<not> server_name_is_ip_literal inet (strip_server_port name))
     \<and> (\<forall>p \<in> set (acl_deny acl). \<not> glob_match p (strip_server_port name))
     \<and> (acl_allow acl = [] \<or> (\<exists>p \<in> set (acl_allow acl). glob_match p (strip_server_port name)))"
  using matching_entry_None [of "strip_server_port name" "acl_deny acl"]
    matching_entry_None [of "strip_server_port name" "acl_allow acl"]
  by (auto simp: evaluate_server_acl_def Let_def split: option.splits)


text \<open>Names of the Matrix grammar without a port: no colon outside a pair of brackets.\<close>

definition portless_name :: "string \<Rightarrow> bool" where
  "portless_name name \<longleftrightarrow>
     name \<noteq> [] \<and> (if hd name = CHR ''['' then find_char (CHR '']'') name = Some (length name - 1)
                 else CHR '':'' \<notin> set name)"

lemma strip_server_port_portless:
  assumes "portless_name name" and "list_all is_digit port"
  shows "strip_server_port (name @ CHR '':'' # port) = name" and "strip_server_port name = name"
proof -
  have colon: "CHR '':'' \<notin> set port" using assms(2) by (auto simp: list_all_iff is_digit_def)
  have rfind: "rfind_char (CHR '':'') (name @ CHR '':'' # port) = Some (length name)"
    using find_char_at [of "CHR '':''" "rev port" "rev name"] colon by (simp add: rfind_char_def)
  have ne: "name \<noteq> []" using assms(1) by (simp add: portless_name_def)
  show "strip_server_port (name @ CHR '':'' # port) = name"
    using assms rfind ne by (auto simp: strip_server_port_def portless_name_def find_char_append_Some split: if_splits)
  show "strip_server_port name = name"
    using assms ne find_char_missing [of "CHR '':''" "rev name"]
    by (auto simp: strip_server_port_def portless_name_def rfind_char_def split: if_splits)
qed

text \<open>
  A deny entry for a domain, a star followed by literal text, shuts out every server whose name
  ends in that text, whatever its capitalisation and with or without a port.
\<close>
theorem denied_domain_is_shut_out:
  assumes "load_room_server_acl yyjson_read_opts store room = Some acl"
    and "CHR ''*'' # domain \<in> set (acl_deny acl)" and "literal_pattern domain"
    and "ascii_lower ending = ascii_lower domain" and "portless_name (host @ ending)" and "list_all is_digit port"
  shows "\<not> room_server_acl_allows inet yyjson_read_opts store room (host @ ending)
    \<and> \<not> room_server_acl_allows inet yyjson_read_opts store room (host @ ending @ CHR '':'' # port)"
proof -
  have "glob_match (CHR ''*'' # domain) (host @ ending)"
    using assms(4) by (auto simp: acl_glob.star_prefix_matches_iff [OF assms(3)])
  then have "acl_decision (evaluate_server_acl inet name acl) \<noteq> acl_allowed"
    if "strip_server_port name = host @ ending" for name
    using assms(2) that by (auto simp: evaluate_server_acl_allowed)
  then show ?thesis
    using strip_server_port_portless [OF assms(5,6)] assms(1) by (simp add: room_server_acl_allows_def)
qed

text \<open>
  A room whose access control list has no usable allow entry is open to every server that the
  deny list does not name; the Matrix rules refuse such servers.
\<close>
theorem empty_allow_list_admits:
  assumes "load_room_server_acl yyjson_read_opts store room = Some acl"
    and "acl_allow acl = []" and "acl_deny acl = []" and "allow_ip_literals acl" and "portless_name name"
  shows "room_server_acl_allows inet yyjson_read_opts store room name"
  using assms strip_server_port_portless(2) [OF assms(5), of "[]"]
  by (simp add: room_server_acl_allows_def evaluate_server_acl_allowed portless_name_def)

section \<open>Examples\<close>

definition acl_text :: string where
  \<open>acl_text = ''{"content":{"allow":["*"],"deny":["*.evil.org"]}}''\<close>

definition open_acl_text :: string where
  \<open>open_acl_text = ''{"content":{"allow":[]}}''\<close>

definition acl_reader :: YyjsonReader where
  "acl_reader raw input =
     (if input = acl_text then
        Inr \<lparr>doc_root = Some (YObject [(''content'', YObject [(''allow'', YArray [YString ''*'']),
               (''deny'', YArray [YString ''*.evil.org''])])]), dat_read = length acl_text\<rparr>
      else if input = open_acl_text then
        Inr \<lparr>doc_root = Some (YObject [(''content'', YObject [(''allow'', YArray [])])]),
             dat_read = length open_acl_text\<rparr>
      else Inl ERROR_LITERAL)"

definition acl_store :: PersistentStore where
  "acl_store = \<lparr>
     store_events = [\<lparr>pe_event_id = ''$a'', pe_json = acl_text\<rparr>, \<lparr>pe_event_id = ''$b'', pe_json = open_acl_text\<rparr>],
     store_state =
       [\<lparr>pse_room_id = ''!r:x'', pse_event_type = ''m.room.server_acl'', pse_state_key = [], pse_event_id = ''$a''\<rparr>,
        \<lparr>pse_room_id = ''!s:x'', pse_event_type = ''m.room.server_acl'', pse_state_key = [], pse_event_id = ''$b''\<rparr>]\<rparr>"

lemma acl_store_loaded:
  "load_room_server_acl acl_reader acl_store ''!r:x'' =
     Some \<lparr>acl_allow = [''*''], acl_deny = [''*.evil.org''], allow_ip_literals = True\<rparr>"
  by code_simp


theorem denied_domain_is_shut_out_witness:
  "\<not> room_server_acl_allows sample_inet acl_reader acl_store ''!r:x'' ''A.EVIL.org''
   \<and> \<not> room_server_acl_allows sample_inet acl_reader acl_store ''!r:x'' ''A.EVIL.org:443''"
proof -
  have "literal_pattern ''.evil.org''" "ascii_lower ''.EVIL.org'' = ascii_lower ''.evil.org''"
    "portless_name ''A.EVIL.org''" "list_all is_digit ''443''"
    by code_simp+
  then show ?thesis
    using denied_domain_is_shut_out [OF acl_store_loaded, of "''.evil.org''" "''.EVIL.org''" "''A''" "''443''" sample_inet]
    by simp
qed

theorem empty_allow_list_admits_witness:
  "room_server_acl_allows sample_inet acl_reader acl_store ''!s:x'' ''anyone.org''"
proof -
  have "load_room_server_acl acl_reader acl_store ''!s:x'' = Some \<lparr>acl_allow = [], acl_deny = [], allow_ip_literals = True\<rparr>"
    "portless_name ''anyone.org''"
    by code_simp+
  then show ?thesis using empty_allow_list_admits by simp
qed

end
