(* ===== verification/Text_Search.thy ===== *)
theory Text_Search
  imports Merovingian_Prelude
begin

text \<open>
  What the parsers of network input share: \<open>std::string::find\<close> of a text, the fields between
  separators and the overflow-checked accumulation of a decimal number.
\<close>

section \<open>Searching\<close>

text \<open>\<open>std::string::find\<close> of a text from a position on.\<close>

definition find_text :: "string \<Rightarrow> string \<Rightarrow> nat \<Rightarrow> nat option" where
  "find_text value needle start =
     find (\<lambda>i. i + length needle \<le> length value \<and> take (length needle) (drop i value) = needle)
       [start..<Suc (length value)]"

lemma find_upt_Some:
  "find P [a..<b] = Some i \<longleftrightarrow> a \<le> i \<and> i < b \<and> P i \<and> (\<forall>j. a \<le> j \<and> j < i \<longrightarrow> \<not> P j)"
proof -
  have "find P [a..<b] = Some i \<longleftrightarrow> (\<exists>k < b - a. P (a + k) \<and> i = a + k \<and> (\<forall>j < k. \<not> P (a + j)))"
    by (auto simp: find_Some_iff simp del: upt_Suc)
  also have "\<dots> \<longleftrightarrow> a \<le> i \<and> i < b \<and> P i \<and> (\<forall>j. a \<le> j \<and> j < i \<longrightarrow> \<not> P j)"
    by (auto simp: le_iff_add)
  finally show ?thesis .
qed

definition occurs_at :: "string \<Rightarrow> string \<Rightarrow> nat \<Rightarrow> bool" where
  "occurs_at value needle i \<longleftrightarrow> i + length needle \<le> length value \<and> take (length needle) (drop i value) = needle"

lemma find_text_Some:
  "find_text value needle start = Some found \<longleftrightarrow>
     start \<le> found \<and> occurs_at value needle found \<and> (\<forall>i. start \<le> i \<and> i < found \<longrightarrow> \<not> occurs_at value needle i)"
  unfolding find_text_def find_upt_Some occurs_at_def [symmetric] by (auto simp: occurs_at_def)

lemma find_text_None:
  "find_text value needle start = None \<longleftrightarrow> (\<forall>i \<ge> start. \<not> occurs_at value needle i)"
  unfolding find_text_def find_None_iff occurs_at_def [symmetric] by (auto simp: occurs_at_def simp del: upt_Suc)

lemma find_text_at:
  assumes "c \<notin> set a"
  shows "find_text (a @ c # needle @ b) (c # needle) 0 = Some (length a)"
proof -
  have "\<not> occurs_at (a @ c # needle @ b) (c # needle) i" if "i < length a" for i
  proof
    assume "occurs_at (a @ c # needle @ b) (c # needle) i"
    then have "hd (take (length (c # needle)) (drop i (a @ c # needle @ b))) = c" by (simp add: occurs_at_def)
    then have "a ! i = c" using that by (simp add: hd_append hd_drop_conv_nth)
    then show False using assms that nth_mem by blast
  qed
  then show ?thesis by (auto simp: find_text_Some occurs_at_def)
qed

lemma find_text_split:
  "find_text s needle 0 = Some i \<Longrightarrow> s = take i s @ needle @ drop (i + length needle) s"
  by (metis find_text_Some occurs_at_def append_take_drop_id drop_drop add.commute)

section \<open>Fields between separators\<close>

fun char_fields :: "char \<Rightarrow> string \<Rightarrow> string list" where
  "char_fields separator [] = [[]]"
| "char_fields separator (c # s) =
     (if c = separator then [] # char_fields separator s
      else case char_fields separator s of [] \<Rightarrow> [[c]] | f # fs \<Rightarrow> (c # f) # fs)"

fun join_fields :: "char \<Rightarrow> string list \<Rightarrow> string" where
  "join_fields separator [] = []"
| "join_fields separator [f] = f"
| "join_fields separator (f # fs) = f @ separator # join_fields separator fs"

lemma char_fields_not_Nil [simp]: "char_fields d s \<noteq> []"
  by (cases s) (auto split: list.splits)

lemma char_fields_one: "d \<notin> set f \<Longrightarrow> char_fields d f = [f]"
  by (induction f) auto

lemma char_fields_append: "char_fields d (f @ d # r) = char_fields d f @ char_fields d r"
  by (induction f) (auto split: list.splits)

lemma join_char_fields [simp]: "join_fields d (char_fields d s) = s"
proof (induction s)
  case (Cons c s)
  then show ?case by (cases "char_fields d s"; cases "tl (char_fields d s)") auto
qed simp

lemma char_fields_join: "fs \<noteq> [] \<Longrightarrow> \<forall>f \<in> set fs. d \<notin> set f \<Longrightarrow> char_fields d (join_fields d fs) = fs"
  by (induction d fs rule: join_fields.induct) (simp_all add: char_fields_one char_fields_append)

lemma join_fields_append:
  "fs \<noteq> [] \<Longrightarrow> gs \<noteq> [] \<Longrightarrow> join_fields d (fs @ gs) = join_fields d fs @ d # join_fields d gs"
proof (induction d fs rule: join_fields.induct)
  case (2 d f)
  then show ?case by (cases gs) simp_all
qed simp_all

lemma char_fields_no_separator: "f \<in> set (char_fields d s) \<Longrightarrow> d \<notin> set f"
  by (induction s arbitrary: f) (auto split: if_splits list.splits)

lemma length_char_fields: "length (char_fields d s) = Suc (length (filter (\<lambda>c. c = d) s))"
  by (induction s) (auto split: list.splits)

lemma occurs_at_Cons:
  "occurs_at (c # s) needle (Suc i) \<longleftrightarrow> occurs_at s needle i"
  "occurs_at (c # s) needle 0 \<longleftrightarrow> length needle \<le> Suc (length s) \<and> take (length needle) (c # s) = needle"
  by (simp_all add: occurs_at_def)

lemma no_empty_later_field:
  "[] \<notin> set (tl (char_fields d s)) \<longleftrightarrow> (s = [] \<or> last s \<noteq> d) \<and> (\<forall>i. \<not> occurs_at s [d, d] i)"
proof (induction s)
  case (Cons c s)
  have split: "(\<forall>i. \<not> occurs_at (c # s) [d, d] i) \<longleftrightarrow>
      \<not> (c = d \<and> s \<noteq> [] \<and> hd s = d) \<and> (\<forall>i. \<not> occurs_at s [d, d] i)"
    (is "?all \<longleftrightarrow> _")
  proof -
    have "?all \<longleftrightarrow> \<not> occurs_at (c # s) [d, d] 0 \<and> (\<forall>i. \<not> occurs_at (c # s) [d, d] (Suc i))"
      by (metis not0_implies_Suc)
    then show ?thesis unfolding occurs_at_Cons by (cases s) auto
  qed
  show ?case
  proof (cases "c = d")
    case True
    have "[] \<notin> set (char_fields d s) \<longleftrightarrow> s \<noteq> [] \<and> hd s \<noteq> d \<and> [] \<notin> set (tl (char_fields d s))"
      by (cases s) (auto split: list.splits)
    then show ?thesis using True Cons split by auto
  next
    case False
    have "tl (char_fields d (c # s)) = tl (char_fields d s)" using False by (auto split: list.splits)
    then show ?thesis using False Cons split by auto
  qed
qed (simp add: occurs_at_def)

lemma no_empty_field:
  "[] \<notin> set (char_fields d s) \<longleftrightarrow> s \<noteq> [] \<and> hd s \<noteq> d \<and> last s \<noteq> d \<and> find_text s [d, d] 0 = None"
proof -
  have "[] \<notin> set (char_fields d s) \<longleftrightarrow> s \<noteq> [] \<and> hd s \<noteq> d \<and> [] \<notin> set (tl (char_fields d s))"
    by (cases s) (auto split: list.splits)
  then show ?thesis unfolding no_empty_later_field find_text_None by auto
qed

section \<open>Decimal numbers\<close>

text \<open>Accumulation of digits into 64 bits; \<^const>\<open>None\<close> for another character or an overflow.\<close>

fun accumulate_u64 :: "nat \<Rightarrow> string \<Rightarrow> nat option" where
  "accumulate_u64 result [] = Some result"
| "accumulate_u64 result (c # rest) =
     (if is_digit c then
        (let digit = digit_val c
         in if result > (2 ^ 64 - 1 - digit) div 10 then None else accumulate_u64 (result * 10 + digit) rest)
      else None)"

lemma digits_value_append: "digits_value (p @ s) = digits_value p * 10 ^ length s + digits_value s"
proof (induction s rule: rev_induct)
  case (snoc c s)
  then show ?case by (simp add: append_assoc [symmetric] algebra_simps del: append_assoc)
qed simp

lemma accumulate_u64_digits:
  assumes "digits_value p < 2 ^ 64"
  shows "accumulate_u64 (digits_value p) s =
    (if list_all is_digit s \<and> digits_value (p @ s) < 2 ^ 64 then Some (digits_value (p @ s)) else None)"
  using assms
proof (induction s arbitrary: p)
  case (Cons c s)
  have digit: "digit_val c < 10" if "is_digit c" using that by (auto simp: is_digit_def digit_val_def)
  have over: "digits_value p > (2 ^ 64 - 1 - digit_val c) div 10 \<longleftrightarrow> 2 ^ 64 \<le> digits_value (p @ [c])" if "is_digit c"
    using digit [OF that] by (simp add: div_less_iff_less_mult) linarith
  have grow: "digits_value (p @ [c]) \<le> digits_value (p @ c # s)"
    using digits_value_append [of "p @ [c]" s] by (simp add: trans_le_add1)
  show ?case
  proof (cases "is_digit c \<and> digits_value (p @ [c]) < 2 ^ 64")
    case True
    then show ?thesis using Cons.IH [of "p @ [c]"] over by (simp add: mult.commute)
  next
    case False
    then show ?thesis using over grow by (auto simp: Let_def)
  qed
qed (simp)


end
