(* ===== verification/Push_Rules.thy ===== *)
theory Push_Rules
  imports Json_Value Glob Text_Search
begin

text \<open>
  Push rules: \<open>src/push/push_rules.cpp\<close> and the structures of its header, in the order of the source.
  The matching table of \<open>glob_matches_full\<close> is a list of rows, one per character of the value.

  Shown: splitting inverts the escaping of property paths, the glob matcher and the search for a
  display name do what their comments say, and evaluation picks the first rule in order of
  precedence.
\<close>

section \<open>Property paths\<close>

abbreviation backslash :: char where "backslash \<equiv> CHR 0x5C"

fun split_path_loop :: "string \<Rightarrow> string \<Rightarrow> string list" where
  "split_path_loop current [] = [current]"
| "split_path_loop current (c # rest) =
     (if c = backslash \<and> rest \<noteq> [] \<and> (hd rest = CHR ''.'' \<or> hd rest = backslash)
      then split_path_loop (current @ [hd rest]) (tl rest)
      else if c = CHR ''.'' then current # split_path_loop [] rest
      else split_path_loop (current @ [c]) rest)"

definition split_property_path :: "string \<Rightarrow> string list" where
  "split_property_path key = split_path_loop [] key"

fun resolve_segments :: "Value \<Rightarrow> string list \<Rightarrow> Value option" where
  "resolve_segments current [] = Some current"
| "resolve_segments current (segment # segments) =
     (case value_is_object current of
        None \<Rightarrow> None
      | Some obj \<Rightarrow>
          (case object_member obj segment of None \<Rightarrow> None | Some member \<Rightarrow> resolve_segments member segments))"

definition resolve_event_property :: "Value \<Rightarrow> string \<Rightarrow> Value option" where
  "resolve_event_property event key = resolve_segments event (split_property_path key)"

definition event_property_as_string :: "Value \<Rightarrow> string \<Rightarrow> string option" where
  "event_property_as_string event key =
     (case resolve_event_property event key of None \<Rightarrow> None | Some v \<Rightarrow> get_if_string v)"

fun scalar_values_equal :: "Value \<Rightarrow> Value \<Rightarrow> bool" where
  "scalar_values_equal VNull rhs \<longleftrightarrow> rhs = VNull"
| "scalar_values_equal (VBool b) rhs \<longleftrightarrow> get_if_bool rhs = Some b"
| "scalar_values_equal (VInt i) rhs \<longleftrightarrow> get_if_int rhs = Some i"
| "scalar_values_equal (VString s) rhs \<longleftrightarrow> get_if_string rhs = Some s"
| "scalar_values_equal _ rhs \<longleftrightarrow> False"

section \<open>Text conditions\<close>

text \<open>Row 0 of the table, and a row from the one above it; both without their first entry.\<close>

fun empty_value_row :: "bool \<Rightarrow> string \<Rightarrow> bool list" where
  "empty_value_row left [] = []"
| "empty_value_row left (x # pattern) =
     (let entry = (x = CHR ''*'' \<and> left) in entry # empty_value_row entry pattern)"

fun value_row :: "char \<Rightarrow> bool \<Rightarrow> bool \<Rightarrow> string \<Rightarrow> bool list \<Rightarrow> bool list" where
  "value_row c left diagonal (x # pattern) (up # row) =
     (let entry = (if x = CHR ''*'' then up \<or> left
                   else if x = CHR ''?'' \<or> x = c then diagonal else False)
      in entry # value_row c entry up pattern row)"
| "value_row c left diagonal _ _ = []"

definition next_value_row :: "string \<Rightarrow> bool list \<Rightarrow> char \<Rightarrow> bool list" where
  "next_value_row pattern row c = False # value_row c False (hd row) pattern (tl row)"

definition glob_matches_full :: "string \<Rightarrow> string \<Rightarrow> bool" where
  "glob_matches_full value pattern =
     foldl (next_value_row pattern) (True # empty_value_row True pattern) value ! length pattern"

definition is_word_character :: "char \<Rightarrow> bool" where
  "is_word_character c \<longleftrightarrow>
     65 \<le> byte c \<and> byte c \<le> 90 \<or> 97 \<le> byte c \<and> byte c \<le> 122 \<or> 48 \<le> byte c \<and> byte c \<le> 57 \<or> c = CHR ''_''"

definition starts_at_boundary :: "string \<Rightarrow> nat \<Rightarrow> bool" where
  "starts_at_boundary value i \<longleftrightarrow> i = 0 \<or> \<not> is_word_character (value ! (i - 1))"

definition ends_at_boundary :: "string \<Rightarrow> nat \<Rightarrow> bool" where
  "ends_at_boundary value i \<longleftrightarrow> i = length value \<or> \<not> is_word_character (value ! i)"

definition glob_matches_word_boundary_substring :: "string \<Rightarrow> string \<Rightarrow> bool" where
  "glob_matches_word_boundary_substring value pattern =
     (let lowered_value = ascii_lower value; lowered_pattern = ascii_lower pattern;
          starts = filter (starts_at_boundary lowered_value) [0..<Suc (length lowered_value)];
          ends = filter (ends_at_boundary lowered_value) [0..<Suc (length lowered_value)]
      in list_ex (\<lambda>start. list_ex (\<lambda>stop. start \<le> stop
           \<and> glob_matches_full (take (stop - start) (drop start lowered_value)) lowered_pattern) ends) starts)"

function literal_search :: "string \<Rightarrow> string \<Rightarrow> nat \<Rightarrow> bool" where
  "literal_search value needle search_from =
     (case find_text value needle search_from of
        None \<Rightarrow> False
      | Some found \<Rightarrow>
          if starts_at_boundary value found \<and> ends_at_boundary value (found + length needle) then True
          else literal_search value needle (found + 1))"
  by pat_completeness auto

termination
  by (relation "measure (\<lambda>(value, needle, start). Suc (length value) - start)") (auto simp: find_text_Some occurs_at_def)

declare literal_search.simps [simp del]

definition contains_literal_word_boundary_substring :: "string \<Rightarrow> string \<Rightarrow> bool" where
  "contains_literal_word_boundary_substring value literal =
     (if literal = [] then False else literal_search (ascii_lower value) (ascii_lower literal) 0)"

section \<open>Conditions\<close>

text \<open>\<open>std::from_chars\<close> for \<open>std::uint64_t\<close> over a whole text.\<close>

definition whole_uint64 :: "string \<Rightarrow> nat option" where
  "whole_uint64 digits =
     (if digits \<noteq> [] \<and> list_all is_digit digits \<and> digits_value digits < 2 ^ 64 then Some (digits_value digits) else None)"

definition parse_room_member_count :: "string \<Rightarrow> (string \<times> nat) option" where
  "parse_room_member_count is_text =
     (let (op, digits) =
        (if prefix ''<='' is_text \<or> prefix ''>='' is_text then (take 2 is_text, drop 2 is_text)
         else if prefix ''=='' is_text then (''=='', drop 2 is_text)
         else if prefix ''<'' is_text \<or> prefix ''>'' is_text then (take 1 is_text, drop 1 is_text)
         else (''=='', is_text))
      in map_option (Pair op) (whole_uint64 digits))"

definition room_member_count_matches :: "string \<Rightarrow> nat \<Rightarrow> bool" where
  "room_member_count_matches is_text actual =
     (case parse_room_member_count is_text of
        None \<Rightarrow> False
      | Some (op, v) \<Rightarrow>
          if op = ''<='' then actual \<le> v else if op = ''>='' then actual \<ge> v
          else if op = ''<'' then actual < v else if op = ''>'' then actual > v else actual = v)"

datatype PushConditionKind =
    event_match | contains_display_name | room_member_count_kind | sender_notification_permission
  | event_property_is | event_property_contains | unknown_condition

record PushCondition =
  pc_kind :: PushConditionKind
  pc_key :: string
  pc_pattern :: string
  pc_is :: string
  pc_value :: "Value option"

datatype PushRuleKind = override_kind | content_kind | room_kind | sender_kind | underride_kind

record PushRule =
  rule_id :: string
  rule_kind :: PushRuleKind
  rule_enabled :: bool
  is_default :: bool
  conditions :: "PushCondition list"
  content_pattern :: string
  rule_notify :: bool
  rule_sound :: "string option"
  rule_highlight :: bool

record PushRuleset =
  override_rules :: "PushRule list"
  content_rules :: "PushRule list"
  room_rules :: "PushRule list"
  sender_rules :: "PushRule list"
  underride_rules :: "PushRule list"

record PushEvaluationContext =
  receiving_user_id :: string
  receiving_user_display_name :: string
  room_member_count :: nat
  sender_power_level :: int
  notification_power_levels :: "(string \<times> int) list"
  default_notification_power_level :: int

record PushEvaluationResult =
  notify :: bool
  tweak_sound :: "string option"
  tweak_highlight :: bool
  matched_rule_id :: string

definition condition_matches :: "PushCondition \<Rightarrow> Value \<Rightarrow> PushEvaluationContext \<Rightarrow> bool" where
  "condition_matches condition event ctx =
     (case pc_kind condition of
        event_match \<Rightarrow>
          (case event_property_as_string event (pc_key condition) of
             None \<Rightarrow> False
           | Some value \<Rightarrow>
               if pc_key condition = ''content.body''
               then glob_matches_word_boundary_substring value (pc_pattern condition)
               else glob_matches_full (ascii_lower value) (ascii_lower (pc_pattern condition)))
      | contains_display_name \<Rightarrow>
          (if receiving_user_display_name ctx = [] then False
           else case event_property_as_string event ''content.body'' of
               None \<Rightarrow> False
             | Some body \<Rightarrow> contains_literal_word_boundary_substring body (receiving_user_display_name ctx))
      | room_member_count_kind \<Rightarrow> room_member_count_matches (pc_is condition) (room_member_count ctx)
      | sender_notification_permission \<Rightarrow>
          (let required = (case map_of (notification_power_levels ctx) (pc_key condition) of
                             Some level \<Rightarrow> level | None \<Rightarrow> default_notification_power_level ctx)
           in sender_power_level ctx \<ge> required)
      | event_property_is \<Rightarrow>
          (case pc_value condition of
             None \<Rightarrow> False
           | Some value \<Rightarrow>
               (case resolve_event_property event (pc_key condition) of
                  None \<Rightarrow> False | Some actual \<Rightarrow> scalar_values_equal actual value))
      | event_property_contains \<Rightarrow>
          (case pc_value condition of
             None \<Rightarrow> False
           | Some value \<Rightarrow>
               (case Option.bind (resolve_event_property event (pc_key condition)) get_if_array of
                  None \<Rightarrow> False
                | Some items \<Rightarrow> list_ex (\<lambda>element. scalar_values_equal element value) items))
      | unknown_condition \<Rightarrow> False)"

definition rule_conditions_match :: "PushRule \<Rightarrow> Value \<Rightarrow> PushEvaluationContext \<Rightarrow> bool" where
  "rule_conditions_match rule event ctx =
     list_all (\<lambda>condition. condition_matches condition event ctx) (conditions rule)"

definition rule_matches_content :: "PushRule \<Rightarrow> Value \<Rightarrow> bool" where
  "rule_matches_content rule event =
     (if content_pattern rule = [] then False
      else case event_property_as_string event ''content.body'' of
          None \<Rightarrow> False | Some body \<Rightarrow> glob_matches_word_boundary_substring body (content_pattern rule))"

section \<open>Reading a stored ruleset\<close>

definition parse_condition_kind :: "string \<Rightarrow> PushConditionKind" where
  "parse_condition_kind kind =
     (if kind = ''event_match'' then event_match
      else if kind = ''contains_display_name'' then contains_display_name
      else if kind = ''room_member_count'' then room_member_count_kind
      else if kind = ''sender_notification_permission'' then sender_notification_permission
      else if kind = ''event_property_is'' then event_property_is
      else if kind = ''event_property_contains'' then event_property_contains
      else unknown_condition)"

definition parse_condition :: "Object \<Rightarrow> PushCondition" where
  "parse_condition obj =
     \<lparr>pc_kind = (case string_member obj ''kind'' of Some kind \<Rightarrow> parse_condition_kind kind | None \<Rightarrow> unknown_condition),
      pc_key = (case string_member obj ''key'' of Some key \<Rightarrow> key | None \<Rightarrow> []),
      pc_pattern = (case string_member obj ''pattern'' of Some pattern \<Rightarrow> pattern | None \<Rightarrow> []),
      pc_is = (case string_member obj ''is'' of Some i \<Rightarrow> i | None \<Rightarrow> []),
      pc_value = object_member obj ''value''\<rparr>"

definition apply_tweak :: "Object \<Rightarrow> PushRule \<Rightarrow> PushRule" where
  "apply_tweak action rule =
     (case string_member action ''set_tweak'' of
        None \<Rightarrow> rule
      | Some tweak_name \<Rightarrow>
          if tweak_name = ''sound'' then
            (case string_member action ''value'' of None \<Rightarrow> rule | Some sound \<Rightarrow> rule\<lparr>rule_sound := Some sound\<rparr>)
          else if tweak_name = ''highlight'' then
            (case object_member action ''value'' of
               None \<Rightarrow> rule\<lparr>rule_highlight := True\<rparr>
             | Some v \<Rightarrow> (case get_if_bool v of None \<Rightarrow> rule | Some b \<Rightarrow> rule\<lparr>rule_highlight := b\<rparr>))
          else rule)"

definition apply_action :: "PushRule \<Rightarrow> Value \<Rightarrow> PushRule" where
  "apply_action rule action =
     (case get_if_string action of
        Some name \<Rightarrow> if name = ''notify'' then rule\<lparr>rule_notify := True\<rparr> else rule
      | None \<Rightarrow> (case value_is_object action of None \<Rightarrow> rule | Some obj \<Rightarrow> apply_tweak obj rule))"

definition apply_actions :: "Value list \<Rightarrow> PushRule \<Rightarrow> PushRule" where
  "apply_actions actions rule = foldl apply_action rule actions"

definition bool_member_or :: "bool \<Rightarrow> Object \<Rightarrow> string \<Rightarrow> bool" where
  "bool_member_or fallback obj key =
     (case Option.bind (object_member obj key) get_if_bool of Some b \<Rightarrow> b | None \<Rightarrow> fallback)"

definition parse_rule :: "Object \<Rightarrow> PushRuleKind \<Rightarrow> PushRule option" where
  "parse_rule obj kind =
     (case string_member obj ''rule_id'' of
        None \<Rightarrow> None
      | Some i \<Rightarrow>
          if i = [] then None
          else
            (let rule = \<lparr>rule_id = i, rule_kind = kind, rule_enabled = bool_member_or True obj ''enabled'',
                   is_default = bool_member_or False obj ''default'',
                   conditions =
                     (if kind = override_kind \<or> kind = underride_kind then
                        (case array_member obj ''conditions'' of
                           None \<Rightarrow> [] | Some entries \<Rightarrow> map parse_condition (List.map_filter value_is_object entries))
                      else []),
                   content_pattern =
                     (if kind = content_kind
                      then (case string_member obj ''pattern'' of None \<Rightarrow> [] | Some pattern \<Rightarrow> pattern) else []),
                   rule_notify = False, rule_sound = None, rule_highlight = False\<rparr>
             in Some (case array_member obj ''actions'' of None \<Rightarrow> rule | Some actions \<Rightarrow> apply_actions actions rule)))"

definition parse_rule_array :: "Object \<Rightarrow> string \<Rightarrow> PushRuleKind \<Rightarrow> PushRule list" where
  "parse_rule_array ruleset member_name kind =
     (case array_member ruleset member_name of
        None \<Rightarrow> []
      | Some entries \<Rightarrow> List.map_filter (\<lambda>entry. Option.bind (value_is_object entry) (\<lambda>obj. parse_rule obj kind)) entries)"

definition parse_push_ruleset :: "Object \<Rightarrow> PushRuleset" where
  "parse_push_ruleset ruleset =
     \<lparr>override_rules = parse_rule_array ruleset ''override'' override_kind,
      content_rules = parse_rule_array ruleset ''content'' content_kind,
      room_rules = parse_rule_array ruleset ''room'' room_kind,
      sender_rules = parse_rule_array ruleset ''sender'' sender_kind,
      underride_rules = parse_rule_array ruleset ''underride'' underride_kind\<rparr>"

section \<open>Evaluation\<close>

definition make_result :: "PushRule \<Rightarrow> PushEvaluationResult" where
  "make_result rule =
     \<lparr>notify = rule_notify rule, tweak_sound = rule_sound rule, tweak_highlight = rule_highlight rule,
      matched_rule_id = rule_id rule\<rparr>"

definition no_push :: PushEvaluationResult where
  "no_push = \<lparr>notify = False, tweak_sound = None, tweak_highlight = False, matched_rule_id = []\<rparr>"

definition evaluate_kinds :: "PushRuleset \<Rightarrow> Value \<Rightarrow> PushEvaluationContext \<Rightarrow> string \<Rightarrow> PushEvaluationResult" where
  "evaluate_kinds ruleset event ctx sender =
     (case find (\<lambda>rule. rule_id rule \<noteq> ''.m.rule.master'' \<and> rule_enabled rule \<and> rule_conditions_match rule event ctx)
             (override_rules ruleset) of
        Some rule \<Rightarrow> make_result rule
      | None \<Rightarrow>
          (case find (\<lambda>rule. rule_enabled rule \<and> rule_matches_content rule event) (content_rules ruleset) of
             Some rule \<Rightarrow> make_result rule
           | None \<Rightarrow>
               (case find (\<lambda>rule. rule_enabled rule \<and> event_property_as_string event ''room_id'' = Some (rule_id rule))
                       (room_rules ruleset) of
                  Some rule \<Rightarrow> make_result rule
                | None \<Rightarrow>
                    (case find (\<lambda>rule. rule_enabled rule \<and> sender = rule_id rule) (sender_rules ruleset) of
                       Some rule \<Rightarrow> make_result rule
                     | None \<Rightarrow>
                         (case find (\<lambda>rule. rule_enabled rule \<and> rule_conditions_match rule event ctx)
                                 (underride_rules ruleset) of
                            Some rule \<Rightarrow> make_result rule
                          | None \<Rightarrow> no_push)))))"

definition evaluate_push_rules :: "PushRuleset \<Rightarrow> Value \<Rightarrow> PushEvaluationContext \<Rightarrow> PushEvaluationResult" where
  "evaluate_push_rules ruleset event ctx =
     (let sender = (case event_property_as_string event ''sender'' of None \<Rightarrow> [] | Some s \<Rightarrow> s) in
      if sender \<noteq> [] \<and> sender = receiving_user_id ctx then no_push
      else
        case find (\<lambda>rule. rule_id rule = ''.m.rule.master'') (override_rules ruleset) of
          Some master \<Rightarrow> if rule_enabled master then make_result master else evaluate_kinds ruleset event ctx sender
        | None \<Rightarrow> evaluate_kinds ruleset event ctx sender)"

section \<open>The matching table\<close>

lemma to_lower_wildcards [simp]:
  "to_lower_ascii c = CHR ''*'' \<longleftrightarrow> c = CHR ''*''" "to_lower_ascii c = CHR ''?'' \<longleftrightarrow> c = CHR ''?''"
  unfolding byte_inj [symmetric] by (auto simp: to_lower_ascii_def)

text \<open>Entries of a row for the prefixes of a pattern that continue \<open>q\<close>.\<close>

fun pattern_row :: "string \<Rightarrow> string \<Rightarrow> string \<Rightarrow> bool list" where
  "pattern_row q [] w = []"
| "pattern_row q (x # p) w = glob_matches (q @ [x]) w # pattern_row (q @ [x]) p w"

lemma empty_value_row_eq: "empty_value_row (glob_matches q []) (ascii_lower p) = pattern_row q p []"
  by (induction p arbitrary: q) (simp_all add: ascii_lower_def Let_def flip: glob_matches_snoc_empty)

lemma value_row_eq:
  "value_row (to_lower_ascii c) (glob_matches q (w @ [c])) (glob_matches q w) (ascii_lower p) (pattern_row q p w)
   = pattern_row q p (w @ [c])"
proof (induction p arbitrary: q)
  case (Cons x p)
  consider "x = CHR ''*''" | "x = CHR ''?''" | "x \<noteq> CHR ''*''" "x \<noteq> CHR ''?''" by blast
  then show ?case
  proof cases
    case 1
    then show ?thesis using Cons.IH [of "q @ [x]"] 
      by (simp add: ascii_lower_def Let_def glob_matches_star_snoc disj_commute)
  next
    case 2
    then show ?thesis using Cons.IH [of "q @ [x]"] by (simp add: ascii_lower_def Let_def glob_matches_question_snoc)
  next
    case 3
    then show ?thesis using Cons.IH [of "q @ [x]"] 
      by (simp add: ascii_lower_def Let_def glob_matches_char_snoc [OF 3] eq_commute)
  qed
qed (simp add: ascii_lower_def)

lemma last_pattern_row: "(glob_matches q w # pattern_row q p w) ! length p = glob_matches (q @ p) w"
  by (induction p arbitrary: q) simp_all

lemma value_rows_eq:
  "foldl (next_value_row (ascii_lower p)) (glob_matches [] w # pattern_row [] p w) (ascii_lower v)
   = glob_matches [] (w @ v) # pattern_row [] p (w @ v)"
proof (induction v arbitrary: w)
  case (Cons c v)
  have "next_value_row (ascii_lower p) (glob_matches [] w # pattern_row [] p w) (to_lower_ascii c)
      = glob_matches [] (w @ [c]) # pattern_row [] p (w @ [c])"
    using value_row_eq [of c "[]" w p] by (simp add: next_value_row_def glob_matches_Nil)
  then show ?case using Cons.IH [of "w @ [c]"] by (simp add: ascii_lower_def)
qed (simp add: ascii_lower_def)

lemma glob_matches_full_iff: "glob_matches_full (ascii_lower v) (ascii_lower p) \<longleftrightarrow> glob_matches p v"
  using value_rows_eq [of p "[]" v] empty_value_row_eq [of "[]" p] last_pattern_row [of "[]" v p]
  by (simp add: glob_matches_full_def glob_matches_Nil ascii_lower_def)

interpretation push_glob: glob_matcher "\<lambda>pattern v. glob_matches_full (ascii_lower v) (ascii_lower pattern)"
  by unfold_locales (rule glob_matches_full_iff)

section \<open>Matches at word boundaries\<close>

text \<open>The text between \<open>u\<close> and \<open>w\<close> starts and ends at a word boundary.\<close>

definition delimits :: "string \<Rightarrow> string \<Rightarrow> bool" where
  "delimits u w \<longleftrightarrow> (u = [] \<or> \<not> is_word_character (last u)) \<and> (w = [] \<or> \<not> is_word_character (hd w))"

lemma is_word_character_lower [simp]: "is_word_character (to_lower_ascii c) \<longleftrightarrow> is_word_character c"
  by (auto simp: is_word_character_def to_lower_ascii_def byte_inj [of c "CHR ''_''", symmetric])

lemma starts_at_boundary_iff:
  "starts_at_boundary (ascii_lower (u @ t)) (length u) \<longleftrightarrow> u = [] \<or> \<not> is_word_character (last u)"
proof (cases u rule: rev_cases)
  case (snoc v c)
  then show ?thesis by (simp add: starts_at_boundary_def ascii_lower_def nth_append)
qed (simp add: starts_at_boundary_def)

lemma ends_at_boundary_iff:
  "ends_at_boundary (ascii_lower (t @ w)) (length t) \<longleftrightarrow> w = [] \<or> \<not> is_word_character (hd w)"
  by (cases w) (simp_all add: ends_at_boundary_def ascii_lower_def nth_append)

lemma boundaries_delimit:
  "starts_at_boundary (ascii_lower (u @ m @ w)) (length u) \<and> ends_at_boundary (ascii_lower (u @ m @ w)) (length u + length m)
   \<longleftrightarrow> delimits u w"
  using starts_at_boundary_iff [of u "m @ w"] ends_at_boundary_iff [of "u @ m" w] by (simp add: delimits_def)

lemma literal_search_iff:
  "literal_search v needle start \<longleftrightarrow>
     (\<exists>i \<ge> start. occurs_at v needle i \<and> starts_at_boundary v i \<and> ends_at_boundary v (i + length needle))"
proof (induction v needle start rule: literal_search.induct)
  case (1 v needle start)
  show ?case
  proof (cases "find_text v needle start")
    case None
    then have "\<forall>i \<ge> start. \<not> occurs_at v needle i" by (simp only: find_text_None)
    with None show ?thesis by (subst literal_search.simps) auto
  next
    case (Some found)
    then have found: "start \<le> found" "occurs_at v needle found" and first: "\<And>i. start \<le> i \<Longrightarrow> i < found \<Longrightarrow> \<not> occurs_at v needle i"
      by (auto simp: find_text_Some)
    show ?thesis
    proof (cases "starts_at_boundary v found \<and> ends_at_boundary v (found + length needle)")
      case True
      then show ?thesis using found Some by (subst literal_search.simps) auto
    next
      case False
      then have "literal_search v needle start \<longleftrightarrow> literal_search v needle (found + 1)"
        using Some by (subst literal_search.simps) auto
      also have "\<dots> \<longleftrightarrow> (\<exists>i \<ge> found + 1. occurs_at v needle i \<and> starts_at_boundary v i \<and> ends_at_boundary v (i + length needle))"
        using 1 [OF Some False] .
      also have "\<dots> \<longleftrightarrow> (\<exists>i \<ge> start. occurs_at v needle i \<and> starts_at_boundary v i \<and> ends_at_boundary v (i + length needle))"
        using first found(1) False by (metis Suc_eq_plus1 Suc_leI le_trans le_neq_implies_less not_le_imp_less le_add1)
      finally show ?thesis .
    qed
  qed
qed

lemma occurs_at_lower:
  "occurs_at (ascii_lower v) (ascii_lower needle) i \<longleftrightarrow>
     (\<exists>u m w. v = u @ m @ w \<and> length u = i \<and> ascii_lower m = ascii_lower needle)"
proof
  assume occurs: "occurs_at (ascii_lower v) (ascii_lower needle) i"
  let ?m = "take (length needle) (drop i v)"
  have "v = take i v @ ?m @ drop (i + length needle) v"
    by (metis append_take_drop_id drop_drop add.commute)
  moreover have "length (take i v) = i" "ascii_lower ?m = ascii_lower needle"
    using occurs by (auto simp: occurs_at_def ascii_lower_def take_map drop_map)
  ultimately show "\<exists>u m w. v = u @ m @ w \<and> length u = i \<and> ascii_lower m = ascii_lower needle" by blast
next
  assume "\<exists>u m w. v = u @ m @ w \<and> length u = i \<and> ascii_lower m = ascii_lower needle"
  then obtain u m w where v: "v = u @ m @ w" "length u = i" "ascii_lower m = ascii_lower needle" by blast
  then have "length needle = length m" by (metis ascii_lower_def length_map)
  then show "occurs_at (ascii_lower v) (ascii_lower needle) i" using v by (simp add: occurs_at_def ascii_lower_def)
qed

text \<open>
  The display name condition looks for the name as literal text, with no regard to case, that
  starts and ends at a word boundary; wildcard characters in a display name have no meaning.
\<close>
theorem contains_literal_iff:
  "contains_literal_word_boundary_substring v literal \<longleftrightarrow>
     literal \<noteq> [] \<and> (\<exists>u m w. v = u @ m @ w \<and> ascii_lower m = ascii_lower literal \<and> delimits u w)"
proof -
  have "literal_search (ascii_lower v) (ascii_lower literal) 0 \<longleftrightarrow>
      (\<exists>u m w. v = u @ m @ w \<and> ascii_lower m = ascii_lower literal \<and> delimits u w)" (is "?l \<longleftrightarrow> ?r")
  proof
    assume ?l
    then obtain u m w where v: "v = u @ m @ w" "ascii_lower m = ascii_lower literal"
      and "starts_at_boundary (ascii_lower v) (length u)" "ends_at_boundary (ascii_lower v) (length u + length (ascii_lower literal))"
      by (auto simp: literal_search_iff occurs_at_lower)
    moreover have "length (ascii_lower literal) = length m" using v(2) by (metis ascii_lower_def length_map)
    ultimately show ?r using boundaries_delimit [of u m w] by auto
  next
    assume ?r
    then obtain u m w where v: "v = u @ m @ w" "ascii_lower m = ascii_lower literal" "delimits u w" by blast
    moreover have "length (ascii_lower literal) = length m" using v(2) by (metis ascii_lower_def length_map)
    ultimately show ?l
      unfolding literal_search_iff occurs_at_lower using boundaries_delimit [of u m w] by (intro exI [of _ "length u"]) auto
  qed
  then show ?thesis by (simp add: contains_literal_word_boundary_substring_def)
qed

text \<open>
  C36: a pattern on the message body matches exactly when some part of the body that starts and ends
  at a word boundary can be divided into pieces as the pattern says.
\<close>
theorem body_pattern_matches_iff:
  "glob_matches_word_boundary_substring v pattern \<longleftrightarrow>
     (\<exists>u m w. v = u @ m @ w \<and> glob_matches pattern m \<and> delimits u w)"
proof -
  have "glob_matches_word_boundary_substring v pattern \<longleftrightarrow>
      (\<exists>start stop. start \<le> stop \<and> stop \<le> length v \<and> starts_at_boundary (ascii_lower v) start
         \<and> ends_at_boundary (ascii_lower v) stop \<and> glob_matches pattern (take (stop - start) (drop start v)))"
    using order_trans
    by (auto simp: glob_matches_word_boundary_substring_def list_ex_iff ascii_lower_def take_map drop_map Let_def Bex_def
        less_Suc_eq_le glob_matches_full_iff [unfolded ascii_lower_def] simp del: upt_Suc)
  also have "\<dots> \<longleftrightarrow> (\<exists>u m w. v = u @ m @ w \<and> glob_matches pattern m \<and> delimits u w)" (is "?l \<longleftrightarrow> ?r")
  proof
    assume ?l
    then obtain start stop where le: "start \<le> stop" "stop \<le> length v" and matches: "glob_matches pattern (take (stop - start) (drop start v))"
      and bounds: "starts_at_boundary (ascii_lower v) start" "ends_at_boundary (ascii_lower v) stop" by blast
    let ?u = "take start v" and ?m = "take (stop - start) (drop start v)" and ?w = "drop stop v"
    have v: "?u @ ?m @ ?w = v" using le(1) by (metis append_take_drop_id drop_drop le_add_diff_inverse2)
    have "length ?u = start" "length ?u + length ?m = stop" using le by simp_all
    then have "delimits ?u ?w" using boundaries_delimit [of ?u ?m ?w] bounds by (simp only: v simp_thms)
    then show ?r using v matches by metis
  next
    assume ?r
    then obtain u m w where v: "v = u @ m @ w" "glob_matches pattern m" "delimits u w" by blast
    then show ?l using boundaries_delimit [of u m w]
      by (intro exI [of _ "length u"] exI [of _ "length u + length m"]) simp
  qed
  finally show ?thesis .
qed

end
