(* ===== verification/Default_Push_Rules.thy ===== *)
theory Default_Push_Rules
  imports Push_Rules
begin

text \<open>
  The ruleset every account starts with: \<open>src/homeserver/default_push_ruleset.cpp\<close>, built as JSON and
  read back by the push rule parser.

  Shown: which events notify and which highlight under these rules, as one condition on the event.
\<close>

section \<open>Builders\<close>

definition push_action_set_tweak :: "string \<Rightarrow> Value" where
  "push_action_set_tweak tweak = VObject [make_member ''set_tweak'' (VString tweak)]"

definition push_action_set_tweak_text :: "string \<Rightarrow> string \<Rightarrow> Value" where
  "push_action_set_tweak_text tweak value =
     VObject [make_member ''set_tweak'' (VString tweak), make_member ''value'' (VString value)]"

definition push_action_set_tweak_flag :: "string \<Rightarrow> bool \<Rightarrow> Value" where
  "push_action_set_tweak_flag tweak value =
     VObject [make_member ''set_tweak'' (VString tweak), make_member ''value'' (VBool value)]"

definition push_condition_event_match :: "string \<Rightarrow> string \<Rightarrow> Value" where
  "push_condition_event_match key pattern =
     VObject [make_member ''key'' (VString key), make_member ''kind'' (VString ''event_match''),
              make_member ''pattern'' (VString pattern)]"

definition push_condition_event_property_is :: "string \<Rightarrow> Value \<Rightarrow> Value" where
  "push_condition_event_property_is key value =
     VObject [make_member ''key'' (VString key), make_member ''kind'' (VString ''event_property_is''),
              make_member ''value'' value]"

definition push_condition_event_property_contains :: "string \<Rightarrow> string \<Rightarrow> Value" where
  "push_condition_event_property_contains key value =
     VObject [make_member ''key'' (VString key), make_member ''kind'' (VString ''event_property_contains''),
              make_member ''value'' (VString value)]"

definition push_condition_room_member_count :: "string \<Rightarrow> Value" where
  "push_condition_room_member_count member_count =
     VObject [make_member ''is'' (VString member_count), make_member ''kind'' (VString ''room_member_count'')]"

definition push_condition_sender_notification_permission :: "string \<Rightarrow> Value" where
  "push_condition_sender_notification_permission key =
     VObject [make_member ''key'' (VString key), make_member ''kind'' (VString ''sender_notification_permission'')]"

definition push_rule :: "string \<Rightarrow> bool \<Rightarrow> Value list \<Rightarrow> Value list \<Rightarrow> Value" where
  "push_rule i enabled conds actions =
     VObject [make_member ''actions'' (VArray actions), make_member ''conditions'' (VArray conds),
              make_member ''default'' (VBool True), make_member ''enabled'' (VBool enabled),
              make_member ''rule_id'' (VString i)]"

definition mentions_path :: "string \<Rightarrow> string" where
  "mentions_path field = ''content.m'' @ [backslash] @ ''.mentions.'' @ field"

definition relation_path :: string where
  "relation_path = ''content.m'' @ [backslash] @ ''.relates_to.rel_type''"

definition default_override_rules :: "string \<Rightarrow> Value list" where
  "default_override_rules user =
     [push_rule ''.m.rule.master'' False [] [],
      push_rule ''.m.rule.suppress_notices'' True [push_condition_event_match ''content.msgtype'' ''m.notice''] [],
      push_rule ''.m.rule.invite_for_me'' True
        [push_condition_event_match ''type'' ''m.room.member'',
         push_condition_event_match ''content.membership'' ''invite'', push_condition_event_match ''state_key'' user]
        [VString ''notify'', push_action_set_tweak_text ''sound'' ''default'', push_action_set_tweak_flag ''highlight'' False],
      push_rule ''.m.rule.member_event'' True [push_condition_event_match ''type'' ''m.room.member''] [],
      push_rule ''.m.rule.is_user_mention'' True [push_condition_event_property_contains (mentions_path ''user_ids'') user]
        [VString ''notify'', push_action_set_tweak_text ''sound'' ''default'', push_action_set_tweak ''highlight''],
      push_rule ''.m.rule.is_room_mention'' True
        [push_condition_event_property_is (mentions_path ''room'') (VBool True),
         push_condition_sender_notification_permission ''room'']
        [VString ''notify'', push_action_set_tweak ''highlight''],
      push_rule ''.m.rule.tombstone'' True
        [push_condition_event_match ''type'' ''m.room.tombstone'', push_condition_event_match ''state_key'' '''']
        [VString ''notify'', push_action_set_tweak ''highlight''],
      push_rule ''.m.rule.reaction'' True [push_condition_event_match ''type'' ''m.reaction''] [],
      push_rule ''.m.rule.room.server_acl'' True
        [push_condition_event_match ''type'' ''m.room.server_acl'', push_condition_event_match ''state_key'' ''''] [],
      push_rule ''.m.rule.suppress_edits'' True
        [push_condition_event_property_is relation_path (VString ''m.replace'')] []]"

definition default_underride_rules :: "Value list" where
  "default_underride_rules =
     [push_rule ''.m.rule.call'' True [push_condition_event_match ''type'' ''m.call.invite'']
        [VString ''notify'', push_action_set_tweak_text ''sound'' ''ring'', push_action_set_tweak_flag ''highlight'' False],
      push_rule ''.m.rule.encrypted_room_one_to_one'' True
        [push_condition_room_member_count ''2'', push_condition_event_match ''type'' ''m.room.encrypted'']
        [VString ''notify'', push_action_set_tweak_text ''sound'' ''default'', push_action_set_tweak_flag ''highlight'' False],
      push_rule ''.m.rule.room_one_to_one'' True
        [push_condition_room_member_count ''2'', push_condition_event_match ''type'' ''m.room.message'']
        [VString ''notify'', push_action_set_tweak_text ''sound'' ''default'', push_action_set_tweak_flag ''highlight'' False],
      push_rule ''.m.rule.message'' True [push_condition_event_match ''type'' ''m.room.message'']
        [VString ''notify'', push_action_set_tweak_flag ''highlight'' False],
      push_rule ''.m.rule.encrypted'' True [push_condition_event_match ''type'' ''m.room.encrypted'']
        [VString ''notify'', push_action_set_tweak_flag ''highlight'' False]]"

definition default_push_ruleset :: "string \<Rightarrow> Object" where
  "default_push_ruleset user =
     [make_member ''content'' (VArray []), make_member ''override'' (VArray (default_override_rules user)),
      make_member ''room'' (VArray []), make_member ''sender'' (VArray []),
      make_member ''underride'' (VArray default_underride_rules)]"

section \<open>The rules as the parser reads them\<close>

definition read_rule :: "PushRuleKind \<Rightarrow> string \<Rightarrow> bool \<Rightarrow> Value list \<Rightarrow> Value list \<Rightarrow> PushRule" where
  "read_rule kind i enabled conds actions =
     apply_actions actions
       \<lparr>rule_id = i, rule_kind = kind, rule_enabled = enabled, is_default = True,
        conditions = map parse_condition (List.map_filter value_is_object conds), content_pattern = [],
        rule_notify = False, rule_sound = None, rule_highlight = False\<rparr>"

lemma parse_push_rule:
  assumes "i \<noteq> []" and "kind = override_kind \<or> kind = underride_kind"
  shows "Option.bind (value_is_object (push_rule i enabled conds actions)) (\<lambda>obj. parse_rule obj kind)
    = Some (read_rule kind i enabled conds actions)"
  using assms
  by (auto simp: push_rule_def parse_rule_def read_rule_def make_member_def string_member_def array_member_def
      object_member_def bool_member_or_def Let_def)

lemma apply_action_fields [simp]:
  "rule_id (apply_action rule a) = rule_id rule" "rule_enabled (apply_action rule a) = rule_enabled rule"
  "conditions (apply_action rule a) = conditions rule"
  by (auto simp: apply_action_def apply_tweak_def split: option.splits)

lemma apply_actions_fields [simp]:
  "rule_id (apply_actions as rule) = rule_id rule" "rule_enabled (apply_actions as rule) = rule_enabled rule"
  "conditions (apply_actions as rule) = conditions rule"
  by (induction as arbitrary: rule) (simp_all add: apply_actions_def)

lemma read_rule_fields [simp]:
  "rule_id (read_rule kind i enabled conds actions) = i"
  "rule_enabled (read_rule kind i enabled conds actions) = enabled"
  "conditions (read_rule kind i enabled conds actions) = map parse_condition (List.map_filter value_is_object conds)"
  by (simp_all add: read_rule_def)

definition read_condition :: "Value \<Rightarrow> Value \<Rightarrow> PushEvaluationContext \<Rightarrow> bool" where
  "read_condition condition event ctx =
     (case value_is_object condition of None \<Rightarrow> True | Some obj \<Rightarrow> condition_matches (parse_condition obj) event ctx)"

lemma read_rule_conditions:
  "rule_conditions_match (read_rule kind i enabled conds actions) event ctx \<longleftrightarrow>
     list_all (\<lambda>condition. read_condition condition event ctx) conds"
  by (induction conds)
    (auto simp: rule_conditions_match_def read_condition_def List.map_filter_simps split: option.splits)

text \<open>An event has a text at a path, up to case.\<close>

definition field_is :: "Value \<Rightarrow> string \<Rightarrow> string \<Rightarrow> bool" where
  "field_is event key t \<longleftrightarrow> (\<exists>v. event_property_as_string event key = Some v \<and> ascii_lower v = ascii_lower t)"

lemmas condition_defs = read_condition_def parse_condition_def condition_matches_def make_member_def
  string_member_def object_member_def parse_condition_kind_def

lemma read_event_match:
  "key \<noteq> ''content.body'' \<Longrightarrow> read_condition (push_condition_event_match key pattern) event ctx \<longleftrightarrow>
     (\<exists>v. event_property_as_string event key = Some v \<and> glob_matches pattern v)"
  by (auto simp: condition_defs push_condition_event_match_def glob_matches_full_iff split: option.splits)

lemma read_event_match_literal:
  "key \<noteq> ''content.body'' \<Longrightarrow> literal_pattern pattern \<Longrightarrow>
     read_condition (push_condition_event_match key pattern) event ctx \<longleftrightarrow> field_is event key pattern"
  using push_glob.literal_matches_iff [of pattern]
  by (auto simp: read_event_match field_is_def glob_matches_full_iff)

lemma read_property_is:
  "read_condition (push_condition_event_property_is key v) event ctx \<longleftrightarrow>
     (\<exists>actual. resolve_event_property event key = Some actual \<and> scalar_values_equal actual v)"
  by (auto simp: condition_defs push_condition_event_property_is_def split: option.splits)

lemma read_property_contains:
  "read_condition (push_condition_event_property_contains key v) event ctx \<longleftrightarrow>
     (\<exists>items. resolve_event_property event key = Some (VArray items) \<and> VString v \<in> set items)"
proof -
  have "scalar_values_equal element (VString v) \<longleftrightarrow> element = VString v" for element
    by (cases element) auto
  then show ?thesis
    by (auto simp: condition_defs push_condition_event_property_contains_def list_ex_iff split: option.splits bind_splits
        elim: get_if_array.elims)
qed

lemma read_permission:
  "read_condition (push_condition_sender_notification_permission key) event ctx \<longleftrightarrow>
     (case map_of (notification_power_levels ctx) key of Some level \<Rightarrow> level | None \<Rightarrow> default_notification_power_level ctx)
       \<le> sender_power_level ctx"
  by (simp add: condition_defs push_condition_sender_notification_permission_def)

lemma default_rules_read:
  "override_rules (parse_push_ruleset (default_push_ruleset user)) =
     map (\<lambda>v. the (Option.bind (value_is_object v) (\<lambda>obj. parse_rule obj override_kind))) (default_override_rules user)"
  "underride_rules (parse_push_ruleset (default_push_ruleset user)) =
     map (\<lambda>v. the (Option.bind (value_is_object v) (\<lambda>obj. parse_rule obj underride_kind))) default_underride_rules"
  "content_rules (parse_push_ruleset (default_push_ruleset user)) = []"
  "room_rules (parse_push_ruleset (default_push_ruleset user)) = []"
  "sender_rules (parse_push_ruleset (default_push_ruleset user)) = []"
  by (simp_all add: parse_push_ruleset_def parse_rule_array_def default_push_ruleset_def make_member_def array_member_def
      object_member_def default_override_rules_def default_underride_rules_def parse_push_rule List.map_filter_simps
      del: bind_eq_Some_conv)

lemma read_rule_effects:
  "rule_notify (read_rule kind i e conds []) = False" "rule_highlight (read_rule kind i e conds []) = False"
  "rule_notify (read_rule kind i e conds (VString ''notify'' # actions)) = True"
  "rule_highlight (read_rule kind i e conds
     [VString ''notify'', push_action_set_tweak_text ''sound'' t, push_action_set_tweak_flag ''highlight'' b]) = b"
  "rule_highlight (read_rule kind i e conds
     [VString ''notify'', push_action_set_tweak_text ''sound'' t, push_action_set_tweak ''highlight'']) = True"
  "rule_highlight (read_rule kind i e conds [VString ''notify'', push_action_set_tweak ''highlight'']) = True"
  "rule_highlight (read_rule kind i e conds [VString ''notify'', push_action_set_tweak_flag ''highlight'' b]) = b"
proof -
  have keep: "rule_notify (foldl apply_action rule as)" if "rule_notify rule" for rule as
    using that
    by (induction as arbitrary: rule) (auto simp: apply_action_def apply_tweak_def split: option.splits)
  show "rule_notify (read_rule kind i e conds (VString ''notify'' # actions)) = True"
    by (simp add: read_rule_def apply_actions_def apply_action_def keep)
qed (simp_all add: read_rule_def apply_actions_def apply_action_def apply_tweak_def push_action_set_tweak_def
    push_action_set_tweak_text_def push_action_set_tweak_flag_def make_member_def string_member_def object_member_def)

section \<open>Who is notified\<close>

definition mentions_user :: "Value \<Rightarrow> string \<Rightarrow> bool" where
  "mentions_user event user \<longleftrightarrow>
     (\<exists>items. resolve_segments event [''content'', ''m.mentions'', ''user_ids''] = Some (VArray items)
        \<and> VString user \<in> set items)"

definition mentions_room :: "Value \<Rightarrow> PushEvaluationContext \<Rightarrow> bool" where
  "mentions_room event ctx \<longleftrightarrow>
     resolve_segments event [''content'', ''m.mentions'', ''room''] = Some (VBool True)
     \<and> (case map_of (notification_power_levels ctx) ''room'' of
          Some level \<Rightarrow> level | None \<Rightarrow> default_notification_power_level ctx) \<le> sender_power_level ctx"

definition is_tombstone :: "Value \<Rightarrow> bool" where
  "is_tombstone event \<longleftrightarrow> field_is event ''type'' ''m.room.tombstone'' \<and> field_is event ''state_key'' ''''"

definition invites_user :: "Value \<Rightarrow> string \<Rightarrow> bool" where
  "invites_user event user \<longleftrightarrow>
     field_is event ''content.membership'' ''invite''
     \<and> (\<exists>v. event_property_as_string event ''state_key'' = Some v \<and> glob_matches user v)"

definition suppressed :: "Value \<Rightarrow> bool" where
  "suppressed event \<longleftrightarrow>
     field_is event ''type'' ''m.reaction''
     \<or> field_is event ''type'' ''m.room.server_acl'' \<and> field_is event ''state_key'' ''''
     \<or> resolve_segments event [''content'', ''m.relates_to'', ''rel_type''] = Some (VString ''m.replace'')"

definition is_message :: "Value \<Rightarrow> bool" where
  "is_message event \<longleftrightarrow>
     field_is event ''type'' ''m.call.invite'' \<or> field_is event ''type'' ''m.room.message''
     \<or> field_is event ''type'' ''m.room.encrypted''"

lemma default_paths:
  "resolve_event_property event (mentions_path ''user_ids'') = resolve_segments event [''content'', ''m.mentions'', ''user_ids'']"
  "resolve_event_property event (mentions_path ''room'') = resolve_segments event [''content'', ''m.mentions'', ''room'']"
  "resolve_event_property event relation_path = resolve_segments event [''content'', ''m.relates_to'', ''rel_type'']"
  by (simp_all add: resolve_event_property_def split_property_path_def mentions_path_def relation_path_def
      del: resolve_segments.simps)

lemma scalar_values_equal_iff:
  "scalar_values_equal v (VBool b) \<longleftrightarrow> v = VBool b" "scalar_values_equal v (VString t) \<longleftrightarrow> v = VString t"
  by (cases v; auto)+

lemma literal_patterns:
  "literal_pattern ''m.notice''" "literal_pattern ''m.room.member''" "literal_pattern ''invite''"
  "literal_pattern ''m.room.tombstone''" "literal_pattern ''''" "literal_pattern ''m.reaction''"
  "literal_pattern ''m.room.server_acl''" "literal_pattern ''m.call.invite''" "literal_pattern ''m.room.encrypted''"
  "literal_pattern ''m.room.message''"
  by (simp_all add: literal_pattern_def)

definition own_event :: "Value \<Rightarrow> PushEvaluationContext \<Rightarrow> bool" where
  "own_event event ctx \<longleftrightarrow>
     (\<exists>s. event_property_as_string event ''sender'' = Some s \<and> s \<noteq> [] \<and> s = receiving_user_id ctx)"

lemmas default_rules_unfold = default_rules_read default_override_rules_def default_underride_rules_def list.map
  parse_push_rule option.sel

text \<open>The chain of decisions the default rules come down to.\<close>

definition default_decision :: "string \<Rightarrow> Value \<Rightarrow> PushEvaluationContext \<Rightarrow> bool \<times> bool" where
  "default_decision user event ctx =
     (if own_event event ctx \<or> field_is event ''content.msgtype'' ''m.notice'' then (False, False)
      else if field_is event ''type'' ''m.room.member'' then (invites_user event user, False)
      else if mentions_user event user \<or> mentions_room event ctx \<or> is_tombstone event then (True, True)
      else if suppressed event then (False, False)
      else (is_message event, False))"

lemma default_overrides:
  "find (\<lambda>rule. rule_id rule = ''.m.rule.master'') (override_rules (parse_push_ruleset (default_push_ruleset user)))
     = Some (read_rule override_kind ''.m.rule.master'' False [] [])"
  by (simp add: default_rules_unfold del: bind_eq_Some_conv)

lemma own_event_iff:
  "own_event event ctx \<longleftrightarrow>
     (let s = (case event_property_as_string event ''sender'' of None \<Rightarrow> [] | Some s \<Rightarrow> s) in s \<noteq> [] \<and> s = receiving_user_id ctx)"
  by (auto simp: own_event_def split: option.splits)

definition effect :: "PushEvaluationResult \<Rightarrow> bool \<times> bool" where
  "effect r = (notify r, tweak_highlight r)"

definition first_match :: "(PushRule \<Rightarrow> bool) \<Rightarrow> PushRule list \<Rightarrow> PushEvaluationResult \<Rightarrow> PushEvaluationResult" where
  "first_match P rules rest = (case find P rules of Some rule \<Rightarrow> make_result rule | None \<Rightarrow> rest)"

lemma first_match_read:
  "effect (first_match (\<lambda>rule. considered (rule_id rule) \<and> rule_enabled rule \<and> rule_conditions_match rule event ctx)
      (read_rule kind i enabled conds actions # rules) rest)
   = (if considered i \<and> enabled \<and> list_all (\<lambda>condition. read_condition condition event ctx) conds
      then (rule_notify (read_rule kind i enabled conds actions), rule_highlight (read_rule kind i enabled conds actions))
      else effect (first_match (\<lambda>rule. considered (rule_id rule) \<and> rule_enabled rule \<and> rule_conditions_match rule event ctx)
        rules rest))"
  by (simp add: first_match_def effect_def make_result_def read_rule_conditions)

lemma effect_no_push: "effect no_push = (False, False)"
  by (simp add: effect_def no_push_def)

lemma first_match_Nil: "first_match P [] rest = rest"
  by (simp add: first_match_def)

lemmas default_conditions = read_event_match_literal read_property_is read_property_contains read_permission
  literal_patterns default_paths scalar_values_equal_iff

lemma default_override_effect:
  "effect (first_match (\<lambda>rule. rule_id rule \<noteq> ''.m.rule.master'' \<and> rule_enabled rule \<and> rule_conditions_match rule event ctx)
      (override_rules (parse_push_ruleset (default_push_ruleset user))) rest)
   = (if field_is event ''content.msgtype'' ''m.notice'' then (False, False)
      else if field_is event ''type'' ''m.room.member'' then (invites_user event user, False)
      else if mentions_user event user \<or> mentions_room event ctx \<or> is_tombstone event then (True, True)
      else if suppressed event then (False, False)
      else effect rest)"
  unfolding default_rules_read default_override_rules_def list.map
  by (simp add: parse_push_rule first_match_read [of "\<lambda>i. i \<noteq> ''.m.rule.master''"] first_match_Nil read_rule_effects default_conditions
      read_event_match [of "''state_key''" user] invites_user_def mentions_user_def mentions_room_def
      is_tombstone_def suppressed_def del: resolve_segments.simps split del: if_split cong: if_cong)
    (auto simp del: resolve_segments.simps)

lemma default_underride_effect:
  "effect (first_match (\<lambda>rule. rule_enabled rule \<and> rule_conditions_match rule event ctx)
      (underride_rules (parse_push_ruleset (default_push_ruleset user))) no_push) = (is_message event, False)"
  unfolding default_rules_read default_underride_rules_def list.map
  by (simp add: parse_push_rule first_match_read [of "\<lambda>i. True", simplified] first_match_Nil read_rule_effects
      default_conditions is_message_def effect_no_push split del: if_split cong: if_cong)
    auto

text \<open>
  C29: under the rules every account starts with, an event notifies exactly when it is not the user's
  own and not a notice and either invites the user or, other membership events apart, mentions the
  user or the room (with the power for it), closes the room, or is a message, a call or encrypted
  and not a reaction, an access list or an edit; it highlights only for mentions and closed rooms.
\<close>
theorem default_rules_decide:
  "effect (evaluate_push_rules (parse_push_ruleset (default_push_ruleset user)) event ctx) = default_decision user event ctx"
proof -
  let ?rules = "parse_push_ruleset (default_push_ruleset user)"
  have "evaluate_push_rules ?rules event ctx =
     (if own_event event ctx then no_push
      else first_match (\<lambda>rule. rule_id rule \<noteq> ''.m.rule.master'' \<and> rule_enabled rule \<and> rule_conditions_match rule event ctx)
        (override_rules ?rules)
        (first_match (\<lambda>rule. rule_enabled rule \<and> rule_conditions_match rule event ctx) (underride_rules ?rules) no_push))"
    unfolding evaluate_push_rules_def evaluate_kinds_def default_rules_read(3-5) default_overrides find.simps option.case
      own_event_iff first_match_def Let_def by simp
  then show ?thesis
    by (simp add: effect_no_push default_override_effect default_underride_effect default_decision_def)
qed

end
