(* ===== verification/Stream_Token.thy ===== *)
theory Stream_Token
  imports Merovingian_Prelude
begin

unbundle bit_operations_syntax

text \<open>
  Sync tokens: \<open>src/sync/stream_token.cpp\<close>. The three positions of a token are 64-bit words, written
  in hexadecimal.

  Shown: decoding inverts encoding, and a decoded position is the number that was written, so that
  no text wraps around to a smaller position.
\<close>

section \<open>Components\<close>

definition hex_digits :: string where
  "hex_digits = ''0123456789abcdef''"

lemma unat_drop_bit_4: "unat (drop_bit 4 w) = unat w div 16"
  by (subst unat_drop_bit_eq) (simp add: drop_bit_eq_div)

lemma unat_positive: "w > 0 \<Longrightarrow> unat w > 0" for w :: "64 word"
  by (simp add: word_less_nat_alt)

function encode_loop :: "64 word \<Rightarrow> string \<Rightarrow> string" where
  "encode_loop remaining result =
     (if remaining > 0 then encode_loop (drop_bit 4 remaining) (result @ [hex_digits ! unat (remaining AND 15)]) else result)"
  by pat_completeness auto

termination
  by (relation "measure (\<lambda>(remaining, result). unat remaining)") (simp_all add: unat_drop_bit_4 unat_positive)

declare encode_loop.simps [simp del]

definition encode_component :: "64 word \<Rightarrow> string" where
  "encode_component v = (if v = 0 then ''0'' else rev (encode_loop v []))"

definition hex_digit_value :: "char \<Rightarrow> nat option" where
  "hex_digit_value c =
     (if 48 \<le> byte c \<and> byte c \<le> 57 then Some (byte c - 48)
      else if 97 \<le> byte c \<and> byte c \<le> 102 then Some (byte c - 97 + 10)
      else if 65 \<le> byte c \<and> byte c \<le> 70 then Some (byte c - 65 + 10)
      else None)"

fun decode_loop :: "64 word \<Rightarrow> string \<Rightarrow> 64 word option" where
  "decode_loop result [] = Some result"
| "decode_loop result (c # rest) =
     (case hex_digit_value c of None \<Rightarrow> None | Some d \<Rightarrow> decode_loop (push_bit 4 result + of_nat d) rest)"

definition decode_component :: "string \<Rightarrow> 64 word option" where
  "decode_component encoded = (if encoded = [] \<or> length encoded > 16 then None else decode_loop 0 encoded)"

section \<open>Tokens\<close>

record StreamToken =
  event_ordering :: "64 word"
  membership_ordering :: "64 word"
  sync_stream_id :: "64 word"

definition encode_stream_token :: "StreamToken \<Rightarrow> string" where
  "encode_stream_token token =
     encode_component (event_ordering token) @ ''_'' @ encode_component (membership_ordering token) @ ''_''
     @ encode_component (sync_stream_id token)"

definition decode_stream_token :: "string \<Rightarrow> StreamToken option" where
  "decode_stream_token encoded =
     (case find_char (CHR ''_'') encoded of
        None \<Rightarrow> None
      | Some first_separator \<Rightarrow>
          (let event_part = take first_separator encoded; remainder = drop (first_separator + 1) encoded;
               second_separator = find_char (CHR ''_'') remainder;
               membership_part = (case second_separator of None \<Rightarrow> remainder | Some i \<Rightarrow> take i remainder);
               sync_part = (case second_separator of None \<Rightarrow> [] | Some i \<Rightarrow> drop (i + 1) remainder)
           in if event_part = [] \<or> membership_part = [] then None
              else case (decode_component event_part, decode_component membership_part) of
                  (Some e, Some m) \<Rightarrow>
                    (if sync_part \<noteq> [] then
                       (case decode_component sync_part of
                          None \<Rightarrow> None
                        | Some s \<Rightarrow> Some \<lparr>event_ordering = e, membership_ordering = m, sync_stream_id = s\<rparr>)
                     else Some \<lparr>event_ordering = e, membership_ordering = m, sync_stream_id = 0\<rparr>)
                | _ \<Rightarrow> None))"

definition is_valid_stream_token :: "string \<Rightarrow> bool" where
  "is_valid_stream_token encoded \<longleftrightarrow> decode_stream_token encoded \<noteq> None"

section \<open>Components are hexadecimal numbers\<close>

definition hex_value :: "string \<Rightarrow> nat" where
  "hex_value s = foldl (\<lambda>n c. 16 * n + the (hex_digit_value c)) 0 s"

definition hex_text :: "string \<Rightarrow> bool" where
  "hex_text s \<longleftrightarrow> s \<noteq> [] \<and> length s \<le> 16 \<and> list_all (\<lambda>c. hex_digit_value c \<noteq> None) s"

lemma hex_digit_value_less: "hex_digit_value c = Some d \<Longrightarrow> d < 16"
  by (auto simp: hex_digit_value_def split: if_splits)

lemma hex_value_snoc: "hex_value (s @ [c]) = 16 * hex_value s + the (hex_digit_value c)"
  by (simp add: hex_value_def)

lemma shift_digit:
  fixes w :: "64 word"
  assumes "unat w < 2 ^ 60" and "d < 16"
  shows "unat (push_bit 4 w + of_nat d) = 16 * unat w + d"
  using assms by (simp add: push_bit_eq_mult unat_word_ariths unat_of_nat)

lemma hex_value_less: "list_all (\<lambda>c. hex_digit_value c \<noteq> None) s \<Longrightarrow> hex_value s < 16 ^ length s"
proof (induction s rule: rev_induct)
  case (snoc c s)
  then obtain d where "hex_digit_value c = Some d" "d < 16" "hex_value s < 16 ^ length s"
    using hex_digit_value_less by auto
  then show ?case by (simp add: hex_value_snoc)
qed (simp add: hex_value_def)

lemma decode_loop_prefix:
  assumes "list_all (\<lambda>c. hex_digit_value c \<noteq> None) (p @ s)" and "length (p @ s) \<le> 16"
    and "unat r = hex_value p"
  shows "\<exists>w. decode_loop r s = Some w \<and> unat w = hex_value (p @ s)"
  using assms
proof (induction s arbitrary: p r)
  case (Cons c s)
  then obtain d where d: "hex_digit_value c = Some d" "d < 16" using hex_digit_value_less by auto
  have "hex_value p < 16 ^ length p" using Cons.prems by (intro hex_value_less) simp
  also have "\<dots> \<le> 16 ^ 15" using Cons.prems(2) by (intro power_increasing) simp_all
  finally have "unat (push_bit 4 r + of_nat d) = hex_value (p @ [c])"
    using shift_digit [of r d] Cons.prems(3) d by (simp add: hex_value_snoc)
  then show ?case using Cons.IH [of "p @ [c]"] Cons.prems d by simp
qed simp

lemma decode_loop_None: "\<not> list_all (\<lambda>c. hex_digit_value c \<noteq> None) s \<Longrightarrow> decode_loop r s = None"
  by (induction s arbitrary: r) (auto split: option.splits)

lemma decode_component_iff:
  "decode_component s = Some w \<longleftrightarrow> hex_text s \<and> unat w = hex_value s"
proof (cases "hex_text s")
  case True
  then obtain v where "decode_loop 0 s = Some v" "unat v = hex_value s"
    using decode_loop_prefix [of "[]" s 0] by (auto simp: hex_text_def hex_value_def)
  then show ?thesis using True by (auto simp: decode_component_def hex_text_def word_unat_eq_iff)
next
  case False
  then show ?thesis using decode_loop_None [of s 0] by (auto simp: decode_component_def hex_text_def)
qed

lemma hex_digits_nth: "n < 16 \<Longrightarrow> hex_digit_value (hex_digits ! n) = Some n"
proof -
  assume "n < 16"
  moreover have "list_all (\<lambda>n. hex_digit_value (hex_digits ! n) = Some n) [0..<16]" by code_simp
  ultimately show ?thesis by (simp add: list_all_iff del: upt_Suc)
qed

lemma encode_loop_append: "encode_loop v (a @ b) = a @ encode_loop v b"
proof (induction v b rule: encode_loop.induct)
  case (1 v b)
  then show ?case by (cases "v > 0") (simp_all add: encode_loop.simps [of v])
qed

lemma encode_loop_step:
  assumes "v > 0"
  shows "rev (encode_loop v []) = rev (encode_loop (drop_bit 4 v) []) @ [hex_digits ! (unat v mod 16)]"
proof -
  have "unat (v AND 15) = unat v mod 16"
    using take_bit_eq_mask [of 4 v] unsigned_take_bit_eq [of 4 v, where ?'a = nat]
    by (simp add: mask_eq_exp_minus_1 take_bit_eq_mod)
  then show ?thesis
    using assms encode_loop_append [of "drop_bit 4 v" "[hex_digits ! (unat v mod 16)]" "[]"]
    by (simp add: encode_loop.simps [of v])
qed

lemma encode_loop_hex:
  assumes "unat v < 16 ^ k"
  shows "list_all (\<lambda>c. hex_digit_value c \<noteq> None) (rev (encode_loop v [])) \<and> hex_value (rev (encode_loop v [])) = unat v
    \<and> length (encode_loop v []) \<le> k"
  using assms
proof (induction k arbitrary: v)
  case 0
  then have "v = 0" by (simp add: word_unat_eq_iff)
  then show ?case by (simp add: encode_loop.simps hex_value_def)
next
  case (Suc k)
  show ?case
  proof (cases "v = 0")
    case True
    then show ?thesis by (simp add: encode_loop.simps hex_value_def)
  next
    case False
    then have pos: "v > 0" by (simp add: word_neq_0_conv)
    have "unat (drop_bit 4 v) < 16 ^ k" using Suc.prems by (simp add: unat_drop_bit_4 less_mult_imp_div_less)
    note IH = Suc.IH [OF this]
    have "length (encode_loop v []) = Suc (length (encode_loop (drop_bit 4 v) []))"
      using arg_cong [OF encode_loop_step [OF pos], of length] by simp
    then show ?thesis
      using IH encode_loop_step [OF pos] hex_digits_nth [of "unat v mod 16"]
      by (simp add: hex_value_snoc unat_drop_bit_4)
  qed
qed

lemma encode_component_hex: "hex_text (encode_component v) \<and> hex_value (encode_component v) = unat v"
proof (cases "v = 0")
  case True
  moreover have "hex_text ''0''" "hex_value ''0'' = 0" by code_simp+
  ultimately show ?thesis by (simp add: encode_component_def)
next
  case False
  then have "encode_loop v [] \<noteq> []"
    using encode_loop_step [of v] by (metis Nil_is_append_conv list.distinct(1) rev_is_Nil_conv word_neq_0_conv)
  moreover have "unat v < 16 ^ 16" using unsigned_less [where ?'a = nat, of v] by simp
  ultimately show ?thesis using False encode_loop_hex [of v 16] by (simp add: encode_component_def hex_text_def)
qed

section \<open>Round trip and exactness\<close>

lemma decode_encode_component: "decode_component (encode_component v) = Some v"
  by (simp add: decode_component_iff encode_component_hex)

lemma hex_text_no_separator: "hex_text s \<Longrightarrow> CHR ''_'' \<notin> set s"
  by (auto simp: hex_text_def list_all_iff hex_digit_value_def)

definition token_of_parts :: "string \<Rightarrow> string \<Rightarrow> string \<Rightarrow> StreamToken option" where
  "token_of_parts a b c =
     (case (decode_component a, decode_component b) of
        (Some e, Some m) \<Rightarrow>
          (if c \<noteq> [] then
             (case decode_component c of
                None \<Rightarrow> None
              | Some s \<Rightarrow> Some \<lparr>event_ordering = e, membership_ordering = m, sync_stream_id = s\<rparr>)
           else Some \<lparr>event_ordering = e, membership_ordering = m, sync_stream_id = 0\<rparr>)
      | _ \<Rightarrow> None)"

lemma decode_parts:
  assumes "CHR ''_'' \<notin> set a" and "CHR ''_'' \<notin> set b"
  shows "decode_stream_token (a @ CHR ''_'' # b) = token_of_parts a b []"
    and "decode_stream_token (a @ CHR ''_'' # b @ CHR ''_'' # c) = token_of_parts a b c"
  using assms
  by (auto simp: decode_stream_token_def token_of_parts_def find_char_at find_char_missing [THEN iffD2] decode_component_def
      Let_def split: option.splits)

lemma token_of_parts_iff:
  "token_of_parts a b c = Some token \<longleftrightarrow>
     hex_text a \<and> hex_text b \<and> (c = [] \<or> hex_text c) \<and> unat (event_ordering token) = hex_value a
     \<and> unat (membership_ordering token) = hex_value b \<and> unat (sync_stream_id token) = hex_value c"
proof -
  have Some_iff: "token_of_parts a b c = Some token \<longleftrightarrow>
      decode_component a = Some (event_ordering token) \<and> decode_component b = Some (membership_ordering token)
      \<and> (if c = [] then sync_stream_id token = 0 else decode_component c = Some (sync_stream_id token))"
    by (cases token) (auto simp: token_of_parts_def split: option.splits)
  show ?thesis
    unfolding Some_iff decode_component_iff by (auto simp: hex_value_def hex_text_def word_unat_eq_iff)
qed

text \<open>What a client may send: two or three hexadecimal numbers, the last one possibly empty.\<close>

definition token_text :: "string \<Rightarrow> string \<Rightarrow> string \<Rightarrow> string \<Rightarrow> bool" where
  "token_text s a b c \<longleftrightarrow>
     hex_text a \<and> hex_text b
     \<and> (s = a @ ''_'' @ b \<and> c = [] \<or> s = a @ ''_'' @ b @ ''_'' @ c \<and> (c = [] \<or> hex_text c))"

text \<open>
  C35: a text decodes to a token exactly when it consists of two hexadecimal numbers of at most
  sixteen digits and an optional third, and the positions are the numbers written, so none of them
  has wrapped around.
\<close>
theorem decode_stream_token_iff:
  "decode_stream_token s = Some token \<longleftrightarrow>
     (\<exists>a b c. token_text s a b c \<and> unat (event_ordering token) = hex_value a
        \<and> unat (membership_ordering token) = hex_value b \<and> unat (sync_stream_id token) = hex_value c)"
proof
  assume decoded: "decode_stream_token s = Some token"
  then obtain i where i: "find_char (CHR ''_'') s = Some i" by (auto simp: decode_stream_token_def split: option.splits)
  define a r where "a = take i s" and "r = drop (Suc i) s"
  have s: "s = a @ CHR ''_'' # r" and a: "CHR ''_'' \<notin> set a" using find_char_split [OF i] by (simp_all add: a_def r_def)
  show "\<exists>a b c. token_text s a b c \<and> unat (event_ordering token) = hex_value a
        \<and> unat (membership_ordering token) = hex_value b \<and> unat (sync_stream_id token) = hex_value c"
  proof (cases "find_char (CHR ''_'') r")
    case None
    then have "token_of_parts a r [] = Some token"
      using decoded decode_parts(1) [OF a] by (simp add: s find_char_missing)
    then show ?thesis unfolding token_of_parts_iff using s by (auto simp: token_text_def)
  next
    case (Some j)
    then have r: "r = take j r @ CHR ''_'' # drop (Suc j) r" and b: "CHR ''_'' \<notin> set (take j r)"
      using find_char_split by blast+
    then have "token_of_parts a (take j r) (drop (Suc j) r) = Some token"
      using decoded decode_parts(2) [OF a b] s by metis
    then show ?thesis unfolding token_of_parts_iff using s r by (force simp: token_text_def)
  qed
next
  assume "\<exists>a b c. token_text s a b c \<and> unat (event_ordering token) = hex_value a
        \<and> unat (membership_ordering token) = hex_value b \<and> unat (sync_stream_id token) = hex_value c"
  then obtain a b c where form: "token_text s a b c" and vals: "unat (event_ordering token) = hex_value a"
    "unat (membership_ordering token) = hex_value b" "unat (sync_stream_id token) = hex_value c" by blast
  then have "token_of_parts a b c = Some token" unfolding token_of_parts_iff by (auto simp: token_text_def)
  moreover have "CHR ''_'' \<notin> set a" "CHR ''_'' \<notin> set b" using form by (auto simp: token_text_def dest: hex_text_no_separator)
  ultimately show "decode_stream_token s = Some token" using decode_parts [of a b] form by (auto simp: token_text_def)
qed

text \<open>Decoding gives back the token that was encoded.\<close>
theorem decode_encode_stream_token:
  "decode_stream_token (encode_stream_token token) = Some token"
proof -
  have sep: "CHR ''_'' \<notin> set (encode_component v)" for v
    using hex_text_no_separator encode_component_hex by blast
  have "token_of_parts (encode_component (event_ordering token)) (encode_component (membership_ordering token))
      (encode_component (sync_stream_id token)) = Some token"
    by (simp add: token_of_parts_iff encode_component_hex)
  then show ?thesis using decode_parts(2) [OF sep sep] by (simp add: encode_stream_token_def)
qed

end
