(* ===== verification/Query_Params.thy ===== *)
theory Query_Params
  imports Text_Search
begin

text \<open>
  Percent encoding and the parameters of a sync request: \<open>src/core/query_params.cpp\<close>.

  Shown: decoding inverts encoding and never reads past a malformed escape, an encoded component
  cannot leave its place in a path, and the parameters written into a target are read back, the
  timeout without wrapping.
\<close>

section \<open>Percent encoding\<close>

definition from_hex :: "char \<Rightarrow> nat option" where
  "from_hex c =
     (if 48 \<le> byte c \<and> byte c \<le> 57 then Some (byte c - 48)
      else if 97 \<le> byte c \<and> byte c \<le> 102 then Some (byte c - 97 + 10)
      else if 65 \<le> byte c \<and> byte c \<le> 70 then Some (byte c - 65 + 10)
      else None)"

definition is_unreserved_path_byte :: "char \<Rightarrow> bool" where
  "is_unreserved_path_byte c \<longleftrightarrow>
     65 \<le> byte c \<and> byte c \<le> 90 \<or> 97 \<le> byte c \<and> byte c \<le> 122 \<or> 48 \<le> byte c \<and> byte c \<le> 57
     \<or> c = CHR ''-'' \<or> c = CHR ''.'' \<or> c = CHR ''_'' \<or> c = CHR ''~''"

definition upper_hex_digit :: "nat \<Rightarrow> char" where
  "upper_hex_digit nibble = (if nibble < 10 then char_of (48 + nibble) else char_of (65 + (nibble - 10)))"

text \<open>The two digits after a percent sign, where there are two and both are hexadecimal.\<close>

definition escaped_byte :: "string \<Rightarrow> nat option" where
  "escaped_byte rest =
     (if 2 \<le> length rest
      then (case (from_hex (rest ! 0), from_hex (rest ! 1)) of (Some high, Some low) \<Rightarrow> Some (16 * high + low) | _ \<Rightarrow> None)
      else None)"

function percent_decode :: "string \<Rightarrow> string" where
  "percent_decode [] = []"
| "percent_decode (c # rest) =
     (if c = CHR ''%'' then
        (case escaped_byte rest of Some b \<Rightarrow> char_of b # percent_decode (drop 2 rest) | None \<Rightarrow> c # percent_decode rest)
      else if c = CHR ''+'' then CHR '' '' # percent_decode rest
      else c # percent_decode rest)"
  by pat_completeness auto

termination
  by (relation "measure length") auto

function percent_decode_path_component :: "string \<Rightarrow> string" where
  "percent_decode_path_component [] = []"
| "percent_decode_path_component (c # rest) =
     (if c = CHR ''%'' then
        (case escaped_byte rest of
           Some b \<Rightarrow> char_of b # percent_decode_path_component (drop 2 rest)
         | None \<Rightarrow> c # percent_decode_path_component rest)
      else c # percent_decode_path_component rest)"
  by pat_completeness auto

termination
  by (relation "measure length") auto

definition encode_path_byte :: "char \<Rightarrow> string" where
  "encode_path_byte c =
     (if is_unreserved_path_byte c then [c]
      else [CHR ''%'', upper_hex_digit (byte c div 16), upper_hex_digit (byte c mod 16)])"

definition percent_encode_path_component :: "string \<Rightarrow> string" where
  "percent_encode_path_component decoded = concat (map encode_path_byte decoded)"

section \<open>Parameters of a sync request\<close>

record SyncRequest =
  since :: "string option"
  timeout :: "nat option"
  full_state :: "bool option"
  filter_param :: "string option"

definition empty_sync_request :: SyncRequest where
  "empty_sync_request = \<lparr>since = None, timeout = None, full_state = None, filter_param = None\<rparr>"

definition apply_param :: "SyncRequest \<Rightarrow> string \<Rightarrow> SyncRequest" where
  "apply_param request param =
     (case find_char (CHR ''='') param of
        None \<Rightarrow> request
      | Some eq_pos \<Rightarrow>
          (let key = take eq_pos param; value = percent_decode (drop (eq_pos + 1) param)
           in if key = ''since'' then request\<lparr>since := Some value\<rparr>
              else if key = ''timeout'' then
                (case accumulate_u64 0 value of
                   None \<Rightarrow> request
                 | Some result \<Rightarrow> if value \<noteq> [] then request\<lparr>timeout := Some result\<rparr> else request)
              else if key = ''full_state'' then request\<lparr>full_state := Some (value = ''true'')\<rparr>
              else if key = ''filter'' then request\<lparr>filter_param := Some value\<rparr>
              else request))"

function parse_params :: "SyncRequest \<Rightarrow> string \<Rightarrow> SyncRequest" where
  "parse_params request query =
     (if query = [] then request
      else case find_char (CHR ''&'') query of
          None \<Rightarrow> apply_param request query
        | Some amp_pos \<Rightarrow> parse_params (apply_param request (take amp_pos query)) (drop (amp_pos + 1) query))"
  by pat_completeness auto

termination
  by (relation "measure (\<lambda>(request, query). length query)") auto

declare parse_params.simps [simp del]

definition parse_query_params :: "string \<Rightarrow> SyncRequest" where
  "parse_query_params target =
     (case find_char (CHR ''?'') target of
        None \<Rightarrow> empty_sync_request
      | Some query_start \<Rightarrow> parse_params empty_sync_request (drop (query_start + 1) target))"

section \<open>Encoded components\<close>

lemma from_hex_upper: "n < 16 \<Longrightarrow> from_hex (upper_hex_digit n) = Some n"
  by (auto simp: from_hex_def upper_hex_digit_def)

lemma escaped_encode: "escaped_byte (upper_hex_digit (byte c div 16) # upper_hex_digit (byte c mod 16) # rest) = Some (byte c)"
  by (simp add: escaped_byte_def from_hex_upper less_mult_imp_div_less)

lemma unreserved_plain: "is_unreserved_path_byte c \<Longrightarrow> c \<noteq> CHR ''%'' \<and> c \<noteq> CHR ''+''"
  by (auto simp: is_unreserved_path_byte_def)

lemma decode_encoded:
  "percent_decode (percent_encode_path_component s @ rest) = s @ percent_decode rest"
  "percent_decode_path_component (percent_encode_path_component s @ rest) = s @ percent_decode_path_component rest"
  by (induction s)
    (auto simp: percent_encode_path_component_def encode_path_byte_def escaped_encode dest: unreserved_plain)

lemma encoded_chars:
  "list_all (\<lambda>c. is_unreserved_path_byte c \<or> c = CHR ''%'') (percent_encode_path_component s)"
proof -
  have "is_unreserved_path_byte (upper_hex_digit n)" if "n < 16" for n
    using that by (auto simp: is_unreserved_path_byte_def upper_hex_digit_def)
  then show ?thesis
    by (induction s) (auto simp: percent_encode_path_component_def encode_path_byte_def less_mult_imp_div_less)
qed

text \<open>
  Decoding a percent-encoded text gives the text back, in a path as in a query, and the encoded
  text consists of unreserved characters and percent signs only, so that it cannot add a segment, a
  query or a dot-free separator to the target it is put into.
\<close>
theorem percent_encoding_round_trip:
  "percent_decode_path_component (percent_encode_path_component s) = s
   \<and> percent_decode (percent_encode_path_component s) = s
   \<and> list_all (\<lambda>c. is_unreserved_path_byte c \<or> c = CHR ''%'') (percent_encode_path_component s)"
  using decode_encoded [of s "[]"] encoded_chars [of s] by simp

section \<open>Parameters\<close>

text \<open>A client that writes its parameters into a target.\<close>

fun join_params :: "string list \<Rightarrow> string" where
  "join_params [] = []"
| "join_params [p] = p"
| "join_params (p # q # ps) = p @ CHR ''&'' # join_params (q # ps)"

definition param_text :: "string \<Rightarrow> string \<Rightarrow> string" where
  "param_text key v = key @ CHR ''='' # v"

definition sync_params :: "SyncRequest \<Rightarrow> string list" where
  "sync_params request =
     (case since request of None \<Rightarrow> [] | Some s \<Rightarrow> [param_text ''since'' (percent_encode_path_component s)])
     @ (case timeout request of None \<Rightarrow> [] | Some t \<Rightarrow> [param_text ''timeout'' (nat_to_string t)])
     @ (case full_state request of None \<Rightarrow> [] | Some b \<Rightarrow> [param_text ''full_state'' (if b then ''true'' else ''false'')])
     @ (case filter_param request of None \<Rightarrow> [] | Some f \<Rightarrow> [param_text ''filter'' (percent_encode_path_component f)])"

definition sync_target :: "string \<Rightarrow> SyncRequest \<Rightarrow> string" where
  "sync_target path request = path @ CHR ''?'' # join_params (sync_params request)"

lemma parse_params_join:
  assumes "list_all (\<lambda>p. p \<noteq> [] \<and> CHR ''&'' \<notin> set p) ps"
  shows "parse_params request (join_params ps) = foldl apply_param request ps"
  using assms
proof (induction ps arbitrary: request rule: join_params.induct)
  case (1 request)
  then show ?case by (simp add: parse_params.simps)
next
  case (2 p request)
  then show ?case by (simp add: parse_params.simps [of request p] find_char_missing [THEN iffD2])
next
  case (3 p q ps request)
  then show ?case by (subst parse_params.simps) (simp add: find_char_at)
qed

lemma percent_decode_plain: "CHR ''%'' \<notin> set s \<Longrightarrow> CHR ''+'' \<notin> set s \<Longrightarrow> percent_decode s = s"
  by (induction s) auto

lemma apply_params:
  "apply_param request (param_text ''since'' (percent_encode_path_component s)) = request\<lparr>since := Some s\<rparr>"
  "t < 2 ^ 64 \<Longrightarrow> apply_param request (param_text ''timeout'' (nat_to_string t)) = request\<lparr>timeout := Some t\<rparr>"
  "apply_param request (param_text ''full_state'' (if b then ''true'' else ''false'')) = request\<lparr>full_state := Some b\<rparr>"
  "apply_param request (param_text ''filter'' (percent_encode_path_component s)) = request\<lparr>filter_param := Some s\<rparr>"
proof -
  have decoded: "percent_decode (percent_encode_path_component s) = s" using decode_encoded [of s "[]"] by simp
  show "apply_param request (param_text ''since'' (percent_encode_path_component s)) = request\<lparr>since := Some s\<rparr>"
    "apply_param request (param_text ''filter'' (percent_encode_path_component s)) = request\<lparr>filter_param := Some s\<rparr>"
    by (simp_all add: apply_param_def param_text_def decoded)
  show "apply_param request (param_text ''full_state'' (if b then ''true'' else ''false'')) = request\<lparr>full_state := Some b\<rparr>"
    by (simp add: apply_param_def param_text_def)
  assume "t < 2 ^ 64"
  then have "accumulate_u64 0 (nat_to_string t) = Some t"
    using accumulate_u64_digits [of "[]" "nat_to_string t"] nat_to_string_digits [of t] by (simp add: list_all_iff)
  moreover have "percent_decode (nat_to_string t) = nat_to_string t"
    using nat_to_string_digits [of t] by (intro percent_decode_plain) (auto simp: list_all_iff is_digit_def)
  ultimately show "apply_param request (param_text ''timeout'' (nat_to_string t)) = request\<lparr>timeout := Some t\<rparr>"
    by (simp add: apply_param_def param_text_def)
qed

text \<open>
  The parameters a client writes into a target are the ones the server reads, whatever text the
  token and the filter hold, and a timeout is read as the number written.
\<close>
theorem parse_query_params_round_trip:
  assumes "CHR ''?'' \<notin> set path" and "case timeout request of None \<Rightarrow> True | Some t \<Rightarrow> t < 2 ^ 64"
  shows "parse_query_params (sync_target path request) = request"
proof -
  have amp: "CHR ''&'' \<notin> set (percent_encode_path_component s)" for s
    using encoded_chars [of s] by (auto simp: list_all_iff is_unreserved_path_byte_def)
  have "CHR ''&'' \<notin> set (nat_to_string t)" for t
    using nat_to_string_digits [of t] by (auto simp: list_all_iff is_digit_def)
  then have "list_all (\<lambda>p. p \<noteq> [] \<and> CHR ''&'' \<notin> set p) (sync_params request)"
    using amp by (auto simp: sync_params_def param_text_def split: option.splits)
  then have "parse_query_params (sync_target path request) = foldl apply_param empty_sync_request (sync_params request)"
    using parse_params_join find_char_at [OF assms(1)] by (simp add: parse_query_params_def sync_target_def)
  also have "\<dots> = request"
    using assms(2) by (cases request) (auto simp: sync_params_def empty_sync_request_def apply_params split: option.splits)
  finally show ?thesis .
qed

theorem parse_query_params_round_trip_witness:
  "parse_query_params (sync_target ''/_matrix/client/v3/sync''
     \<lparr>since = Some ''a&b=c'', timeout = Some 30000, full_state = Some True, filter_param = None\<rparr>)
   = \<lparr>since = Some ''a&b=c'', timeout = Some 30000, full_state = Some True, filter_param = None\<rparr>"
  by (rule parse_query_params_round_trip) simp_all

end
