(* ===== verification/Http_Request.thy ===== *)
theory Http_Request
  imports Text_Search Glob
begin

text \<open>
  Reading the head of an HTTP request: \<open>src/http/request.cpp\<close> and \<open>src/http/request_limits.cpp\<close>. The
  result is the head or the error; the half-filled head that the code returns beside an error is not
  used by its callers.

  Shown: an accepted head leaves no doubt where the request ends (no transfer coding, all length
  headers equal, no control characters), and the head of a well-formed request is read back whatever
  follows it.
\<close>

section \<open>Limits and tokens\<close>

record RequestLimits =
  max_start_line_bytes :: nat
  max_header_bytes :: nat
  max_header_count :: nat
  max_body_bytes :: nat

definition default_request_limits :: RequestLimits where
  "default_request_limits =
     \<lparr>max_start_line_bytes = 8192, max_header_bytes = 32768, max_header_count = 100, max_body_bytes = 1048576\<rparr>"

definition validate_request_limits :: "RequestLimits \<Rightarrow> (string \<times> string) list" where
  "validate_request_limits limits =
     (if max_start_line_bytes limits = 0 \<or> max_start_line_bytes limits > 8192
      then [(''http.max_start_line_bytes'', ''start line limit must be between 1 and 8192 bytes'')] else [])
     @ (if max_header_bytes limits = 0 \<or> max_header_bytes limits > 65536
        then [(''http.max_header_bytes'', ''header byte limit must be between 1 and 65536 bytes'')] else [])
     @ (if max_header_count limits = 0 \<or> max_header_count limits > 200
        then [(''http.max_header_count'', ''header count limit must be between 1 and 200'')] else [])
     @ (if max_body_bytes limits > 67108864
        then [(''http.max_body_bytes'', ''body byte limit must not exceed 64MiB'')] else [])"

definition request_limits_are_valid :: "RequestLimits \<Rightarrow> bool" where
  "request_limits_are_valid limits \<longleftrightarrow> validate_request_limits limits = []"

definition token_symbol :: "char \<Rightarrow> bool" where
  "token_symbol c \<longleftrightarrow> c \<in> set ''!#$%&*+-.^_`|~'' \<or> byte c = 39"

text \<open>The token characters of a method (no lower case letters) and of a header name.\<close>

definition is_method_tchar :: "char \<Rightarrow> bool" where
  "is_method_tchar c \<longleftrightarrow> 65 \<le> byte c \<and> byte c \<le> 90 \<or> 48 \<le> byte c \<and> byte c \<le> 57 \<or> token_symbol c"

definition is_tchar :: "char \<Rightarrow> bool" where
  "is_tchar c \<longleftrightarrow>
     65 \<le> byte c \<and> byte c \<le> 90 \<or> 97 \<le> byte c \<and> byte c \<le> 122 \<or> 48 \<le> byte c \<and> byte c \<le> 57 \<or> token_symbol c"

definition contains_control_or_space :: "string \<Rightarrow> bool" where
  "contains_control_or_space value \<longleftrightarrow> list_ex (\<lambda>c. byte c \<le> 32 \<or> byte c = 127) value"

definition method_token_is_valid :: "string \<Rightarrow> bool" where
  "method_token_is_valid method \<longleftrightarrow> method \<noteq> [] \<and> list_all is_method_tchar method"

definition request_target_is_valid :: "string \<Rightarrow> bool" where
  "request_target_is_valid target \<longleftrightarrow> target \<noteq> [] \<and> \<not> contains_control_or_space target"

definition request_line_is_within_limit :: "string \<Rightarrow> string \<Rightarrow> RequestLimits \<Rightarrow> bool" where
  "request_line_is_within_limit method target limits =
     (if \<not> method_token_is_valid method \<or> \<not> request_target_is_valid target then False
      else length method + 1 + length target + 1 + length ''HTTP/1.1'' \<le> max_start_line_bytes limits)"

definition request_limits_summary :: "RequestLimits \<Rightarrow> string" where
  "request_limits_summary limits =
     ''HTTP request limits: max_start_line_bytes='' @ nat_to_string (max_start_line_bytes limits)
     @ '' max_header_bytes='' @ nat_to_string (max_header_bytes limits)
     @ '' max_header_count='' @ nat_to_string (max_header_count limits)
     @ '' max_body_bytes='' @ nat_to_string (max_body_bytes limits)"

section \<open>Headers\<close>

datatype RequestErrorCode =
    malformed_request_line | invalid_method | invalid_target | start_line_too_large | headers_too_large
  | too_many_headers | duplicate_content_length | invalid_content_length | body_too_large
  | unsupported_transfer_encoding

fun request_error_name :: "RequestErrorCode option \<Rightarrow> string" where
  "request_error_name None = ''none''"
| "request_error_name (Some malformed_request_line) = ''malformed_request_line''"
| "request_error_name (Some invalid_method) = ''invalid_method''"
| "request_error_name (Some invalid_target) = ''invalid_target''"
| "request_error_name (Some start_line_too_large) = ''start_line_too_large''"
| "request_error_name (Some headers_too_large) = ''headers_too_large''"
| "request_error_name (Some too_many_headers) = ''too_many_headers''"
| "request_error_name (Some duplicate_content_length) = ''duplicate_content_length''"
| "request_error_name (Some invalid_content_length) = ''invalid_content_length''"
| "request_error_name (Some body_too_large) = ''body_too_large''"
| "request_error_name (Some unsupported_transfer_encoding) = ''unsupported_transfer_encoding''"

definition request_error_status :: "RequestErrorCode option \<Rightarrow> nat" where
  "request_error_status code =
     (case code of
        None \<Rightarrow> 200
      | Some c \<Rightarrow>
          if c \<in> {headers_too_large, too_many_headers, start_line_too_large, body_too_large} then 413
          else if c = unsupported_transfer_encoding then 501 else 400)"

record Header =
  header_name :: string
  header_value :: string

datatype HttpVersion = http_1_0 | http_1_1

record RequestHead =
  rh_method :: string
  rh_target :: string
  rh_headers :: "Header list"
  rh_content_length :: nat
  has_content_length :: bool
  rh_version :: HttpVersion

definition is_optional_whitespace :: "char \<Rightarrow> bool" where
  "is_optional_whitespace c \<longleftrightarrow> c = CHR '' '' \<or> c = CHR 0x09"

definition trim_optional_whitespace :: "string \<Rightarrow> string" where
  "trim_optional_whitespace value =
     rev (dropWhile is_optional_whitespace (rev (dropWhile is_optional_whitespace value)))"

definition equals_ascii_case_insensitive :: "string \<Rightarrow> string \<Rightarrow> bool" where
  "equals_ascii_case_insensitive lhs rhs \<longleftrightarrow> length lhs = length rhs \<and> list_all2 (\<lambda>a b. to_lower_ascii a = to_lower_ascii b) lhs rhs"

definition parse_u64_decimal :: "string \<Rightarrow> nat option" where
  "parse_u64_decimal value = (if value = [] then None else accumulate_u64 0 value)"

definition header_name_is_valid :: "string \<Rightarrow> bool" where
  "header_name_is_valid name \<longleftrightarrow> name \<noteq> [] \<and> list_all is_tchar name"

definition header_value_is_valid :: "string \<Rightarrow> bool" where
  "header_value_is_valid value \<longleftrightarrow> list_all (\<lambda>c. \<not> (byte c < 32 \<and> c \<noteq> CHR 0x09) \<and> byte c \<noteq> 127) value"

definition append_header :: "RequestHead \<Rightarrow> Header \<Rightarrow> RequestErrorCode + RequestHead" where
  "append_header request header =
     (if equals_ascii_case_insensitive (header_name header) ''content-length'' then
        (case parse_u64_decimal (trim_optional_whitespace (header_value header)) of
           None \<Rightarrow> Inl invalid_content_length
         | Some parsed \<Rightarrow>
             if has_content_length request \<and> rh_content_length request \<noteq> parsed then Inl duplicate_content_length
             else Inr (request\<lparr>has_content_length := True, rh_content_length := parsed,
                         rh_headers := rh_headers request @ [header]\<rparr>))
      else if equals_ascii_case_insensitive (header_name header) ''transfer-encoding'' then
        Inl unsupported_transfer_encoding
      else Inr (request\<lparr>rh_headers := rh_headers request @ [header]\<rparr>))"

definition crlf :: string where
  "crlf = [CHR 0x0D, CHR 0x0A]"

function parse_header_lines :: "nat \<Rightarrow> RequestHead \<Rightarrow> string \<Rightarrow> RequestErrorCode + RequestHead" where
  "parse_header_lines total_header_bytes request remaining =
     (case find_text remaining crlf 0 of
        None \<Rightarrow> Inl malformed_request_line
      | Some line_end \<Rightarrow>
          if line_end = 0 then Inr request
          else if total_header_bytes + line_end + 2 > max_header_bytes default_request_limits then Inl headers_too_large
          else if length (rh_headers request) \<ge> max_header_count default_request_limits then Inl too_many_headers
          else
            (let line = take line_end remaining
             in case find_char (CHR '':'') line of
                  None \<Rightarrow> Inl malformed_request_line
                | Some separator \<Rightarrow>
                    (let name = take separator line; value = trim_optional_whitespace (drop (separator + 1) line)
                     in if \<not> header_name_is_valid name \<or> \<not> header_value_is_valid value then Inl malformed_request_line
                        else case append_header request \<lparr>header_name = name, header_value = value\<rparr> of
                            Inl error \<Rightarrow> Inl error
                          | Inr request' \<Rightarrow>
                              parse_header_lines (total_header_bytes + line_end + 2) request' (drop (line_end + 2) remaining))))"
  by pat_completeness auto

termination
  by (relation "measure (\<lambda>(total, request, remaining). length remaining)")
    (auto simp: find_text_Some occurs_at_def crlf_def)

declare parse_header_lines.simps [simp del]

definition parse_http_version :: "string \<Rightarrow> HttpVersion option" where
  "parse_http_version version =
     (if version = ''HTTP/1.1'' then Some http_1_1 else if version = ''HTTP/1.0'' then Some http_1_0 else None)"

definition parse_request_head :: "string \<Rightarrow> RequestErrorCode + RequestHead" where
  "parse_request_head input =
     (case find_text input crlf 0 of
        None \<Rightarrow> Inl malformed_request_line
      | Some request_line_end \<Rightarrow>
          if request_line_end > max_start_line_bytes default_request_limits then Inl start_line_too_large
          else
            (let request_line = take request_line_end input
             in case find_char (CHR '' '') request_line of
                  None \<Rightarrow> Inl malformed_request_line
                | Some first_space \<Rightarrow>
                    (let after = drop (first_space + 1) request_line
                     in case find_char (CHR '' '') after of
                          None \<Rightarrow> Inl malformed_request_line
                        | Some gap \<Rightarrow>
                            if first_space + 1 + gap + 1 \<ge> length request_line then Inl malformed_request_line
                            else
                              (let method = take first_space request_line; target = take gap after;
                                   version = drop (gap + 1) after
                               in case parse_http_version version of
                                    None \<Rightarrow> Inl malformed_request_line
                                  | Some v \<Rightarrow>
                                      if \<not> method_token_is_valid method then Inl invalid_method
                                      else if \<not> request_target_is_valid target then Inl invalid_target
                                      else parse_header_lines 0
                                             \<lparr>rh_method = method, rh_target = target, rh_headers = [],
                                              rh_content_length = 0, has_content_length = False, rh_version = v\<rparr>
                                             (drop (request_line_end + 2) input)))))"

section \<open>Well-formed heads\<close>

definition length_header :: "Header \<Rightarrow> bool" where
  "length_header h \<longleftrightarrow> equals_ascii_case_insensitive (header_name h) ''content-length''"

text \<open>The length of the body is the same for every header that states one.\<close>

definition framed :: "RequestHead \<Rightarrow> bool" where
  "framed head \<longleftrightarrow>
     has_content_length head = list_ex length_header (rh_headers head)
     \<and> list_all (\<lambda>h. length_header h \<longrightarrow> parse_u64_decimal (header_value h) = Some (rh_content_length head)) (rh_headers head)
     \<and> (has_content_length head \<or> rh_content_length head = 0)"

definition well_formed_header :: "Header \<Rightarrow> bool" where
  "well_formed_header h \<longleftrightarrow>
     header_name_is_valid (header_name h) \<and> header_value_is_valid (header_value h)
     \<and> trim_optional_whitespace (header_value h) = header_value h
     \<and> \<not> equals_ascii_case_insensitive (header_name h) ''transfer-encoding''"

definition well_formed_head :: "RequestHead \<Rightarrow> bool" where
  "well_formed_head head \<longleftrightarrow>
     method_token_is_valid (rh_method head) \<and> request_target_is_valid (rh_target head)
     \<and> list_all well_formed_header (rh_headers head) \<and> length (rh_headers head) \<le> 100 \<and> framed head"

lemma dropWhile_last: "xs \<noteq> [] \<Longrightarrow> \<not> P (last xs) \<Longrightarrow> dropWhile P xs \<noteq> [] \<and> last (dropWhile P xs) = last xs"
  by (induction xs) auto

lemma dropWhile_rev_hd:
  "\<not> P (hd ys) \<or> ys = [] \<Longrightarrow> dropWhile P (rev (dropWhile P (rev ys))) = rev (dropWhile P (rev ys))"
proof (cases "dropWhile P (rev ys) = []")
  case False
  assume "\<not> P (hd ys) \<or> ys = []"
  with False have ne: "rev ys \<noteq> []" and hd: "\<not> P (last (rev ys))" by (auto simp: last_rev)
  then have "last (dropWhile P (rev ys)) = last (rev ys)" using dropWhile_last by blast
  then show ?thesis using False hd by (simp add: dropWhile_eq_self_iff hd_rev)
next
  case True
  show ?thesis unfolding True by simp
qed

lemma trim_idem [simp]: "trim_optional_whitespace (trim_optional_whitespace v) = trim_optional_whitespace v"
proof -
  let ?ys = "dropWhile is_optional_whitespace v"
  have "\<not> is_optional_whitespace (hd ?ys) \<or> ?ys = []" using hd_dropWhile by blast
  then have "dropWhile is_optional_whitespace (trim_optional_whitespace v) = trim_optional_whitespace v"
    unfolding trim_optional_whitespace_def by (rule dropWhile_rev_hd)
  then show ?thesis by (simp add: trim_optional_whitespace_def dropWhile_idem)
qed

lemma append_header_well_formed:
  assumes "well_formed_head request" and "append_header request h = Inr request'"
    and "header_name_is_valid (header_name h)" "header_value_is_valid (header_value h)"
    and "trim_optional_whitespace (header_value h) = header_value h" and "length (rh_headers request) < 100"
  shows "well_formed_head request'"
proof (cases "length_header h")
  case True
  then obtain parsed where parsed: "parse_u64_decimal (header_value h) = Some parsed"
    and same: "\<not> (has_content_length request \<and> rh_content_length request \<noteq> parsed)"
    and request': "request' = request\<lparr>has_content_length := True, rh_content_length := parsed,
        rh_headers := rh_headers request @ [h]\<rparr>"
    using assms(2,5) by (auto simp: append_header_def length_header_def split: if_splits option.splits)
  have "list_all (\<lambda>h. length_header h \<longrightarrow> parse_u64_decimal (header_value h) = Some parsed) (rh_headers request)"
  proof (cases "has_content_length request")
    case True
    then show ?thesis using same assms(1) by (simp add: well_formed_head_def framed_def)
  next
    case False
    then show ?thesis using assms(1) by (auto simp: well_formed_head_def framed_def list_ex_iff list_all_iff)
  qed
  moreover have "\<not> equals_ascii_case_insensitive (header_name h) ''transfer-encoding''"
    using True by (auto simp: length_header_def equals_ascii_case_insensitive_def)
  ultimately show ?thesis
    using True parsed assms(1,3-6) by (simp add: request' well_formed_head_def well_formed_header_def framed_def)
next
  case False
  then have "request' = request\<lparr>rh_headers := rh_headers request @ [h]\<rparr>"
    "\<not> equals_ascii_case_insensitive (header_name h) ''transfer-encoding''"
    using assms(2) by (auto simp: append_header_def length_header_def split: if_splits)
  then show ?thesis
    using False assms(1,3-6) by (auto simp: well_formed_head_def well_formed_header_def framed_def)
qed

lemma parse_header_lines_Inr:
  "parse_header_lines n request remaining = Inr head \<longleftrightarrow>
     (\<exists>line_end. find_text remaining crlf 0 = Some line_end
       \<and> (if line_end = 0 then head = request
          else n + line_end + 2 \<le> 32768 \<and> length (rh_headers request) < 100
            \<and> (\<exists>separator request'. find_char (CHR '':'') (take line_end remaining) = Some separator
                \<and> (let name = take separator (take line_end remaining);
                      v = trim_optional_whitespace (drop (separator + 1) (take line_end remaining))
                   in header_name_is_valid name \<and> header_value_is_valid v
                      \<and> append_header request \<lparr>header_name = name, header_value = v\<rparr> = Inr request')
                \<and> parse_header_lines (n + line_end + 2) request' (drop (line_end + 2) remaining) = Inr head)))"
  by (subst parse_header_lines.simps)
    (auto simp: Let_def default_request_limits_def not_le not_less split: option.splits sum.splits)

lemma parse_header_lines_well_formed:
  "well_formed_head request \<Longrightarrow> parse_header_lines n request remaining = Inr head \<Longrightarrow> well_formed_head head"
proof (induction "length remaining" arbitrary: n request remaining rule: less_induct)
  case less
  obtain line_end where line: "find_text remaining crlf 0 = Some line_end"
    and rest: "if line_end = 0 then head = request
          else n + line_end + 2 \<le> 32768 \<and> length (rh_headers request) < 100
            \<and> (\<exists>separator request'. find_char (CHR '':'') (take line_end remaining) = Some separator
                \<and> (let name = take separator (take line_end remaining);
                      v = trim_optional_whitespace (drop (separator + 1) (take line_end remaining))
                   in header_name_is_valid name \<and> header_value_is_valid v
                      \<and> append_header request \<lparr>header_name = name, header_value = v\<rparr> = Inr request')
                \<and> parse_header_lines (n + line_end + 2) request' (drop (line_end + 2) remaining) = Inr head)"
    using parse_header_lines_Inr [THEN iffD1, OF less.prems(2)] by blast
  show ?case
  proof (cases "line_end = 0")
    case True
    then show ?thesis using rest less.prems(1) by simp
  next
    case False
    have shorter: "length (drop (line_end + 2) remaining) < length remaining"
      using line by (auto simp: find_text_Some occurs_at_def crlf_def)
    from False rest obtain name v request' where valid: "header_name_is_valid name" "header_value_is_valid (trim_optional_whitespace v)"
      and app: "append_header request \<lparr>header_name = name, header_value = trim_optional_whitespace v\<rparr> = Inr request'"
      and count: "length (rh_headers request) < 100"
      and "parse_header_lines (n + line_end + 2) request' (drop (line_end + 2) remaining) = Inr head"
      unfolding Let_def by auto
    moreover have "well_formed_head request'"
      by (rule append_header_well_formed [OF less.prems(1) app _ _ _ count]) (use valid in simp_all)
    ultimately show ?thesis using less.hyps [OF shorter] by blast
  qed
qed

text \<open>
  C27: a request head that is accepted is well formed: method, target and headers consist of the
  characters the protocol allows, there are at most a hundred headers, none of them announces a
  transfer coding, and all headers that state the length of the body state the length the head
  records.
\<close>
theorem accepted_head_is_well_formed:
  assumes "parse_request_head input = Inr head"
  shows "well_formed_head head"
proof -
  from assms obtain request rest where parsed: "parse_header_lines 0 request rest = Inr head"
    and "method_token_is_valid (rh_method request)" "request_target_is_valid (rh_target request)"
    "rh_headers request = []" "\<not> has_content_length request" "rh_content_length request = 0"
    by (auto simp: parse_request_head_def Let_def split: option.splits if_splits)
  then have "well_formed_head request" by (simp add: well_formed_head_def framed_def)
  then show ?thesis using parsed by (rule parse_header_lines_well_formed)
qed

section \<open>Reading what was written\<close>

definition print_header :: "Header \<Rightarrow> string" where
  "print_header h = header_name h @ '': '' @ header_value h @ crlf"

fun print_version :: "HttpVersion \<Rightarrow> string" where
  "print_version http_1_1 = ''HTTP/1.1''"
| "print_version http_1_0 = ''HTTP/1.0''"

definition start_line :: "RequestHead \<Rightarrow> string" where
  "start_line head = rh_method head @ '' '' @ rh_target head @ '' '' @ print_version (rh_version head)"

definition print_head :: "RequestHead \<Rightarrow> string" where
  "print_head head = start_line head @ crlf @ concat (map print_header (rh_headers head)) @ crlf"

text \<open>The head after some of its headers.\<close>

definition partial_head :: "RequestHead \<Rightarrow> Header list \<Rightarrow> RequestHead" where
  "partial_head head hs = head\<lparr>rh_headers := hs, has_content_length := list_ex length_header hs,
     rh_content_length := (if list_ex length_header hs then rh_content_length head else 0)\<rparr>"

lemma append_header_partial:
  assumes "well_formed_head head" and "h \<in> set (rh_headers head)"
  shows "append_header (partial_head head hs) h = Inr (partial_head head (hs @ [h]))"
  using assms
  by (auto simp: append_header_def partial_head_def well_formed_head_def well_formed_header_def framed_def length_header_def
      list_all_iff)

lemma parse_printed_headers:
  assumes "well_formed_head head" and "rh_headers head = hs @ rest_hs"
    and "n + length (concat (map print_header rest_hs)) \<le> 32768"
  shows "parse_header_lines n (partial_head head hs) (concat (map print_header rest_hs) @ crlf @ body)
    = Inr (partial_head head (rh_headers head))"
  using assms(2,3)
proof (induction rest_hs arbitrary: hs n)
  case Nil
  have "find_text (crlf @ body) crlf 0 = Some 0"
    using find_text_at [of "CHR 0x0D" "[]" "[CHR 0x0A]" body] by (simp add: crlf_def)
  then show ?case using Nil by (subst parse_header_lines.simps) simp
next
  case (Cons h rest_hs)
  have h: "h \<in> set (rh_headers head)" using Cons.prems by simp
  then have name: "header_name_is_valid (header_name h)" and v: "header_value_is_valid (header_value h)"
    "trim_optional_whitespace (header_value h) = header_value h"
    using assms(1) by (auto simp: well_formed_head_def well_formed_header_def list_all_iff)
  define line where "line = header_name h @ '': '' @ header_value h"
  let ?rest = "concat (map print_header rest_hs) @ crlf @ body"
  have cr: "CHR 0x0D \<notin> set line"
    using name v(1)
    by (auto simp: line_def header_name_is_valid_def header_value_is_valid_def list_all_iff is_tchar_def token_symbol_def)
  have printed: "print_header h = line @ crlf" by (simp add: print_header_def line_def)
  have split: "concat (map print_header (h # rest_hs)) @ crlf @ body = line @ crlf @ ?rest" by (simp add: printed)
  have found: "find_text (line @ crlf @ ?rest) crlf 0 = Some (length line)"
    using find_text_at [OF cr, of "[CHR 0x0A]" ?rest] by (simp add: crlf_def)
  have "CHR '':'' \<notin> set (header_name h)"
    using name by (auto simp: header_name_is_valid_def list_all_iff is_tchar_def token_symbol_def)
  then have colon: "find_char (CHR '':'') line = Some (length (header_name h))"
    using find_char_at [of "CHR '':''" "header_name h" "'' '' @ header_value h"] by (simp add: line_def)
  have parts: "take (length (header_name h)) line = header_name h"
    "trim_optional_whitespace (drop (length (header_name h) + 1) line) = header_value h" "length line \<noteq> 0"
    using v(2) by (simp_all add: line_def trim_optional_whitespace_def is_optional_whitespace_def)
  have bytes: "n + length line + 2 + length (concat (map print_header rest_hs)) \<le> 32768"
    using Cons.prems(2) by (simp add: printed crlf_def)
  have count: "length (rh_headers (partial_head head hs)) < 100"
    using Cons.prems(1) assms(1) by (simp add: well_formed_head_def partial_head_def)
  have IH: "parse_header_lines (n + length line + 2) (partial_head head (hs @ [h])) ?rest = Inr (partial_head head (rh_headers head))"
    using Cons.prems bytes by (intro Cons.IH) simp_all
  have app: "append_header (partial_head head hs) \<lparr>header_name = header_name h, header_value = header_value h\<rparr>
      = Inr (partial_head head (hs @ [h]))"
    using append_header_partial [OF assms(1) h, of hs] by (cases h) simp
  have cut: "take (length line) (line @ crlf @ ?rest) = line" "drop (length line + 2) (line @ crlf @ ?rest) = ?rest"
    by (simp_all add: crlf_def)
  show ?case
    unfolding split
    by (subst parse_header_lines.simps, unfold found option.case cut Let_def colon parts(1,2) app sum.case IH)
      (use parts(3) bytes count name v(1) in \<open>simp add: default_request_limits_def\<close>)
qed

text \<open>
  C28: a well-formed head within the size limits that is written out is read back unchanged, whatever
  bytes follow it.
\<close>
theorem parse_printed_head:
  assumes "well_formed_head head" and "length (start_line head) \<le> 8192"
    and "length (concat (map print_header (rh_headers head))) \<le> 32768"
  shows "parse_request_head (print_head head @ body) = Inr head"
proof -
  have ok: "method_token_is_valid (rh_method head)" "request_target_is_valid (rh_target head)"
    using assms(1) by (auto simp: well_formed_head_def)
  then have clean: "CHR '' '' \<notin> set (rh_method head)" "CHR '' '' \<notin> set (rh_target head)"
    "CHR 0x0D \<notin> set (rh_method head)" "CHR 0x0D \<notin> set (rh_target head)"
    by (auto simp: method_token_is_valid_def request_target_is_valid_def contains_control_or_space_def list_all_iff
        list_ex_iff is_method_tchar_def token_symbol_def)
  let ?rest = "concat (map print_header (rh_headers head)) @ crlf @ body"
  have "CHR 0x0D \<notin> set (start_line head)" using clean by (cases "rh_version head") (auto simp: start_line_def)
  then have line: "find_text (print_head head @ body) crlf 0 = Some (length (start_line head))"
    using find_text_at [of "CHR 0x0D" "start_line head" "[CHR 0x0A]" ?rest] by (simp add: print_head_def crlf_def)
  have take: "take (length (start_line head)) (print_head head @ body) = start_line head"
    and drop: "drop (length (start_line head) + 2) (print_head head @ body) = ?rest"
    by (simp_all add: print_head_def crlf_def)
  have first: "find_char (CHR '' '') (start_line head) = Some (length (rh_method head))"
    using find_char_at [OF clean(1)] by (simp add: start_line_def)
  have second: "find_char (CHR '' '') (rh_target head @ CHR '' '' # print_version (rh_version head)) = Some (length (rh_target head))"
    using find_char_at [OF clean(2)] by simp
  have version: "parse_http_version (print_version (rh_version head)) = Some (rh_version head)"
    "print_version (rh_version head) \<noteq> []"
    by (cases "rh_version head"; simp add: parse_http_version_def)+
  have headers: "parse_header_lines 0 (partial_head head []) ?rest = Inr (partial_head head (rh_headers head))"
    using assms by (intro parse_printed_headers) simp_all
  have "partial_head head (rh_headers head) = head"
    using assms(1) by (cases head) (auto simp: partial_head_def well_formed_head_def framed_def)
  moreover have "partial_head head [] = \<lparr>rh_method = rh_method head, rh_target = rh_target head, rh_headers = [],
      rh_content_length = 0, has_content_length = False, rh_version = rh_version head\<rparr>"
    by (simp add: partial_head_def)
  ultimately show ?thesis
    unfolding parse_request_head_def line option.case take drop first Let_def
    using assms(2) ok version second headers by (simp add: start_line_def default_request_limits_def)
qed

section \<open>Examples\<close>

definition sample_head :: RequestHead where
  "sample_head =
     \<lparr>rh_method = ''PUT'', rh_target = ''/_matrix/client/v3/profile'',
      rh_headers = [\<lparr>header_name = ''Host'', header_value = ''a.org''\<rparr>,
                    \<lparr>header_name = ''Content-Length'', header_value = ''17''\<rparr>],
      rh_content_length = 17, has_content_length = True, rh_version = http_1_1\<rparr>"

lemma sample_head_facts:
  "well_formed_head sample_head" "length (start_line sample_head) \<le> 8192"
  "length (concat (map print_header (rh_headers sample_head))) \<le> 32768"
  by code_simp+

theorem parse_printed_head_witness:
  "parse_request_head (print_head sample_head @ ''{}'') = Inr sample_head"
  using parse_printed_head sample_head_facts by blast

theorem accepted_head_is_well_formed_witness:
  "parse_request_head (print_head sample_head) = Inr sample_head \<and> well_formed_head sample_head"
proof -
  have "parse_request_head (print_head sample_head) = Inr sample_head" by code_simp
  then show ?thesis using accepted_head_is_well_formed by blast
qed

end
