(* ===== verification/Http_Connection.thy ===== *)
theory Http_Connection
  imports Http_Request
begin

text \<open>
  Persistent connections and slow clients: \<open>src/http/keep_alive.cpp\<close> and
  \<open>src/http/connection_guard.cpp\<close>. The index into the header that the loop moves
  forward is the suffix of the header still to be read.

  Shown: the loop finds a token exactly when it is an element of the comma-separated list, and when a
  connection is kept.
\<close>

record KeepAlivePolicy =
  keep_alive_enabled :: bool
  idle_timeout_seconds :: "32 word"
  max_connections :: "32 word"

datatype ConnectionPreference = close_connection | keep_alive

definition keep_alive_policy_is_valid :: "KeepAlivePolicy \<Rightarrow> bool" where
  "keep_alive_policy_is_valid policy \<longleftrightarrow>
     idle_timeout_seconds policy > 0 \<and> idle_timeout_seconds policy \<le> 300
     \<and> max_connections policy > 0 \<and> max_connections policy \<le> 4096"

definition keep_alive_policy_summary :: "KeepAlivePolicy \<Rightarrow> string" where
  "keep_alive_policy_summary policy =
     ''HTTP keep-alive policy: enabled='' @ (if keep_alive_enabled policy then ''true'' else ''false'')
     @ '' idle_timeout_seconds='' @ nat_to_string (unat (idle_timeout_seconds policy))
     @ '' max_connections='' @ nat_to_string (unat (max_connections policy))"

function token_loop :: "string \<Rightarrow> string \<Rightarrow> bool" where
  "token_loop header token =
     (let field = takeWhile (\<lambda>c. c \<noteq> CHR '','') header;
          leading = takeWhile is_optional_whitespace field;
          element = rev (dropWhile is_optional_whitespace (rev (dropWhile is_optional_whitespace field)))
      in if equals_ascii_case_insensitive element token then True
         else if length leading + length element = length header then False
         else token_loop (drop (length leading + length element + 1) header) token)"
  by pat_completeness auto

termination
proof (relation "measure (\<lambda>(header, token). length header)")
  fix header token field leading element :: string
  assume "length leading + length element \<noteq> length header" "element = rev (dropWhile is_optional_whitespace (rev (dropWhile is_optional_whitespace field)))"
    "leading = takeWhile is_optional_whitespace field" "field = takeWhile (\<lambda>c. c \<noteq> CHR '','') header"
  then have "header \<noteq> []" by auto
  then show "((drop (length leading + length element + 1) header, token), header, token)
      \<in> measure (\<lambda>(header, token). length header)" by simp
qed simp

declare token_loop.simps [simp del]

definition connection_header_has_token :: "string \<Rightarrow> string \<Rightarrow> bool" where
  "connection_header_has_token connection_header token = token_loop connection_header token"

fun connection_preference_for_request :: "HttpVersion \<Rightarrow> string \<Rightarrow> ConnectionPreference" where
  "connection_preference_for_request http_1_1 connection_header =
     (if connection_header_has_token connection_header ''close'' then close_connection else keep_alive)"
| "connection_preference_for_request http_1_0 connection_header =
     (if connection_header_has_token connection_header ''keep-alive'' then keep_alive else close_connection)"

definition connection_preference_for_response ::
  "HttpVersion \<Rightarrow> string \<Rightarrow> KeepAlivePolicy \<Rightarrow> 32 word \<Rightarrow> ConnectionPreference" where
  "connection_preference_for_response version connection_header policy parked_connections =
     (let requested = connection_preference_for_request version connection_header
      in if requested = close_connection then close_connection
         else if \<not> keep_alive_enabled policy \<or> \<not> keep_alive_policy_is_valid policy then close_connection
         else if parked_connections \<ge> max_connections policy then close_connection
         else keep_alive)"

section \<open>Slow clients\<close>

record SlowlorisPolicy =
  min_bytes_per_second :: "32 word"
  grace_seconds :: "32 word"
  header_deadline_seconds :: "32 word"

record RequestProgress =
  bytes_received :: "64 word"
  elapsed_seconds :: "32 word"

datatype ConnectionPhase = awaiting_request | reading_request

definition slowloris_policy_is_valid :: "SlowlorisPolicy \<Rightarrow> bool" where
  "slowloris_policy_is_valid policy \<longleftrightarrow>
     min_bytes_per_second policy > 0 \<and> grace_seconds policy \<le> header_deadline_seconds policy
     \<and> header_deadline_seconds policy > 0 \<and> header_deadline_seconds policy \<le> 300"

definition request_progress_is_too_slow :: "RequestProgress \<Rightarrow> SlowlorisPolicy \<Rightarrow> bool" where
  "request_progress_is_too_slow progress policy =
     (if \<not> slowloris_policy_is_valid policy then True
      else if elapsed_seconds progress \<le> grace_seconds policy then False
      else if elapsed_seconds progress > header_deadline_seconds policy then True
      else let measured_seconds = elapsed_seconds progress - grace_seconds policy;
               required_bytes = ucast measured_seconds * ucast (min_bytes_per_second policy)
           in bytes_received progress < required_bytes)"

definition slowloris_policy_summary :: "SlowlorisPolicy \<Rightarrow> string" where
  "slowloris_policy_summary policy =
     ''HTTP slowloris policy: min_bytes_per_second='' @ nat_to_string (unat (min_bytes_per_second policy))
     @ '' grace_seconds='' @ nat_to_string (unat (grace_seconds policy))
     @ '' header_deadline_seconds='' @ nat_to_string (unat (header_deadline_seconds policy))"

fun connection_should_close ::
  "ConnectionPhase \<Rightarrow> RequestProgress \<Rightarrow> SlowlorisPolicy \<Rightarrow> KeepAlivePolicy \<Rightarrow> bool" where
  "connection_should_close awaiting_request progress slowloris keep_alive_policy =
     (if \<not> keep_alive_policy_is_valid keep_alive_policy then True
      else elapsed_seconds progress > idle_timeout_seconds keep_alive_policy)"
| "connection_should_close reading_request progress slowloris keep_alive_policy =
     request_progress_is_too_slow progress slowloris"

section \<open>The elements of the list\<close>

abbreviation comma_fields :: "string \<Rightarrow> string list" where
  "comma_fields \<equiv> char_fields (CHR '','')"

lemma trim_blank: "list_all is_optional_whitespace v \<Longrightarrow> trim_optional_whitespace v = []"
  by (simp add: trim_optional_whitespace_def dropWhile_eq_Nil_conv list_all_iff)
    (meson set_dropWhileD)

lemma trim_parts:
  "\<exists>trailing. v = takeWhile is_optional_whitespace v @ trim_optional_whitespace v @ trailing \<and> list_all is_optional_whitespace trailing"
proof -
  let ?b = "dropWhile is_optional_whitespace v"
  let ?t = "rev (takeWhile is_optional_whitespace (rev ?b))"
  have "?b = trim_optional_whitespace v @ ?t"
    unfolding trim_optional_whitespace_def by (metis rev_append rev_rev_ident takeWhile_dropWhile_id)
  moreover have "list_all is_optional_whitespace ?t" by (auto simp: list_all_iff dest: set_takeWhileD)
  ultimately show ?thesis by (metis takeWhile_dropWhile_id)
qed

lemma matches_nonempty: "equals_ascii_case_insensitive e token \<Longrightarrow> token \<noteq> [] \<Longrightarrow> e \<noteq> []"
  by (auto simp: equals_ascii_case_insensitive_def)

lemma token_loop_iff:
  assumes "token \<noteq> []"
  shows "token_loop header token \<longleftrightarrow>
    list_ex (\<lambda>field. equals_ascii_case_insensitive (trim_optional_whitespace field) token) (comma_fields header)"
proof (induction "length header" arbitrary: header rule: less_induct)
  case less
  define field rest where "field = takeWhile (\<lambda>c. c \<noteq> CHR '','') header" and "rest = dropWhile (\<lambda>c. c \<noteq> CHR '','') header"
  have header: "header = field @ rest" and comma: "CHR '','' \<notin> set field"
    by (auto simp: field_def rest_def dest: set_takeWhileD)
  obtain trailing where field: "field = takeWhile is_optional_whitespace field @ trim_optional_whitespace field @ trailing"
    and blank: "list_all is_optional_whitespace trailing" using trim_parts by blast
  define used where "used = length (takeWhile is_optional_whitespace field) + length (trim_optional_whitespace field)"
  let ?matches = "\<lambda>field. equals_ascii_case_insensitive (trim_optional_whitespace field) token"
  have loop: "token_loop header token \<longleftrightarrow> ?matches field \<or> (used \<noteq> length header \<and> token_loop (drop (used + 1) header) token)"
    by (subst token_loop.simps) (simp add: Let_def used_def trim_optional_whitespace_def flip: field_def)
  have drop: "drop used header = trailing @ rest"
    by (subst header, subst field) (simp add: used_def)
  have used: "used + length (trailing @ rest) = length header"
    using arg_cong [OF field, of length] arg_cong [OF header, of length] by (simp add: used_def)
  have next_step: "drop (used + 1) header = tl (trailing @ rest)"
    by (metis drop drop_Suc plus_1_eq_Suc add.commute tl_drop)
  have step: "token_loop header token \<longleftrightarrow> ?matches field \<or> (trailing @ rest \<noteq> []
      \<and> list_ex ?matches (comma_fields (tl (trailing @ rest))))"
  proof (cases "trailing @ rest = []")
    case True
    then show ?thesis using loop used by simp
  next
    case False
    then have "length (tl (trailing @ rest)) < length header" using used by (cases "trailing @ rest") simp_all
    from less [OF this] have "token_loop (tl (trailing @ rest)) token \<longleftrightarrow> list_ex ?matches (comma_fields (tl (trailing @ rest)))" .
    moreover have "used \<noteq> length header" using used False by (cases "trailing @ rest") simp_all
    ultimately show ?thesis using loop False unfolding next_step by blast
  qed
  have no_blank: "\<not> ?matches blanks" if "list_all is_optional_whitespace blanks" for blanks
    using that assms by (simp add: trim_blank equals_ascii_case_insensitive_def)
  have "set trailing \<subseteq> set field" by (subst field) auto
  then have no_comma: "CHR '','' \<notin> set trailing" using comma by blast
  show ?case
  proof (cases rest)
    case Nil
    then have "comma_fields header = [field]" using comma unfolding header by (simp add: char_fields_append char_fields_one)
    then show ?thesis using step Nil blank no_comma no_blank
      by (cases trailing) (simp_all add: char_fields_append char_fields_one)
  next
    case (Cons c r)
    then have "c = CHR '',''"
      using hd_dropWhile [of "\<lambda>c. c \<noteq> CHR '',''" header] unfolding rest_def by simp
    with Cons have rest: "rest = CHR '','' # r" by simp
    have "comma_fields header = field # comma_fields r"
      unfolding header rest by (simp add: char_fields_append char_fields_one comma)
    then show ?thesis using step blank no_comma no_blank unfolding rest
      by (cases trailing) (simp_all add: char_fields_append char_fields_one)
  qed
qed

lemma connection_header_has_token_iff:
  "token \<noteq> [] \<Longrightarrow> connection_header_has_token header token \<longleftrightarrow>
    list_ex (\<lambda>field. equals_ascii_case_insensitive (trim_optional_whitespace field) token) (comma_fields header)"
  unfolding connection_header_has_token_def by (rule token_loop_iff)

text \<open>
  A connection stays open after a response exactly when the client asked for it, by the default
  of HTTP/1.1 without the element \<open>close\<close> in its comma-separated list or by the element \<open>keep-alive\<close> in
  HTTP/1.0, and the operator allows it with a usable policy and a free place.
\<close>
lemma response_keeps_connection_iff:
  "connection_preference_for_response version header policy parked = keep_alive \<longleftrightarrow>
     (let listed = (\<lambda>token. list_ex (\<lambda>field. equals_ascii_case_insensitive (trim_optional_whitespace field) token)
                               (comma_fields header))
      in (if version = http_1_1 then \<not> listed ''close'' else listed ''keep-alive''))
     \<and> keep_alive_enabled policy \<and> keep_alive_policy_is_valid policy \<and> parked < max_connections policy"
  by (cases version)
    (auto simp: connection_preference_for_response_def Let_def connection_header_has_token_iff)

lemma required_bytes_exact:
  "unat (ucast a * ucast b :: 64 word) = unat a * unat b" for a b :: "32 word"
proof -
  have "unat a < 2 ^ 32" "unat b < 2 ^ 32" using unsigned_less [where ?'a = nat, of a] unsigned_less [where ?'a = nat, of b] by simp_all
  then have "unat a * unat b < 2 ^ 32 * 2 ^ 32" by (intro mult_strict_mono) simp_all
  moreover have "unat (ucast a :: 64 word) = unat a" "unat (ucast b :: 64 word) = unat b"
    using \<open>unat a < 2 ^ 32\<close> \<open>unat b < 2 ^ 32\<close> by (simp_all add: unsigned_ucast_eq take_bit_nat_eq_self)
  ultimately show ?thesis by (simp add: unat_word_ariths)
qed

text \<open>
  C38: the bytes a slow client owes are computed without wrap-around: while a request is being read,
  the connection stays open exactly when the policy is usable and either the grace period runs, or
  the deadline has not passed and the bytes received are at least the rate times the
  seconds since the grace period, as natural numbers.
\<close>
lemma reading_stays_open_iff:
  "\<not> connection_should_close reading_request progress policy keep_alive_policy \<longleftrightarrow>
     slowloris_policy_is_valid policy
     \<and> (unat (elapsed_seconds progress) \<le> unat (grace_seconds policy)
        \<or> unat (elapsed_seconds progress) \<le> unat (header_deadline_seconds policy)
          \<and> (unat (elapsed_seconds progress) - unat (grace_seconds policy)) * unat (min_bytes_per_second policy)
              \<le> unat (bytes_received progress))"
proof (cases "elapsed_seconds progress \<le> grace_seconds policy")
  case False
  then have "grace_seconds policy \<le> elapsed_seconds progress" by simp
  then have "unat (elapsed_seconds progress - grace_seconds policy) = unat (elapsed_seconds progress) - unat (grace_seconds policy)"
    by (rule unat_sub)
  with False show ?thesis
    by (simp add: request_progress_is_too_slow_def Let_def word_less_nat_alt word_le_nat_alt required_bytes_exact not_less not_le)
qed (simp add: request_progress_is_too_slow_def word_le_nat_alt)

end
