(* ===== verification/Federation_Routes.thy ===== *)
theory Federation_Routes
  imports Text_Search Federation_Security
begin

text \<open>
  Federation routes and transactions: \<open>src/federation/transactions.cpp\<close>. The branches of
  \<open>match_federation_route\<close> are kept as they are written, one per endpoint. The early return of each
  branch is a disjunct of \<open>candidate_matches\<close>, and the loop over the table is \<^const>\<open>find\<close>. Log output is left
  out.

  Shown: the hand-written branches read the templates of the table the way they are written, and no
  request fits two routes.
\<close>

section \<open>Data\<close>

datatype FederationEndpoint =
    endpoint_transaction
  | endpoint_make_join
  | endpoint_send_join
  | endpoint_make_leave
  | endpoint_send_leave
  | endpoint_make_knock
  | endpoint_send_knock
  | endpoint_invite
  | endpoint_backfill
  | endpoint_edu
  | endpoint_query_directory
  | endpoint_query_profile
  | endpoint_query_keys
  | endpoint_claim_keys
  | endpoint_query_user_devices
  | endpoint_query_event
  | endpoint_query_state
  | endpoint_query_state_ids
  | endpoint_get_missing_events
  | endpoint_space_hierarchy
  | endpoint_media_download

record FederationTransaction =
  transaction_origin :: string
  transaction_id :: string
  pdus :: "string list"
  edus :: "string list"
  byte_size :: nat

record FederationTransactionDecision =
  transaction_accepted :: bool
  transaction_reason :: string

record FederationRoute =
  route_method :: string
  path_template :: string
  route_endpoint :: FederationEndpoint
  requires_request_signature :: bool
  requires_event_signatures :: bool

record FederationRouteMatch =
  matched :: bool
  matched_route :: FederationRoute
  match_reason :: string

record FederationEdu =
  edu_type :: string
  edu_origin :: string
  ephemeral :: bool

definition max_federation_transaction_pdus :: nat where
  "max_federation_transaction_pdus = 50"

definition max_federation_transaction_edus :: nat where
  "max_federation_transaction_edus = 100"

section \<open>Routes\<close>

definition dynamic_suffix_has_segments :: "string \<Rightarrow> string \<Rightarrow> nat \<Rightarrow> bool" where
  "dynamic_suffix_has_segments target start expected_segments =
     (if length target \<le> length start \<or> take (length start) target \<noteq> start then False
      else let rest = drop (length start) target;
               segments = 1 + length (filter (\<lambda>c. c = CHR ''/'') rest)
           in segments = expected_segments \<and> find_text rest ''//'' 0 = None \<and> hd rest \<noteq> CHR ''/'' \<and> last rest \<noteq> CHR ''/'')"

definition route :: "string \<Rightarrow> string \<Rightarrow> FederationEndpoint \<Rightarrow> FederationRoute" where
  "route method_name template endpoint =
     (let carries_event_bodies = endpoint = endpoint_transaction \<or> endpoint = endpoint_send_join
        \<or> endpoint = endpoint_send_leave \<or> endpoint = endpoint_send_knock \<or> endpoint = endpoint_invite
      in \<lparr>route_method = method_name, path_template = template, route_endpoint = endpoint,
          requires_request_signature = True, requires_event_signatures = carries_event_bodies\<rparr>)"

fun federation_endpoint_name :: "FederationEndpoint \<Rightarrow> string" where
  "federation_endpoint_name endpoint_transaction = ''transaction''"
| "federation_endpoint_name endpoint_make_join = ''make_join''"
| "federation_endpoint_name endpoint_send_join = ''send_join''"
| "federation_endpoint_name endpoint_make_leave = ''make_leave''"
| "federation_endpoint_name endpoint_send_leave = ''send_leave''"
| "federation_endpoint_name endpoint_make_knock = ''make_knock''"
| "federation_endpoint_name endpoint_send_knock = ''send_knock''"
| "federation_endpoint_name endpoint_invite = ''invite''"
| "federation_endpoint_name endpoint_backfill = ''backfill''"
| "federation_endpoint_name endpoint_edu = ''edu''"
| "federation_endpoint_name endpoint_query_directory = ''query_directory''"
| "federation_endpoint_name endpoint_query_profile = ''query_profile''"
| "federation_endpoint_name endpoint_query_keys = ''query_keys''"
| "federation_endpoint_name endpoint_claim_keys = ''claim_keys''"
| "federation_endpoint_name endpoint_query_user_devices = ''query_user_devices''"
| "federation_endpoint_name endpoint_query_event = ''query_event''"
| "federation_endpoint_name endpoint_query_state = ''query_state''"
| "federation_endpoint_name endpoint_query_state_ids = ''query_state_ids''"
| "federation_endpoint_name endpoint_get_missing_events = ''get_missing_events''"
| "federation_endpoint_name endpoint_space_hierarchy = ''space_hierarchy''"
| "federation_endpoint_name endpoint_media_download = ''media_download''"

fun federation_endpoint_requires_main_relay :: "FederationEndpoint \<Rightarrow> bool" where
  "federation_endpoint_requires_main_relay endpoint_transaction = True"
| "federation_endpoint_requires_main_relay endpoint_send_join = True"
| "federation_endpoint_requires_main_relay endpoint_send_leave = True"
| "federation_endpoint_requires_main_relay endpoint_send_knock = True"
| "federation_endpoint_requires_main_relay endpoint_invite = True"
| "federation_endpoint_requires_main_relay endpoint_query_profile = True"
| "federation_endpoint_requires_main_relay endpoint_query_keys = True"
| "federation_endpoint_requires_main_relay endpoint_claim_keys = True"
| "federation_endpoint_requires_main_relay endpoint_query_user_devices = True"
| "federation_endpoint_requires_main_relay endpoint_query_event = True"
| "federation_endpoint_requires_main_relay endpoint_make_join = False"
| "federation_endpoint_requires_main_relay endpoint_make_leave = False"
| "federation_endpoint_requires_main_relay endpoint_make_knock = False"
| "federation_endpoint_requires_main_relay endpoint_backfill = False"
| "federation_endpoint_requires_main_relay endpoint_edu = False"
| "federation_endpoint_requires_main_relay endpoint_query_directory = False"
| "federation_endpoint_requires_main_relay endpoint_query_state = False"
| "federation_endpoint_requires_main_relay endpoint_query_state_ids = False"
| "federation_endpoint_requires_main_relay endpoint_get_missing_events = False"
| "federation_endpoint_requires_main_relay endpoint_space_hierarchy = False"
| "federation_endpoint_requires_main_relay endpoint_media_download = False"

definition federation_routes :: "FederationRoute list" where
  "federation_routes =
    [route ''PUT'' ''/_matrix/federation/v1/send/{txnId}'' endpoint_transaction,
     route ''GET'' ''/_matrix/federation/v1/make_join/{roomId}/{userId}'' endpoint_make_join,
     route ''PUT'' ''/_matrix/federation/v2/send_join/{roomId}/{eventId}'' endpoint_send_join,
     route ''PUT'' ''/_matrix/federation/v1/send_join/{roomId}/{eventId}'' endpoint_send_join,
     route ''GET'' ''/_matrix/federation/v1/make_leave/{roomId}/{userId}'' endpoint_make_leave,
     route ''PUT'' ''/_matrix/federation/v2/send_leave/{roomId}/{eventId}'' endpoint_send_leave,
     route ''PUT'' ''/_matrix/federation/v1/send_leave/{roomId}/{eventId}'' endpoint_send_leave,
     route ''GET'' ''/_matrix/federation/v1/make_knock/{roomId}/{userId}'' endpoint_make_knock,
     route ''PUT'' ''/_matrix/federation/v1/send_knock/{roomId}/{eventId}'' endpoint_send_knock,
     route ''PUT'' ''/_matrix/federation/v2/invite/{roomId}/{eventId}'' endpoint_invite,
     route ''PUT'' ''/_matrix/federation/v1/invite/{roomId}/{eventId}'' endpoint_invite,
     route ''GET'' ''/_matrix/federation/v1/backfill/{roomId}'' endpoint_backfill,
     route ''PUT'' ''/_matrix/federation/v1/send_edu/{eduType}/{txnId}'' endpoint_edu,
     route ''GET'' ''/_matrix/federation/v1/query/directory'' endpoint_query_directory,
     route ''GET'' ''/_matrix/federation/v1/query/profile'' endpoint_query_profile,
     route ''POST'' ''/_matrix/federation/v1/user/keys/query'' endpoint_query_keys,
     route ''POST'' ''/_matrix/federation/v1/user/keys/claim'' endpoint_claim_keys,
     route ''GET'' ''/_matrix/federation/v1/user/devices/{userId}'' endpoint_query_user_devices,
     route ''GET'' ''/_matrix/federation/v1/event/{eventId}'' endpoint_query_event,
     route ''GET'' ''/_matrix/federation/v1/state/{roomId}'' endpoint_query_state,
     route ''GET'' ''/_matrix/federation/v1/state_ids/{roomId}'' endpoint_query_state_ids,
     route ''POST'' ''/_matrix/federation/v1/get_missing_events/{roomId}'' endpoint_get_missing_events,
     route ''GET'' ''/_matrix/federation/v1/hierarchy/{roomId}'' endpoint_space_hierarchy,
     route ''GET'' ''/_matrix/federation/v1/media/download/{mediaId}'' endpoint_media_download]"

definition candidate_matches :: "FederationRoute \<Rightarrow> string \<Rightarrow> bool" where
  "candidate_matches candidate target_path \<longleftrightarrow>
     path_template candidate = target_path
     \<or> route_endpoint candidate = endpoint_transaction \<and> path_template candidate = ''/_matrix/federation/v1/send/{txnId}''
        \<and> dynamic_suffix_has_segments target_path ''/_matrix/federation/v1/send/'' 1
     \<or> route_endpoint candidate = endpoint_make_join
        \<and> dynamic_suffix_has_segments target_path ''/_matrix/federation/v1/make_join/'' 2
     \<or> route_endpoint candidate = endpoint_send_join \<and> path_template candidate = ''/_matrix/federation/v2/send_join/{roomId}/{eventId}''
        \<and> dynamic_suffix_has_segments target_path ''/_matrix/federation/v2/send_join/'' 2
     \<or> route_endpoint candidate = endpoint_send_join \<and> path_template candidate = ''/_matrix/federation/v1/send_join/{roomId}/{eventId}''
        \<and> dynamic_suffix_has_segments target_path ''/_matrix/federation/v1/send_join/'' 2
     \<or> route_endpoint candidate = endpoint_make_leave
        \<and> dynamic_suffix_has_segments target_path ''/_matrix/federation/v1/make_leave/'' 2
     \<or> route_endpoint candidate = endpoint_send_leave \<and> path_template candidate = ''/_matrix/federation/v2/send_leave/{roomId}/{eventId}''
        \<and> dynamic_suffix_has_segments target_path ''/_matrix/federation/v2/send_leave/'' 2
     \<or> route_endpoint candidate = endpoint_send_leave \<and> path_template candidate = ''/_matrix/federation/v1/send_leave/{roomId}/{eventId}''
        \<and> dynamic_suffix_has_segments target_path ''/_matrix/federation/v1/send_leave/'' 2
     \<or> route_endpoint candidate = endpoint_make_knock
        \<and> dynamic_suffix_has_segments target_path ''/_matrix/federation/v1/make_knock/'' 2
     \<or> route_endpoint candidate = endpoint_send_knock
        \<and> dynamic_suffix_has_segments target_path ''/_matrix/federation/v1/send_knock/'' 2
     \<or> route_endpoint candidate = endpoint_invite \<and> path_template candidate = ''/_matrix/federation/v2/invite/{roomId}/{eventId}''
        \<and> dynamic_suffix_has_segments target_path ''/_matrix/federation/v2/invite/'' 2
     \<or> route_endpoint candidate = endpoint_invite \<and> path_template candidate = ''/_matrix/federation/v1/invite/{roomId}/{eventId}''
        \<and> dynamic_suffix_has_segments target_path ''/_matrix/federation/v1/invite/'' 2
     \<or> route_endpoint candidate = endpoint_backfill
        \<and> dynamic_suffix_has_segments target_path ''/_matrix/federation/v1/backfill/'' 1
     \<or> route_endpoint candidate = endpoint_edu
        \<and> dynamic_suffix_has_segments target_path ''/_matrix/federation/v1/send_edu/'' 2
     \<or> route_endpoint candidate = endpoint_query_user_devices
        \<and> dynamic_suffix_has_segments target_path ''/_matrix/federation/v1/user/devices/'' 1
     \<or> route_endpoint candidate = endpoint_query_event
        \<and> dynamic_suffix_has_segments target_path ''/_matrix/federation/v1/event/'' 1
     \<or> route_endpoint candidate = endpoint_query_state
        \<and> dynamic_suffix_has_segments target_path ''/_matrix/federation/v1/state/'' 1
     \<or> route_endpoint candidate = endpoint_query_state_ids
        \<and> dynamic_suffix_has_segments target_path ''/_matrix/federation/v1/state_ids/'' 1
     \<or> route_endpoint candidate = endpoint_get_missing_events
        \<and> dynamic_suffix_has_segments target_path ''/_matrix/federation/v1/get_missing_events/'' 1
     \<or> route_endpoint candidate = endpoint_space_hierarchy
        \<and> dynamic_suffix_has_segments target_path ''/_matrix/federation/v1/hierarchy/'' 1
     \<or> route_endpoint candidate = endpoint_media_download
        \<and> dynamic_suffix_has_segments target_path ''/_matrix/federation/v1/media/download/'' 1"

definition no_route :: FederationRoute where
  "no_route = \<lparr>route_method = [], path_template = [], route_endpoint = endpoint_transaction,
     requires_request_signature = True, requires_event_signatures = True\<rparr>"

definition match_federation_route :: "string \<Rightarrow> string \<Rightarrow> FederationRouteMatch" where
  "match_federation_route method_name target =
     (let target_path = (case find_char (CHR ''?'') target of None \<Rightarrow> target | Some query \<Rightarrow> take query target)
      in case find (\<lambda>candidate. route_method candidate = method_name \<and> candidate_matches candidate target_path) federation_routes
         of Some candidate \<Rightarrow> \<lparr>matched = True, matched_route = candidate, match_reason = []\<rparr>
          | None \<Rightarrow> \<lparr>matched = False, matched_route = no_route, match_reason = ''federation route not found''\<rparr>)"

section \<open>Transactions\<close>

definition transaction_refused :: "string \<Rightarrow> FederationTransactionDecision" where
  "transaction_refused reason_text = \<lparr>transaction_accepted = False, transaction_reason = reason_text\<rparr>"

definition transaction_ok :: FederationTransactionDecision where
  "transaction_ok = \<lparr>transaction_accepted = True, transaction_reason = []\<rparr>"

definition validate_federation_transaction ::
  "FederationTransaction \<Rightarrow> nat \<Rightarrow> nat \<Rightarrow> nat \<Rightarrow> FederationTransactionDecision" where
  "validate_federation_transaction transaction max_transaction_bytes max_transaction_pdus max_transaction_edus =
     (if \<not> server_name_is_valid (transaction_origin transaction) then transaction_refused ''invalid transaction origin''
      else if transaction_id transaction = [] then transaction_refused ''transaction id is required''
      else if byte_size transaction > max_transaction_bytes then transaction_refused ''transaction exceeds configured byte limit''
      else if length (pdus transaction) > max_transaction_pdus
      then transaction_refused ''transaction exceeds configured PDU count limit''
      else if length (edus transaction) > max_transaction_edus
      then transaction_refused ''transaction exceeds configured EDU count limit''
      else transaction_ok)"

definition edu_is_allowed :: "FederationEdu \<Rightarrow> FederationTransactionDecision" where
  "edu_is_allowed edu =
     (if \<not> server_name_is_valid (edu_origin edu) then transaction_refused ''invalid EDU origin''
      else if edu_type edu = [] then transaction_refused ''EDU type is required''
      else if \<not> ephemeral edu then transaction_refused ''EDUs must remain ephemeral''
      else transaction_ok)"

definition federation_route_audit_event :: "FederationRoute \<Rightarrow> string \<Rightarrow> string" where
  "federation_route_audit_event r origin_name =
     ''federation.'' @ federation_endpoint_name (route_endpoint r) @ '' origin='' @ origin_name"

section \<open>What a template says\<close>

text \<open>
  A template is a path whose segments in braces stand for any segment that is not empty.
\<close>

definition is_placeholder :: "string \<Rightarrow> bool" where
  "is_placeholder s \<longleftrightarrow> s \<noteq> [] \<and> hd s = CHR ''{''"

definition segment_fits :: "string \<Rightarrow> string \<Rightarrow> bool" where
  "segment_fits t s \<longleftrightarrow> (if is_placeholder t then s \<noteq> [] else s = t)"

definition template_fits :: "string \<Rightarrow> string \<Rightarrow> bool" where
  "template_fits template path \<longleftrightarrow>
     list_all2 segment_fits (char_fields (CHR ''/'') template) (char_fields (CHR ''/'') path)"

definition template_shape :: "string \<Rightarrow> string \<Rightarrow> nat \<Rightarrow> bool" where
  "template_shape template start n \<longleftrightarrow>
     (let parts = char_fields (CHR ''/'') template; literals = char_fields (CHR ''/'') (butlast start)
      in start \<noteq> [] \<and> last start = CHR ''/'' \<and> n > 0 \<and> length parts = length literals + n
         \<and> take (length literals) parts = literals \<and> list_all (\<lambda>t. \<not> is_placeholder t) literals
         \<and> list_all is_placeholder (drop (length literals) parts))"

lemma dynamic_suffix_iff:
  "dynamic_suffix_has_segments target start n \<longleftrightarrow>
     (\<exists>rest. target = start @ rest \<and> length (char_fields (CHR ''/'') rest) = n \<and> [] \<notin> set (char_fields (CHR ''/'') rest))"
proof (cases "take (length start) target = start")
  case True
  then obtain rest where "target = start @ rest" by (metis append_take_drop_id)
  then show ?thesis
    by (auto simp: dynamic_suffix_has_segments_def Let_def length_char_fields no_empty_field)
qed (auto simp: dynamic_suffix_has_segments_def)

lemma segment_fits_literals:
  "list_all (\<lambda>t. \<not> is_placeholder t) ts \<Longrightarrow> list_all2 segment_fits ts ss \<longleftrightarrow> ss = ts"
  by (induction ts arbitrary: ss) (auto simp: list_all2_Cons1 segment_fits_def)

lemma segment_fits_placeholders:
  "list_all is_placeholder ts \<Longrightarrow> list_all2 segment_fits ts ss \<longleftrightarrow> length ss = length ts \<and> [] \<notin> set ss"
proof (induction ts arbitrary: ss)
  case (Cons t ts)
  then show ?case by (cases ss) (auto simp: segment_fits_def)
qed auto

lemma template_fits_dynamic:
  assumes "template_shape template start n"
  shows "template_fits template path \<longleftrightarrow> dynamic_suffix_has_segments path start n"
proof -
  let ?fields = "char_fields (CHR ''/'')" and ?join = "join_fields (CHR ''/'')"
  define literals holes where "literals = ?fields (butlast start)" and "holes = drop (length literals) (?fields template)"
  have start: "start = butlast start @ ''/''" and n: "n > 0" "length holes = n"
    and parts: "?fields template = literals @ holes"
    and literal: "list_all (\<lambda>t. \<not> is_placeholder t) literals" and hole: "list_all is_placeholder holes"
    using assms append_take_drop_id [of "length literals" "?fields template"] append_butlast_last_id [of start]
    unfolding template_shape_def Let_def by (auto simp: literals_def holes_def)
  have fits: "template_fits template path \<longleftrightarrow> (\<exists>ss. ?fields path = literals @ ss \<and> length ss = n \<and> [] \<notin> set ss)"
    unfolding template_fits_def parts list_all2_append1
    by (auto simp: segment_fits_literals [OF literal] segment_fits_placeholders [OF hole] n list_all2_lengthD)
  also have "\<dots> \<longleftrightarrow> dynamic_suffix_has_segments path start n"
  proof
    assume "\<exists>ss. ?fields path = literals @ ss \<and> length ss = n \<and> [] \<notin> set ss"
    then obtain ss where ss: "?fields path = literals @ ss" "length ss = n" "[] \<notin> set ss" by blast
    with n have "ss \<noteq> []" by auto
    have "path = ?join (literals @ ss)" using ss by (metis join_char_fields)
    also have "\<dots> = butlast start @ CHR ''/'' # ?join ss"
      using \<open>ss \<noteq> []\<close> by (simp add: join_fields_append literals_def)
    finally have "path = start @ ?join ss" using start by (metis append_Cons append_Nil append_assoc)
    moreover have "?fields (?join ss) = ss"
      using \<open>ss \<noteq> []\<close> ss(1) char_fields_no_separator [of _ "CHR ''/''" path] by (intro char_fields_join) auto
    ultimately show "dynamic_suffix_has_segments path start n" using ss unfolding dynamic_suffix_iff by auto
  next
    assume "dynamic_suffix_has_segments path start n"
    then obtain rest where rest: "path = start @ rest" "length (?fields rest) = n" "[] \<notin> set (?fields rest)"
      unfolding dynamic_suffix_iff by blast
    then have "path = butlast start @ CHR ''/'' # rest" using start by (metis append_Cons append_Nil append_assoc)
    then have "?fields path = literals @ ?fields rest" by (simp add: char_fields_append literals_def)
    with rest show "\<exists>ss. ?fields path = literals @ ss \<and> length ss = n \<and> [] \<notin> set ss" by blast
  qed
  finally show ?thesis .
qed

lemma template_fits_itself: "template_fits template template"
  unfolding template_fits_def list_all2_conv_all_nth segment_fits_def by (auto simp: is_placeholder_def)

definition template_start :: "string \<Rightarrow> string" where
  "template_start template = takeWhile (\<lambda>c. c \<noteq> CHR ''{'') template"

definition template_holes :: "string \<Rightarrow> nat" where
  "template_holes template = length (filter is_placeholder (char_fields (CHR ''/'') template))"

lemma dynamic_route_fits:
  assumes "template_shape (path_template r) (template_start (path_template r)) (template_holes (path_template r))"
    and "candidate_matches r path \<longleftrightarrow> path_template r = path
      \<or> dynamic_suffix_has_segments path (template_start (path_template r)) (template_holes (path_template r))"
  shows "candidate_matches r path \<longleftrightarrow> template_fits (path_template r) path"
  using assms template_fits_dynamic [OF assms(1), of path] template_fits_itself by auto

lemma template_fits_static:
  assumes "list_all (\<lambda>t. \<not> is_placeholder t) (char_fields (CHR ''/'') template)"
  shows "template_fits template path \<longleftrightarrow> template = path"
  unfolding template_fits_def segment_fits_literals [OF assms] by (metis join_char_fields)

lemma static_route_fits:
  assumes "list_all (\<lambda>t. \<not> is_placeholder t) (char_fields (CHR ''/'') (path_template r))"
    and "candidate_matches r path \<longleftrightarrow> path_template r = path"
  shows "candidate_matches r path \<longleftrightarrow> template_fits (path_template r) path"
  unfolding assms(2) template_fits_static [OF assms(1)] ..

text \<open>Each branch of the code is the reading of its template.\<close>

lemma routes_shape:
  "list_all (\<lambda>r. if template_holes (path_template r) = 0
      then list_all (\<lambda>t. \<not> is_placeholder t) (char_fields (CHR ''/'') (path_template r))
      else template_shape (path_template r) (template_start (path_template r)) (template_holes (path_template r)))
    federation_routes"
  by code_simp

lemma routes_branches:
  "list_all (\<lambda>r. candidate_matches r path \<longleftrightarrow> path_template r = path
      \<or> template_holes (path_template r) > 0
        \<and> dynamic_suffix_has_segments path (template_start (path_template r)) (template_holes (path_template r)))
    federation_routes"
  by (simp add: federation_routes_def route_def candidate_matches_def template_start_def template_holes_def is_placeholder_def numeral_2_eq_2)

lemma routes_fit:
  assumes "r \<in> set federation_routes"
  shows "candidate_matches r path \<longleftrightarrow> template_fits (path_template r) path"
proof (cases "template_holes (path_template r) = 0")
  case True
  then show ?thesis using assms routes_shape routes_branches [of path]
    by (intro static_route_fits) (auto simp: list_all_iff)
next
  case False
  then show ?thesis using assms routes_shape routes_branches [of path]
    by (intro dynamic_route_fits) (auto simp: list_all_iff)
qed

section \<open>No request fits two routes\<close>

definition templates_apart :: "string \<Rightarrow> string \<Rightarrow> bool" where
  "templates_apart t u \<longleftrightarrow>
     (let ts = char_fields (CHR ''/'') t; us = char_fields (CHR ''/'') u
      in length ts \<noteq> length us
         \<or> list_ex (\<lambda>(a, b). \<not> is_placeholder a \<and> \<not> is_placeholder b \<and> a \<noteq> b) (zip ts us))"

lemma templates_apart_fits: "templates_apart t u \<Longrightarrow> template_fits t path \<Longrightarrow> \<not> template_fits u path"
  unfolding templates_apart_def template_fits_def Let_def list_all2_conv_all_nth
  by (auto simp: list_ex_iff set_zip segment_fits_def)

lemma routes_apart:
  "list_all (\<lambda>r. list_all (\<lambda>r'. r = r' \<or> route_method r \<noteq> route_method r' \<or> templates_apart (path_template r) (path_template r'))
     federation_routes) federation_routes"
  by code_simp

lemma path_before_query:
  "(case find_char c s of None \<Rightarrow> s | Some i \<Rightarrow> take i s) = takeWhile (\<lambda>x. x \<noteq> c) s"
  by (induction s) (auto split: option.splits)

lemma route_found_fits:
  assumes "find (\<lambda>r. route_method r = method_name \<and> candidate_matches r path) federation_routes = Some r"
  shows "r \<in> set federation_routes \<and> route_method r = method_name \<and> template_fits (path_template r) path"
proof -
  have "r \<in> set federation_routes \<and> route_method r = method_name \<and> candidate_matches r path"
    using assms unfolding find_Some_iff by (metis nth_mem)
  then show ?thesis using routes_fit by blast
qed

lemma route_fits_unique:
  assumes "r \<in> set federation_routes" "r' \<in> set federation_routes" "route_method r = route_method r'"
    "template_fits (path_template r) path" "template_fits (path_template r') path"
  shows "r = r'"
proof -
  have "r = r' \<or> route_method r \<noteq> route_method r' \<or> templates_apart (path_template r) (path_template r')"
    by (rule bspec [OF bspec [OF routes_apart [unfolded list_all_iff] assms(1)] assms(2)])
  then show ?thesis using assms(3-5) templates_apart_fits by blast
qed

lemma route_found_iff:
  "find (\<lambda>r. route_method r = method_name \<and> candidate_matches r path) federation_routes = Some r \<longleftrightarrow>
     r \<in> set federation_routes \<and> route_method r = method_name \<and> template_fits (path_template r) path"
  (is "?found = Some r \<longleftrightarrow> ?fits r")
proof
  assume fits: "?fits r"
  then have "candidate_matches r path" using routes_fit by blast
  then have "?found \<noteq> None" using fits unfolding find_None_iff by blast
  then obtain r' where found: "?found = Some r'" by blast
  from route_found_fits [OF this] fits have "r' = r" using route_fits_unique by blast
  with found show "?found = Some r" by (rule back_subst)
qed (rule route_found_fits)

text \<open>
  C24: a request is matched with a route exactly when the route is in the table, has the method of the
  request and its template, read as the segments it is written with, fits the path in front of the
  query. So the hand-written branches agree with the templates they stand for, and no request fits
  two routes.
\<close>
lemma match_federation_route_iff:
  "matched (match_federation_route method_name target) \<and> matched_route (match_federation_route method_name target) = r \<longleftrightarrow>
     r \<in> set federation_routes \<and> route_method r = method_name
     \<and> template_fits (path_template r) (takeWhile (\<lambda>c. c \<noteq> CHR ''?'') target)"
  using route_found_iff [of method_name "takeWhile (\<lambda>c. c \<noteq> CHR ''?'') target" r]
  unfolding match_federation_route_def Let_def path_before_query
  by (cases "find (\<lambda>r. route_method r = method_name
       \<and> candidate_matches r (takeWhile (\<lambda>c. c \<noteq> CHR ''?'') target)) federation_routes") simp_all

end
