(* ===== verification/Trust_Safety.thy ===== *)
theory Trust_Safety
  imports Federation_Routes Server_Acl Rate_Limit
begin

text \<open>
  Moderation: \<open>src/trust_safety/policy_engine.cpp\<close> and \<open>src/trust_safety/ignore_list.cpp\<close>. The answer of
  an external policy server arrives as data (\<open>PolicyServerHook\<close>). Log output is left out.

  Shown: every check fails closed, which is the contract \<open>policy_check\<close> the five checks with a policy
  server share; who reaches an administrative route; and which events of an ignored user are held
  back.
\<close>

section \<open>Decisions\<close>

datatype PolicySurface =
  surface_invite | surface_federation | surface_media | surface_registration | surface_room | surface_account

datatype PolicyAction =
  action_allow | action_deny | action_quarantine | action_lock_account | action_suspend_account | action_accept_report

datatype ReviewTarget = review_federation_server | review_media | review_room

record EnforcementReason =
  reason_code :: string
  public_summary :: string
  admin_detail :: string
  admin_visible :: bool

record PolicyDecision =
  decision_allowed :: bool
  decision_surface :: PolicySurface
  decision_action :: PolicyAction
  decision_reason :: EnforcementReason
  fail_closed :: bool
  policy_server_rule_id :: string

record PolicyServerHook =
  hook_enabled :: bool
  reachable :: bool
  allow_without_result :: bool
  decision_received :: bool
  hook_action :: PolicyAction
  hook_reason :: EnforcementReason
  rule_id :: string
  timeout_milliseconds :: nat

record AccountEnforcementRecord =
  enforced_user_id :: string
  suspended :: bool
  locked :: bool
  enforced_reason :: EnforcementReason

record InvitePolicyRequest =
  invite_sender :: string
  invite_target :: string
  invite_room :: string
  invite_blocked :: bool
  invite_hook :: PolicyServerHook

record RegistrationPolicyRequest =
  requested_user_id :: string
  requester_address :: string
  registrations_enabled :: bool
  registration_blocked :: bool
  registration_hook :: PolicyServerHook

record AccountPolicyRequest =
  account_user_id :: string
  account_enforcement :: AccountEnforcementRecord

record FederationPolicyRequest =
  origin_server :: string
  federation_held :: bool
  federation_blocked :: bool
  federation_hook :: PolicyServerHook

record MediaPolicyRequest =
  policy_media_id :: string
  media_held :: bool
  media_blocked :: bool
  media_hook :: PolicyServerHook

record RoomPolicyRequest =
  policy_room_id :: string
  room_held :: bool
  room_blocked :: bool
  room_hook :: PolicyServerHook

record ReviewRecord =
  review_target :: ReviewTarget
  review_target_id :: string
  review_active :: bool
  review_reason :: EnforcementReason

definition no_reason :: EnforcementReason where
  "no_reason = \<lparr>reason_code = [], public_summary = [], admin_detail = [], admin_visible = True\<rparr>"

definition enforcement_reason :: "string \<Rightarrow> string \<Rightarrow> string \<Rightarrow> EnforcementReason" where
  "enforcement_reason code summary detail =
     \<lparr>reason_code = code, public_summary = summary, admin_detail = detail, admin_visible = True\<rparr>"

definition reason_or_default :: "EnforcementReason \<Rightarrow> string \<Rightarrow> string \<Rightarrow> EnforcementReason" where
  "reason_or_default r code summary =
     (if reason_code r \<noteq> [] then r else enforcement_reason code summary summary)"

definition allow_on :: "PolicySurface \<Rightarrow> PolicyDecision" where
  "allow_on surface = \<lparr>decision_allowed = True, decision_surface = surface, decision_action = action_allow,
     decision_reason = no_reason, fail_closed = False, policy_server_rule_id = []\<rparr>"

definition deny_with :: "PolicySurface \<Rightarrow> EnforcementReason \<Rightarrow> PolicyAction \<Rightarrow> PolicyDecision" where
  "deny_with surface r action = \<lparr>decision_allowed = False, decision_surface = surface, decision_action = action,
     decision_reason = r, fail_closed = True, policy_server_rule_id = []\<rparr>"

abbreviation deny_on :: "PolicySurface \<Rightarrow> EnforcementReason \<Rightarrow> PolicyDecision" where
  "deny_on surface r \<equiv> deny_with surface r action_deny"

definition review_on :: "PolicySurface \<Rightarrow> EnforcementReason \<Rightarrow> PolicyDecision" where
  "review_on surface r = \<lparr>decision_allowed = False, decision_surface = surface, decision_action = action_quarantine,
     decision_reason = r, fail_closed = True, policy_server_rule_id = []\<rparr>"

definition matrix_id_is_valid :: "string \<Rightarrow> bool" where
  "matrix_id_is_valid id_text \<longleftrightarrow> length id_text \<ge> 3 \<and> hd id_text = CHR ''@'' \<and> find_char (CHR '':'') id_text \<noteq> None"

definition non_empty_identifier :: "string \<Rightarrow> bool" where
  "non_empty_identifier id_text \<longleftrightarrow> id_text \<noteq> [] \<and> find_text id_text ''..'' 0 = None"

fun policy_surface_name :: "PolicySurface \<Rightarrow> string" where
  "policy_surface_name surface_invite = ''invite''"
| "policy_surface_name surface_federation = ''federation''"
| "policy_surface_name surface_media = ''media''"
| "policy_surface_name surface_registration = ''registration''"
| "policy_surface_name surface_room = ''room''"
| "policy_surface_name surface_account = ''account''"

fun policy_action_name :: "PolicyAction \<Rightarrow> string" where
  "policy_action_name action_allow = ''allow''"
| "policy_action_name action_deny = ''deny''"
| "policy_action_name action_quarantine = ''quarantine''"
| "policy_action_name action_lock_account = ''lock_account''"
| "policy_action_name action_suspend_account = ''suspend_account''"
| "policy_action_name action_accept_report = ''accept_report''"

fun review_target_name :: "ReviewTarget \<Rightarrow> string" where
  "review_target_name review_federation_server = ''federation_server''"
| "review_target_name review_media = ''media''"
| "review_target_name review_room = ''room''"

section \<open>Checks\<close>

definition policy_server_hook_allows :: "PolicyServerHook \<Rightarrow> PolicyDecision" where
  "policy_server_hook_allows hook =
     (if \<not> hook_enabled hook then allow_on surface_account
      else if timeout_milliseconds hook = 0
      then deny_on surface_account (enforcement_reason ''policy_server_timeout_unconfigured''
             ''policy check unavailable'' ''policy server timeout is zero'')
      else if \<not> reachable hook \<and> \<not> allow_without_result hook
      then deny_on surface_account (enforcement_reason ''policy_server_unreachable''
             ''policy check unavailable'' ''policy server was unreachable'')
      else if \<not> decision_received hook \<and> \<not> allow_without_result hook
      then deny_on surface_account (enforcement_reason ''policy_server_no_result''
             ''policy check unavailable'' ''policy server returned no decision'')
      else if decision_received hook \<and> hook_action hook \<noteq> action_allow
      then (deny_with surface_account
              (reason_or_default (hook_reason hook) ''policy_server_denied'' ''policy blocked by policy server'')
              (hook_action hook))\<lparr>policy_server_rule_id := rule_id hook\<rparr>
      else (allow_on surface_account)\<lparr>policy_server_rule_id := rule_id hook\<rparr>)"

definition ask_policy_server :: "PolicySurface \<Rightarrow> PolicyServerHook \<Rightarrow> PolicyDecision" where
  "ask_policy_server surface hook =
     (let external = policy_server_hook_allows hook
      in if \<not> decision_allowed external then external\<lparr>decision_surface := surface\<rparr>
         else (allow_on surface)\<lparr>policy_server_rule_id := policy_server_rule_id external\<rparr>)"

definition evaluate_invite_policy :: "InvitePolicyRequest \<Rightarrow> PolicyDecision" where
  "evaluate_invite_policy request =
     (if \<not> matrix_id_is_valid (invite_sender request) \<or> \<not> matrix_id_is_valid (invite_target request)
         \<or> invite_room request = []
      then deny_on surface_invite (enforcement_reason ''invalid_invite_policy_input''
             ''invite cannot be processed'' ''invite policy input is incomplete'')
      else if invite_blocked request
      then deny_on surface_invite (enforcement_reason ''invite_blocked''
             ''invite blocked by server policy'' ''local invite policy blocked the request'')
      else ask_policy_server surface_invite (invite_hook request))"

definition evaluate_registration_policy :: "RegistrationPolicyRequest \<Rightarrow> PolicyDecision" where
  "evaluate_registration_policy request =
     (if \<not> matrix_id_is_valid (requested_user_id request) \<or> requester_address request = []
      then deny_on surface_registration (enforcement_reason ''invalid_registration_policy_input''
             ''registration cannot be processed'' ''registration policy input is incomplete'')
      else if \<not> registrations_enabled request
      then deny_on surface_registration (enforcement_reason ''registration_disabled''
             ''registration is disabled'' ''local registration policy is disabled'')
      else if registration_blocked request
      then deny_on surface_registration (enforcement_reason ''registration_blocked''
             ''registration blocked by server policy'' ''local registration policy blocked the request'')
      else ask_policy_server surface_registration (registration_hook request))"

definition evaluate_account_policy :: "AccountPolicyRequest \<Rightarrow> PolicyDecision" where
  "evaluate_account_policy request =
     (if \<not> matrix_id_is_valid (account_user_id request)
      then deny_on surface_account (enforcement_reason ''invalid_account_policy_input''
             ''account cannot be processed'' ''account policy input is incomplete'')
      else if suspended (account_enforcement request)
      then deny_with surface_account
             (reason_or_default (enforced_reason (account_enforcement request)) ''account_suspended'' ''account is suspended'')
             action_suspend_account
      else if locked (account_enforcement request)
      then deny_with surface_account
             (reason_or_default (enforced_reason (account_enforcement request)) ''account_locked'' ''account is locked'')
             action_lock_account
      else allow_on surface_account)"

definition evaluate_federation_policy :: "FederationPolicyRequest \<Rightarrow> PolicyDecision" where
  "evaluate_federation_policy request =
     (if origin_server request = []
      then deny_on surface_federation (enforcement_reason ''invalid_federation_policy_input''
             ''federation request cannot be processed'' ''federation policy input is incomplete'')
      else if federation_held request
      then review_on surface_federation (enforcement_reason ''federation_held_for_review''
             ''federation request held for review'' ''federation origin is held for review'')
      else if federation_blocked request
      then deny_on surface_federation (enforcement_reason ''federation_blocked''
             ''federation blocked by server policy'' ''local federation policy blocked the origin'')
      else ask_policy_server surface_federation (federation_hook request))"

definition evaluate_media_policy :: "MediaPolicyRequest \<Rightarrow> PolicyDecision" where
  "evaluate_media_policy request =
     (if \<not> non_empty_identifier (policy_media_id request)
      then deny_on surface_media (enforcement_reason ''invalid_media_policy_input''
             ''media cannot be processed'' ''media policy input is incomplete'')
      else if media_held request
      then review_on surface_media (enforcement_reason ''media_held_for_review''
             ''media held for review'' ''media item is held for review'')
      else if media_blocked request
      then deny_on surface_media (enforcement_reason ''media_blocked''
             ''media blocked by server policy'' ''local media policy blocked the item'')
      else ask_policy_server surface_media (media_hook request))"

definition evaluate_room_policy :: "RoomPolicyRequest \<Rightarrow> PolicyDecision" where
  "evaluate_room_policy request =
     (if policy_room_id request = []
      then deny_on surface_room (enforcement_reason ''invalid_room_policy_input''
             ''room cannot be processed'' ''room policy input is incomplete'')
      else if room_held request
      then review_on surface_room (enforcement_reason ''room_held_for_review''
             ''room held for review'' ''room is held for review'')
      else if room_blocked request
      then deny_on surface_room (enforcement_reason ''room_blocked''
             ''room blocked by server policy'' ''local room policy blocked the room'')
      else ask_policy_server surface_room (room_hook request))"

definition review_policy :: "ReviewRecord \<Rightarrow> PolicyDecision" where
  "review_policy r =
     (let surface = (if review_target r = review_federation_server then surface_federation
                     else if review_target r = review_media then surface_media else surface_room)
      in if \<not> non_empty_identifier (review_target_id r)
         then deny_on surface (enforcement_reason ''invalid_review_target''
                ''target cannot be processed'' ''review target is invalid'')
         else if \<not> review_active r then allow_on surface
         else review_on surface (reason_or_default (review_reason r) ''target_held_for_review'' ''target held for review''))"

record BoundValue =
  bound_value :: string
  sensitive :: bool
  binary_payload :: bool

record PreparedStatement =
  statement_name :: string
  sql :: string
  parameters :: "BoundValue list"

definition public_value :: "string \<Rightarrow> BoundValue" where
  "public_value v = \<lparr>bound_value = v, sensitive = False, binary_payload = False\<rparr>"

definition account_enforcement_statements :: "AccountEnforcementRecord \<Rightarrow> PreparedStatement list" where
  "account_enforcement_statements r =
     (if \<not> matrix_id_is_valid (enforced_user_id r) then []
      else [\<lparr>statement_name = ''trust_safety_update_account_enforcement'',
              sql = ''UPDATE accounts SET suspended = $1, locked = $2, enforcement_reason = $3 WHERE user_id = $4'',
              parameters =
                [public_value (if suspended r then ''true'' else ''false''),
                 public_value (if locked r then ''true'' else ''false''),
                 public_value (reason_code (enforced_reason r)),
                 public_value (enforced_user_id r)]\<rparr>])"

section \<open>Reports\<close>

record ReportingApiRoute =
  report_method :: string
  report_template :: string
  requires_access_token :: bool
  requires_admin :: bool
  report_rate_limit :: RateLimitPolicy

record ReportingApiRouteMatch =
  report_matched :: bool
  report_route :: ReportingApiRoute
  report_match_reason :: string

record SafetyReportRequest =
  reporter_user_id :: string
  report_room_id :: string
  report_event_id :: string
  report_reason :: string
  report_score :: int

record SafetyAuditEvent =
  audit_event_type :: string
  audit_actor :: string
  audit_entity :: string
  audit_surface :: PolicySurface
  audit_action :: PolicyAction
  audit_reason :: EnforcementReason

definition starts_with :: "string \<Rightarrow> string \<Rightarrow> bool" where
  "starts_with v start \<longleftrightarrow> length v \<ge> length start \<and> take (length start) v = start"

definition reporting_route :: "string \<Rightarrow> string \<Rightarrow> bool \<Rightarrow> ReportingApiRoute" where
  "reporting_route method_name template admin_only =
     \<lparr>report_method = method_name, report_template = template, requires_access_token = True, requires_admin = admin_only,
      report_rate_limit = rl_policy 20 60\<rparr>"

definition has_exactly_two_path_segments :: "string \<Rightarrow> bool" where
  "has_exactly_two_path_segments rest =
     (case find_char (CHR ''/'') rest of None \<Rightarrow> False
      | Some separator \<Rightarrow> separator > 0 \<and> separator + 1 < length rest
          \<and> find_char (CHR ''/'') (drop (separator + 1) rest) = None)"

definition matches_report_route :: "string \<Rightarrow> bool" where
  "matches_report_route target =
     (if \<not> starts_with target ''/_matrix/client/v3/rooms/'' then False
      else let rest = drop (length ''/_matrix/client/v3/rooms/'') target
           in case find_text rest ''/report/'' 0 of None \<Rightarrow> False
              | Some report_position \<Rightarrow>
                  if report_position = 0 then False
                  else let event_id = drop (report_position + length ''/report/'') rest
                       in event_id \<noteq> [] \<and> find_char (CHR ''/'') event_id = None)"

definition matches_admin_review_route :: "string \<Rightarrow> bool" where
  "matches_admin_review_route target =
     (if \<not> starts_with target ''/_matrix/client/v3/admin/safety/review/'' then False
      else has_exactly_two_path_segments (drop (length ''/_matrix/client/v3/admin/safety/review/'') target))"

definition matches_admin_policy_rule_route :: "string \<Rightarrow> bool" where
  "matches_admin_policy_rule_route target =
     (if \<not> starts_with target ''/_matrix/client/v3/admin/safety/policy_rules/'' then False
      else has_exactly_two_path_segments (drop (length ''/_matrix/client/v3/admin/safety/policy_rules/'') target))"

definition reporting_api_routes :: "ReportingApiRoute list" where
  "reporting_api_routes =
    [reporting_route ''POST'' ''/_matrix/client/v3/rooms/{roomId}/report/{eventId}'' False,
     reporting_route ''GET'' ''/_matrix/client/v3/admin/safety/reports'' True,
     reporting_route ''POST'' ''/_matrix/client/v3/admin/safety/review/{targetType}/{targetId}'' True,
     reporting_route ''GET'' ''/_matrix/client/v3/admin/safety/policy_rules'' True,
     reporting_route ''PUT'' ''/_matrix/client/v3/admin/safety/policy_rules/{scope}/{entity}'' True,
     reporting_route ''DELETE'' ''/_matrix/client/v3/admin/safety/policy_rules/{scope}/{entity}'' True]"

definition reporting_candidate_matches :: "ReportingApiRoute \<Rightarrow> string \<Rightarrow> bool" where
  "reporting_candidate_matches candidate target \<longleftrightarrow>
     report_template candidate = target
     \<or> report_template candidate = ''/_matrix/client/v3/rooms/{roomId}/report/{eventId}'' \<and> matches_report_route target
     \<or> report_template candidate = ''/_matrix/client/v3/admin/safety/review/{targetType}/{targetId}''
        \<and> matches_admin_review_route target
     \<or> report_template candidate = ''/_matrix/client/v3/admin/safety/policy_rules/{scope}/{entity}''
        \<and> matches_admin_policy_rule_route target"

definition no_reporting_route :: ReportingApiRoute where
  "no_reporting_route = \<lparr>report_method = [], report_template = [], requires_access_token = True,
     requires_admin = False, report_rate_limit = rl_policy 90 60\<rparr>"

definition match_reporting_api_route :: "string \<Rightarrow> string \<Rightarrow> ReportingApiRouteMatch" where
  "match_reporting_api_route method_name target =
     (case find (\<lambda>candidate. report_method candidate = method_name \<and> reporting_candidate_matches candidate target)
             reporting_api_routes
      of Some candidate \<Rightarrow> \<lparr>report_matched = True, report_route = candidate, report_match_reason = []\<rparr>
       | None \<Rightarrow> \<lparr>report_matched = False, report_route = no_reporting_route,
                  report_match_reason = ''reporting API route not found''\<rparr>)"

definition validate_safety_report :: "SafetyReportRequest \<Rightarrow> PolicyDecision" where
  "validate_safety_report request =
     (if \<not> matrix_id_is_valid (reporter_user_id request) \<or> report_room_id request = [] \<or> report_event_id request = []
      then deny_on surface_room (enforcement_reason ''invalid_report'' ''report cannot be processed''
             ''report is missing reporter, room, or event'')
      else \<lparr>decision_allowed = True, decision_surface = surface_room, decision_action = action_accept_report,
            decision_reason = no_reason, fail_closed = False, policy_server_rule_id = []\<rparr>)"

definition make_safety_audit_event :: "string \<Rightarrow> string \<Rightarrow> PolicyDecision \<Rightarrow> SafetyAuditEvent" where
  "make_safety_audit_event actor entity decision =
     \<lparr>audit_event_type = ''trust_safety.'' @ policy_surface_name (decision_surface decision) @ ''.''
        @ policy_action_name (decision_action decision),
      audit_actor = actor, audit_entity = entity, audit_surface = decision_surface decision,
      audit_action = decision_action decision, audit_reason = decision_reason decision\<rparr>"

definition safety_audit_summary :: "SafetyAuditEvent \<Rightarrow> string" where
  "safety_audit_summary e =
     audit_event_type e @ '' actor='' @ audit_actor e @ '' entity='' @ audit_entity e
     @ '' reason='' @ reason_code (audit_reason e)"

section \<open>Ignored users\<close>

record PersistentAccountData =
  pad_user_id :: string
  pad_room_id :: string
  pad_event_type :: string
  pad_content_json :: string
  pad_stream_id :: nat

record PersistentAccountStore = PersistentStore +
  store_account_data :: "PersistentAccountData list"

definition parse_ignored_user_list :: "YyjsonReader \<Rightarrow> string \<Rightarrow> string set" where
  "parse_ignored_user_list reader content_json =
     (if content_json = [] then {}
      else case parse_json reader content_json of
        Inr (VObject root) \<Rightarrow>
          (case object_member root ''ignored_users'' of
             Some (VObject ignored_users) \<Rightarrow> set (filter (\<lambda>key. key \<noteq> []) (map fst ignored_users))
           | _ \<Rightarrow> {})
      | _ \<Rightarrow> {})"

definition resolve_ignored_users :: "YyjsonReader \<Rightarrow> PersistentAccountStore \<Rightarrow> string \<Rightarrow> string set" where
  "resolve_ignored_users reader store user_id =
     (case find (\<lambda>data. pad_user_id data = user_id \<and> pad_room_id data = [] \<and> pad_event_type data = ''m.ignored_user_list'')
             (store_account_data store)
      of None \<Rightarrow> {} | Some row \<Rightarrow> parse_ignored_user_list reader (pad_content_json row))"

definition is_delivery_suppressed :: "string set \<Rightarrow> string \<Rightarrow> bool \<Rightarrow> bool \<Rightarrow> bool" where
  "is_delivery_suppressed ignored_senders sender_id is_state_event is_new_room_invite =
     (if sender_id \<notin> ignored_senders then False
      else if is_new_room_invite then True
      else if is_state_event then False
      else True)"

definition event_json_is_state_event :: "YyjsonReader \<Rightarrow> string \<Rightarrow> bool" where
  "event_json_is_state_event reader event_json =
     (case parse_lossless reader event_json of
        Inr (VObject root) \<Rightarrow> object_member root ''state_key'' \<noteq> None
      | _ \<Rightarrow> False)"

section \<open>Every check fails closed\<close>

definition hook_permits :: "PolicyServerHook \<Rightarrow> bool" where
  "hook_permits hook \<longleftrightarrow> (hook_enabled hook \<longrightarrow>
     timeout_milliseconds hook > 0
     \<and> (if decision_received hook then hook_action hook = action_allow \<and> (reachable hook \<or> allow_without_result hook)
        else allow_without_result hook))"

definition well_decided :: "PolicySurface \<Rightarrow> PolicyDecision \<Rightarrow> bool" where
  "well_decided surface d \<longleftrightarrow> decision_surface d = surface
     \<and> decision_allowed d = (decision_action d = action_allow) \<and> fail_closed d = (\<not> decision_allowed d)
     \<and> (reason_code (decision_reason d) = []) = decision_allowed d"

lemmas decision_defs = allow_on_def deny_with_def review_on_def enforcement_reason_def reason_or_default_def no_reason_def

lemma hook_allowed_iff: "decision_allowed (policy_server_hook_allows hook) \<longleftrightarrow> hook_permits hook"
  by (simp add: policy_server_hook_allows_def hook_permits_def decision_defs)

lemma hook_well_decided: "well_decided surface_account (policy_server_hook_allows hook)"
  by (simp add: policy_server_hook_allows_def well_decided_def decision_defs)

lemma ask_policy_server_well_decided: "well_decided surface (ask_policy_server surface hook)"
  using hook_well_decided [of hook]
  by (simp add: ask_policy_server_def well_decided_def Let_def) (simp add: decision_defs)

lemma ask_policy_server_allowed: "decision_allowed (ask_policy_server surface hook) \<longleftrightarrow> hook_permits hook"
  by (simp add: ask_policy_server_def Let_def hook_allowed_iff) (simp add: decision_defs)

text \<open>The contract of a check that asks the policy server once its own rules admit the request.\<close>

locale policy_check =
  fixes evaluate :: "'r \<Rightarrow> PolicyDecision"
    and surface :: PolicySurface
    and admitted :: "'r \<Rightarrow> bool"
    and hook :: "'r \<Rightarrow> PolicyServerHook"
  assumes refused: "\<not> admitted r \<Longrightarrow> well_decided surface (evaluate r) \<and> \<not> decision_allowed (evaluate r)"
    and asked: "admitted r \<Longrightarrow> evaluate r = ask_policy_server surface (hook r)"
begin

lemma check_allows_iff: "decision_allowed (evaluate r) \<longleftrightarrow> admitted r \<and> hook_permits (hook r)"
  by (cases "admitted r") (simp_all add: asked refused ask_policy_server_allowed)

lemma check_well_decided: "well_decided surface (evaluate r)"
  by (cases "admitted r") (simp_all add: asked refused ask_policy_server_well_decided)

end

interpretation invite_check: policy_check evaluate_invite_policy surface_invite
  "\<lambda>r. matrix_id_is_valid (invite_sender r) \<and> matrix_id_is_valid (invite_target r) \<and> invite_room r \<noteq> [] \<and> \<not> invite_blocked r"
  invite_hook
  by unfold_locales (auto simp: evaluate_invite_policy_def well_decided_def decision_defs)

interpretation registration_check: policy_check evaluate_registration_policy surface_registration
  "\<lambda>r. matrix_id_is_valid (requested_user_id r) \<and> requester_address r \<noteq> [] \<and> registrations_enabled r \<and> \<not> registration_blocked r"
  registration_hook
  by unfold_locales (auto simp: evaluate_registration_policy_def well_decided_def decision_defs)

interpretation federation_check: policy_check evaluate_federation_policy surface_federation
  "\<lambda>r. origin_server r \<noteq> [] \<and> \<not> federation_held r \<and> \<not> federation_blocked r" federation_hook
  by unfold_locales (auto simp: evaluate_federation_policy_def well_decided_def decision_defs)

interpretation media_check: policy_check evaluate_media_policy surface_media
  "\<lambda>r. non_empty_identifier (policy_media_id r) \<and> \<not> media_held r \<and> \<not> media_blocked r" media_hook
  by unfold_locales (auto simp: evaluate_media_policy_def well_decided_def decision_defs)

interpretation room_check: policy_check evaluate_room_policy surface_room
  "\<lambda>r. policy_room_id r \<noteq> [] \<and> \<not> room_held r \<and> \<not> room_blocked r" room_hook
  by unfold_locales (auto simp: evaluate_room_policy_def well_decided_def decision_defs)

lemma account_check_well_decided: "well_decided surface_account (evaluate_account_policy r)"
  by (simp add: evaluate_account_policy_def well_decided_def decision_defs)

lemma account_check_allows_iff:
  "decision_allowed (evaluate_account_policy r) \<longleftrightarrow>
     matrix_id_is_valid (account_user_id r) \<and> \<not> suspended (account_enforcement r) \<and> \<not> locked (account_enforcement r)"
  by (simp add: evaluate_account_policy_def decision_defs)

text \<open>
  C25: no check lets a request through by default. Each of the six checks, invites, registrations, accounts,
  federation, media and rooms, answers for its own surface, allows exactly with the action \<open>allow\<close>, and
  names a reason exactly when it refuses. The five that consult a policy server allow a request exactly
  when their own rules admit it and the policy server, where it is enabled, has a timeout and allowed it, or
  gave no answer and the operator chose to go on without one.
\<close>
theorem policy_checks_fail_closed:
  "well_decided surface_invite (evaluate_invite_policy inq)
   \<and> well_decided surface_registration (evaluate_registration_policy reg)
   \<and> well_decided surface_account (evaluate_account_policy acc)
   \<and> well_decided surface_federation (evaluate_federation_policy fed)
   \<and> well_decided surface_media (evaluate_media_policy med)
   \<and> well_decided surface_room (evaluate_room_policy rm)
   \<and> (decision_allowed (evaluate_invite_policy inq) \<longleftrightarrow>
        matrix_id_is_valid (invite_sender inq) \<and> matrix_id_is_valid (invite_target inq) \<and> invite_room inq \<noteq> []
        \<and> \<not> invite_blocked inq \<and> hook_permits (invite_hook inq))
   \<and> (decision_allowed (evaluate_registration_policy reg) \<longleftrightarrow>
        matrix_id_is_valid (requested_user_id reg) \<and> requester_address reg \<noteq> []
        \<and> registrations_enabled reg \<and> \<not> registration_blocked reg
        \<and> hook_permits (registration_hook reg))
   \<and> (decision_allowed (evaluate_account_policy acc) \<longleftrightarrow>
        matrix_id_is_valid (account_user_id acc) \<and> \<not> suspended (account_enforcement acc)
        \<and> \<not> locked (account_enforcement acc))
   \<and> (decision_allowed (evaluate_federation_policy fed) \<longleftrightarrow>
        origin_server fed \<noteq> [] \<and> \<not> federation_held fed \<and> \<not> federation_blocked fed
        \<and> hook_permits (federation_hook fed))
   \<and> (decision_allowed (evaluate_media_policy med) \<longleftrightarrow>
        non_empty_identifier (policy_media_id med) \<and> \<not> media_held med \<and> \<not> media_blocked med
        \<and> hook_permits (media_hook med))
   \<and> (decision_allowed (evaluate_room_policy rm) \<longleftrightarrow>
        policy_room_id rm \<noteq> [] \<and> \<not> room_held rm \<and> \<not> room_blocked rm \<and> hook_permits (room_hook rm))"
  by (intro conjI invite_check.check_well_decided registration_check.check_well_decided
      federation_check.check_well_decided media_check.check_well_decided room_check.check_well_decided
      account_check_well_decided account_check_allows_iff)
    (simp_all only: invite_check.check_allows_iff registration_check.check_allows_iff
      federation_check.check_allows_iff media_check.check_allows_iff room_check.check_allows_iff conj_assoc)

section \<open>Administrative routes\<close>

lemma two_segments_iff:
  "has_exactly_two_path_segments s \<longleftrightarrow> length (char_fields (CHR ''/'') s) = 2 \<and> [] \<notin> set (char_fields (CHR ''/'') s)"
proof (cases "find_char (CHR ''/'') s")
  case None
  moreover from None have "char_fields (CHR ''/'') s = [s]" by (simp add: find_char_missing char_fields_one)
  ultimately show ?thesis by (simp add: has_exactly_two_path_segments_def)
next
  case (Some i)
  define a b where "a = take i s" and "b = drop (Suc i) s"
  have s: "s = a @ CHR ''/'' # b" and a: "CHR ''/'' \<notin> set a"
    using find_char_split [OF Some] by (simp_all add: a_def b_def)
  then have i: "i = length a" using Some find_char_at [OF a, of b] by simp
  have "length (char_fields (CHR ''/'') b) = 1 \<longleftrightarrow> CHR ''/'' \<notin> set b"
    by (simp add: length_char_fields filter_empty_conv) blast
  then show ?thesis using Some i a
    by (auto simp: has_exactly_two_path_segments_def s char_fields_append char_fields_one find_char_missing)
qed

lemma two_segment_suffix:
  "starts_with target start \<and> has_exactly_two_path_segments (drop (length start) target) \<longleftrightarrow>
     dynamic_suffix_has_segments target start 2"
proof -
  have "starts_with target start \<longleftrightarrow> (\<exists>rest. target = start @ rest)"
    by (auto simp: starts_with_def) (metis append_take_drop_id)
  then show ?thesis unfolding dynamic_suffix_iff two_segments_iff by auto
qed

lemma admin_routes_fit:
  "list_all (\<lambda>r. requires_admin r \<longrightarrow> reporting_candidate_matches r target = template_fits (report_template r) target)
     reporting_api_routes"
proof -
  have shape: "template_shape ''/_matrix/client/v3/admin/safety/review/{targetType}/{targetId}''
      ''/_matrix/client/v3/admin/safety/review/'' 2"
    "template_shape ''/_matrix/client/v3/admin/safety/policy_rules/{scope}/{entity}''
      ''/_matrix/client/v3/admin/safety/policy_rules/'' 2"
    by code_simp+
  have literal: "list_all (\<lambda>t. \<not> is_placeholder t) (char_fields (CHR ''/'') ''/_matrix/client/v3/admin/safety/reports'')"
    "list_all (\<lambda>t. \<not> is_placeholder t) (char_fields (CHR ''/'') ''/_matrix/client/v3/admin/safety/policy_rules'')"
    by code_simp+
  have dynamic: "matches_admin_review_route target = dynamic_suffix_has_segments target ''/_matrix/client/v3/admin/safety/review/'' 2"
    "matches_admin_policy_rule_route target = dynamic_suffix_has_segments target ''/_matrix/client/v3/admin/safety/policy_rules/'' 2"
    unfolding matches_admin_review_route_def matches_admin_policy_rule_route_def two_segment_suffix [symmetric] by simp_all
  show ?thesis
    unfolding reporting_api_routes_def reporting_route_def
    using template_fits_itself [of "''/_matrix/client/v3/admin/safety/review/{targetType}/{targetId}''"]
      template_fits_itself [of "''/_matrix/client/v3/admin/safety/policy_rules/{scope}/{entity}''"]
    by (auto simp: reporting_candidate_matches_def dynamic
      template_fits_static [OF literal(1)] template_fits_static [OF literal(2)]
      template_fits_dynamic [OF shape(1), symmetric] template_fits_dynamic [OF shape(2), symmetric])
qed

lemma admin_routes_first:
  "list_all (\<lambda>r. \<not> requires_admin r \<longrightarrow> r = hd reporting_api_routes) reporting_api_routes
   \<and> list_all (\<lambda>r. requires_admin r \<longrightarrow> list_all (\<lambda>r'. r = r' \<or> report_method r \<noteq> report_method r'
        \<or> \<not> requires_admin r' \<or> templates_apart (report_template r) (report_template r')) reporting_api_routes)
      reporting_api_routes"
  by code_simp

lemma template_fits_nth:
  "template_fits t path \<Longrightarrow> i < length (char_fields (CHR ''/'') t) \<Longrightarrow> \<not> is_placeholder (char_fields (CHR ''/'') t ! i)
     \<Longrightarrow> char_fields (CHR ''/'') path ! i = char_fields (CHR ''/'') t ! i"
  by (simp add: template_fits_def list_all2_conv_all_nth segment_fits_def)

lemma admin_fifth_segment:
  "list_all (\<lambda>r. requires_admin r \<longrightarrow> 4 < length (char_fields (CHR ''/'') (report_template r))
     \<and> char_fields (CHR ''/'') (report_template r) ! 4 = ''admin'') reporting_api_routes"
  by code_simp

lemma report_fifth_segment:
  assumes "reporting_candidate_matches (hd reporting_api_routes) target"
  shows "char_fields (CHR ''/'') target ! 4 = ''rooms''"
proof -
  have "starts_with target ''/_matrix/client/v3/rooms/''"
    using assms unfolding reporting_candidate_matches_def reporting_api_routes_def reporting_route_def
    by (auto simp: matches_report_route_def split: if_splits) (auto simp: starts_with_def)
  then obtain rest where "target = ''/_matrix/client/v3/rooms/'' @ rest"
    unfolding starts_with_def by (metis append_take_drop_id)
  then have "target = ''/_matrix/client/v3/rooms'' @ CHR ''/'' # rest" by simp
  moreover have "char_fields (CHR ''/'') ''/_matrix/client/v3/rooms'' = [[], ''_matrix'', ''client'', ''v3'', ''rooms'']"
    by simp
  ultimately show ?thesis by (simp only: char_fields_append) (simp add: nth_append)
qed

lemma admin_routes_apart:
  assumes "r \<in> set reporting_api_routes" "requires_admin r" "template_fits (report_template r) target"
    "r' \<in> set reporting_api_routes" "report_method r' = report_method r" "reporting_candidate_matches r' target"
  shows "r' = r"
proof (cases "requires_admin r'")
  case True
  then have "template_fits (report_template r') target"
    using admin_routes_fit [of target] assms unfolding list_all_iff by blast
  moreover have "r = r' \<or> templates_apart (report_template r) (report_template r')"
    using admin_routes_first [THEN conjunct2] assms True unfolding list_all_iff by metis
  ultimately show ?thesis using templates_apart_fits assms by blast
next
  case False
  then have "r' = hd reporting_api_routes" using admin_routes_first [THEN conjunct1] assms unfolding list_all_iff by blast
  then have "char_fields (CHR ''/'') target ! 4 = ''rooms''" using report_fifth_segment assms(6) by simp
  moreover have "char_fields (CHR ''/'') target ! 4 = ''admin''"
    using admin_fifth_segment [unfolded list_all_iff] assms(1,2) template_fits_nth [OF assms(3), of 4]
    by (auto simp: is_placeholder_def)
  ultimately show ?thesis by simp
qed

text \<open>
  An administrative route of the reporting interface is chosen for a request exactly when the method
  and the template of the route fit it. So the branches for these routes read their templates as they
  are written, and the route open to every user, although it accepts more
  paths than its template, never takes a request that belongs to an administrator.
\<close>
theorem admin_route_matched_iff:
  "report_matched (match_reporting_api_route method_name target)
     \<and> report_route (match_reporting_api_route method_name target) = r \<and> requires_admin r \<longleftrightarrow>
   r \<in> set reporting_api_routes \<and> requires_admin r \<and> report_method r = method_name
     \<and> template_fits (report_template r) target"
proof -
  let ?fits = "\<lambda>r. report_method r = method_name \<and> reporting_candidate_matches r target"
  have found: "find ?fits reporting_api_routes = Some r \<longleftrightarrow>
      report_method r = method_name \<and> template_fits (report_template r) target \<and> r \<in> set reporting_api_routes"
    if admin: "requires_admin r"
  proof
    assume "find ?fits reporting_api_routes = Some r"
    then have "r \<in> set reporting_api_routes" "?fits r" unfolding find_Some_iff by auto
    then show "report_method r = method_name \<and> template_fits (report_template r) target \<and> r \<in> set reporting_api_routes"
      using admin_routes_fit [of target] admin unfolding list_all_iff by blast
  next
    assume r: "report_method r = method_name \<and> template_fits (report_template r) target \<and> r \<in> set reporting_api_routes"
    then have "?fits r" using admin_routes_fit [of target] admin unfolding list_all_iff by blast
    then have "find ?fits reporting_api_routes \<noteq> None" using r unfolding find_None_iff by blast
    then obtain r' where r': "find ?fits reporting_api_routes = Some r'" by blast
    then have "r' \<in> set reporting_api_routes" "?fits r'" unfolding find_Some_iff by auto
    then have "r' = r" using admin_routes_apart [of r target r'] r admin by simp
    with r' show "find ?fits reporting_api_routes = Some r" by (rule back_subst)
  qed
  show ?thesis unfolding match_reporting_api_route_def using found
    by (cases "find ?fits reporting_api_routes") auto
qed

section \<open>What an ignored user can still send\<close>

lemma parse_ignored_user_list_iff:
  "u \<in> parse_ignored_user_list reader content \<longleftrightarrow> content \<noteq> [] \<and> u \<noteq> []
     \<and> (\<exists>root ignored. parse_json reader content = Inr (VObject root)
          \<and> object_member root ''ignored_users'' = Some (VObject ignored) \<and> u \<in> fst ` set ignored)"
  by (auto simp: parse_ignored_user_list_def split: sum.splits Value.splits option.splits)

text \<open>
  An event is held back from a user exactly when the first ignore list stored for the user parses, names
  the sender under \<open>ignored_users\<close>, and the event is an invite or not a state event. So state events of
  ignored users still arrive, their invites never do, and a list that does not parse ignores nobody.
\<close>
theorem delivery_suppressed_iff:
  "is_delivery_suppressed (resolve_ignored_users reader store user_id) sender_id is_state is_invite \<longleftrightarrow>
     (is_invite \<or> \<not> is_state) \<and> sender_id \<noteq> []
     \<and> (\<exists>row root ignored.
          find (\<lambda>data. pad_user_id data = user_id \<and> pad_room_id data = [] \<and> pad_event_type data = ''m.ignored_user_list'')
            (store_account_data store) = Some row
          \<and> pad_content_json row \<noteq> [] \<and> parse_json reader (pad_content_json row) = Inr (VObject root)
          \<and> object_member root ''ignored_users'' = Some (VObject ignored) \<and> sender_id \<in> fst ` set ignored)"
proof -
  have "is_delivery_suppressed senders sender_id is_state is_invite \<longleftrightarrow> sender_id \<in> senders \<and> (is_invite \<or> \<not> is_state)"
    for senders by (simp add: is_delivery_suppressed_def)
  then show ?thesis
    by (auto simp: resolve_ignored_users_def parse_ignored_user_list_iff split: option.splits)
qed

end
