(* ===== verification/Request_Auth.thy ===== *)
theory Request_Auth
  imports Event_Signer Event_Id Json_Parser Federation_Security
begin

text \<open>
  Authentication of federation traffic: the \<open>X-Matrix\<close> scheme and the signature check of received
  events of \<open>src/federation/inbound_request.cpp\<close>, with the header that
  \<open>src/federation/outbound_transaction.cpp\<close> sends. The walk over the header is a function of the text
  still to be read. The verifier of received events only verifies; it is the runtime provider without
  a key, which refuses to sign. Log output is left out.

  Shown: a request that is signed and sent is read back and accepted; the signed payload identifies
  the request; and an accepted event is signed by the server of its sender.
\<close>

section \<open>Requests\<close>

record FederationSigningKey =
  fsk_server_name :: string
  fsk_key_id :: string
  verify_token :: string
  loaded :: bool

record FederationKeyRecord =
  fkr_server_name :: string
  fkr_key_id :: string
  valid_until_ts :: nat
  public_key_bytes :: string

record XMatrixCredentials =
  xm_origin :: string
  xm_destination :: string
  xm_key_id :: string
  xm_signature :: string

record SignedFederationRequest =
  sfr_method :: string
  sfr_target :: string
  sfr_origin :: string
  sfr_destination :: string
  sfr_key_id :: string
  sfr_signature :: string
  sfr_now_ts :: nat
  sfr_canonical_json_verified :: bool
  sfr_signature_verified :: bool
  sfr_body :: string
  sfr_remote_addr :: string

record FederationDecision =
  fd_accepted :: bool
  fd_status :: nat
  fd_reason :: string

definition make_decision :: "bool \<Rightarrow> nat \<Rightarrow> string \<Rightarrow> FederationDecision" where
  "make_decision accepted status reason_text = \<lparr>fd_accepted = accepted, fd_status = status, fd_reason = reason_text\<rparr>"

definition load_server_signing_key :: "string \<Rightarrow> string \<Rightarrow> string \<Rightarrow> FederationSigningKey" where
  "load_server_signing_key name key material =
     (if \<not> server_name_is_valid name \<or> key = [] \<or> material = []
      then \<lparr>fsk_server_name = [], fsk_key_id = [], verify_token = [], loaded = False\<rparr>
      else \<lparr>fsk_server_name = name, fsk_key_id = key, verify_token = material, loaded = True\<rparr>)"

definition signing_key_summary :: "FederationSigningKey \<Rightarrow> string" where
  "signing_key_summary key =
     ''server='' @ fsk_server_name key @ '' key_id='' @ fsk_key_id key
     @ '' loaded='' @ (if loaded key then ''true'' else ''false'')"

definition federation_request_payload ::
  "YyjsonReader \<Rightarrow> NumericEnv \<Rightarrow> string \<Rightarrow> string \<Rightarrow> string \<Rightarrow> string \<Rightarrow> string \<Rightarrow> string option" where
  "federation_request_payload reader env origin destination method_name uri body =
     (let finish = (\<lambda>content. case serialize_canonical env (VObject
            (content @ [make_member ''destination'' (VString destination), make_member ''method'' (VString method_name),
                        make_member ''origin'' (VString origin), make_member ''uri'' (VString uri)]))
          of Inl e \<Rightarrow> None | Inr output \<Rightarrow> Some output)
      in if body \<noteq> [] then
           (case parse_lossless reader body of
              Inl e \<Rightarrow> None
            | Inr v \<Rightarrow> finish [make_member ''content'' v])
         else finish [])"

definition make_federation_signature ::
  "Sodium \<Rightarrow> YyjsonReader \<Rightarrow> NumericEnv \<Rightarrow> string \<Rightarrow> string \<Rightarrow> string \<Rightarrow> string \<Rightarrow> string \<Rightarrow> string \<Rightarrow> string" where
  "make_federation_signature S reader env origin destination method_name target body secret_key =
     (if length secret_key \<noteq> 64 then []
      else case federation_request_payload reader env origin destination method_name target body of
        None \<Rightarrow> []
      | Some payload \<Rightarrow>
          (case ed25519_sign_detached S secret_key payload of
             None \<Rightarrow> []
           | Some signed_bytes \<Rightarrow> matrix_base64_from_bytes S signed_bytes))"

text \<open>The header of a call: \<open>build_authorization_header\<close> with the fields of the transaction it reads.\<close>

definition build_authorization_header ::
  "Sodium \<Rightarrow> YyjsonReader \<Rightarrow> NumericEnv \<Rightarrow> string \<Rightarrow> string \<Rightarrow> string \<Rightarrow> string \<Rightarrow> string \<Rightarrow> string \<Rightarrow> string \<Rightarrow> string" where
  "build_authorization_header S reader env origin destination method_name target body key secret_key =
     ''X-Matrix origin='' @ CHR 0x22 # origin
     @ CHR 0x22 # '',destination='' @ CHR 0x22 # destination
     @ CHR 0x22 # '',key='' @ CHR 0x22 # key
     @ CHR 0x22 # '',sig='' @ CHR 0x22 # make_federation_signature S reader env origin destination method_name target body secret_key
     @ [CHR 0x22]"

section \<open>The header\<close>

definition is_rfc9110_tchar :: "char \<Rightarrow> bool" where
  "is_rfc9110_tchar c \<longleftrightarrow>
     48 \<le> byte c \<and> byte c \<le> 57 \<or> 65 \<le> byte c \<and> byte c \<le> 90 \<or> 97 \<le> byte c \<and> byte c \<le> 122
     \<or> c \<in> set ''!#$%&'' \<or> c = CHR 0x27 \<or> c \<in> set ''*+-.^_'' \<or> c = CHR 0x60 \<or> c \<in> set ''|~''"

definition header_blank :: "char \<Rightarrow> bool" where
  "header_blank c \<longleftrightarrow> c = CHR '' '' \<or> c = CHR 0x09"

fun quoted_value :: "string \<Rightarrow> string \<Rightarrow> (string \<times> string) option" where
  "quoted_value v [] = None"
| "quoted_value v (c # rest) =
     (if c = CHR 0x22 then Some (v, rest)
      else if c = CHR 0x5C then (case rest of [] \<Rightarrow> None | d # rest' \<Rightarrow> quoted_value (v @ [d]) rest')
      else quoted_value (v @ [c]) rest)"

definition token_value :: "string \<Rightarrow> (string \<times> string) option" where
  "token_value remaining =
     (let v = takeWhile is_rfc9110_tchar remaining; rest = dropWhile is_rfc9110_tchar remaining
      in if v = [] then None
         else if rest \<noteq> [] \<and> hd rest \<noteq> CHR '','' \<and> \<not> header_blank (hd rest) then None
         else Some (v, rest))"

definition parameter_value :: "string \<Rightarrow> (string \<times> string) option" where
  "parameter_value remaining =
     (if hd remaining = CHR 0x22 then quoted_value [] (tl remaining) else token_value remaining)"

text \<open>One turn of the loop on a text without leading blanks: the name, the value and what follows.\<close>

definition next_parameter :: "string \<Rightarrow> (string \<times> string \<times> string) option" where
  "next_parameter remaining =
     (case find_char (CHR ''='') remaining of None \<Rightarrow> None
      | Some eq_pos \<Rightarrow>
          (let name = rev (dropWhile header_blank (rev (take eq_pos remaining)));
               after = dropWhile header_blank (drop (eq_pos + 1) remaining)
           in if after = [] then None
              else case parameter_value after of None \<Rightarrow> None
                | Some (v, rest) \<Rightarrow>
                    (let rest' = dropWhile header_blank rest
                     in Some (name, v, if rest' \<noteq> [] \<and> hd rest' = CHR '','' then tl rest' else rest'))))"

record XMatrixProgress =
  credentials :: XMatrixCredentials
  origin_found :: bool
  key_found :: bool
  sig_found :: bool

definition take_parameter :: "XMatrixProgress \<Rightarrow> string \<Rightarrow> string \<Rightarrow> XMatrixProgress" where
  "take_parameter p name v =
     (if name = ''origin'' then p\<lparr>credentials := (credentials p)\<lparr>xm_origin := v\<rparr>, origin_found := True\<rparr>
      else if name = ''key'' then p\<lparr>credentials := (credentials p)\<lparr>xm_key_id := v\<rparr>, key_found := True\<rparr>
      else if name = ''sig'' then p\<lparr>credentials := (credentials p)\<lparr>xm_signature := v\<rparr>, sig_found := True\<rparr>
      else if name = ''destination'' then p\<lparr>credentials := (credentials p)\<lparr>xm_destination := v\<rparr>\<rparr>
      else p)"

lemma quoted_value_shorter: "quoted_value v s = Some (v', rest) \<Longrightarrow> length rest < length s"
  by (induction v s rule: quoted_value.induct) (auto split: if_splits list.splits)

lemma token_value_shorter: "token_value s = Some (v, rest) \<Longrightarrow> length rest \<le> length s"
  by (auto simp: token_value_def Let_def length_dropWhile_le split: if_splits)

lemma parameter_value_shorter: "s \<noteq> [] \<Longrightarrow> parameter_value s = Some (v, rest) \<Longrightarrow> length rest \<le> length s"
  by (cases s) (auto simp: parameter_value_def dest: quoted_value_shorter token_value_shorter split: if_splits)

lemma next_parameter_shorter:
  assumes "next_parameter s = Some (name, v, rest)"
  shows "length rest < length s"
proof -
  from assms obtain i after rest0 where i: "find_char (CHR ''='') s = Some i"
    and after: "after = dropWhile header_blank (drop (i + 1) s)" "after \<noteq> []"
    and val: "parameter_value after = Some (v, rest0)"
    and rest: "rest = (let r = dropWhile header_blank rest0 in if r \<noteq> [] \<and> hd r = CHR '','' then tl r else r)"
    by (auto simp: next_parameter_def Let_def split: option.splits if_splits)
  have "length rest \<le> length rest0"
    using length_dropWhile_le [of header_blank rest0] by (auto simp: rest Let_def)
  also have "\<dots> \<le> length after" using parameter_value_shorter [OF after(2) val] .
  also have "\<dots> \<le> length (drop (i + 1) s)" unfolding after(1) by (rule length_dropWhile_le)
  also have "\<dots> < length s" using find_char_split [OF i] by (cases s) auto
  finally show ?thesis .
qed

function x_matrix_parameters :: "XMatrixProgress \<Rightarrow> string \<Rightarrow> XMatrixProgress option" where
  "x_matrix_parameters p remaining =
     (let text_left = dropWhile header_blank remaining
      in if text_left = [] then Some p
         else case next_parameter text_left of None \<Rightarrow> None
           | Some (name, v, rest) \<Rightarrow> x_matrix_parameters (take_parameter p name v) rest)"
  by pat_completeness auto

termination
proof (relation "measure (\<lambda>(p, remaining). length remaining)")
  fix p remaining text_left x name y v rest
  assume "text_left = dropWhile header_blank remaining" "next_parameter text_left = Some x" "(name, y) = x" "(v, rest) = y"
  then show "((take_parameter p name v, rest), p, remaining) \<in> measure (\<lambda>(p, remaining). length remaining)"
    using next_parameter_shorter [of text_left name v rest] length_dropWhile_le [of header_blank remaining] by auto
qed simp

declare x_matrix_parameters.simps [simp del]

definition no_credentials :: XMatrixCredentials where
  "no_credentials = \<lparr>xm_origin = [], xm_destination = [], xm_key_id = [], xm_signature = []\<rparr>"

definition parse_x_matrix_authorization_header :: "string \<Rightarrow> XMatrixCredentials option" where
  "parse_x_matrix_authorization_header header_value =
     (if take (length ''X-Matrix '') header_value \<noteq> ''X-Matrix '' then None
      else case x_matrix_parameters
             \<lparr>credentials = no_credentials, origin_found = False, key_found = False, sig_found = False\<rparr>
             (drop (length ''X-Matrix '') header_value)
        of None \<Rightarrow> None
         | Some p \<Rightarrow>
             (if \<not> origin_found p \<or> \<not> key_found p \<or> \<not> sig_found p \<or> xm_origin (credentials p) = []
                 \<or> xm_key_id (credentials p) = [] \<or> xm_signature (credentials p) = []
              then None else Some (credentials p)))"

definition verify_signed_federation_request ::
  "Sodium \<Rightarrow> YyjsonReader \<Rightarrow> NumericEnv \<Rightarrow> SignedFederationRequest \<Rightarrow> FederationKeyRecord \<Rightarrow> FederationDecision" where
  "verify_signed_federation_request S reader env request key =
     (if sfr_origin request \<noteq> fkr_server_name key \<or> sfr_key_id request \<noteq> fkr_key_id key
      then make_decision False 403 ''request signing key does not match origin''
      else if valid_until_ts key \<noteq> 0 \<and> sfr_now_ts request > valid_until_ts key
      then make_decision False 403 ''request signing key has expired''
      else let payload = federation_request_payload reader env (sfr_origin request) (sfr_destination request)
                           (sfr_method request) (sfr_target request) (sfr_body request);
               sig = matrix_bytes_from_base64 S (sfr_signature request);
               verify_result = map_option (\<lambda>p. ed25519_verify S (public_key_bytes key) p sig) payload
           in if verify_result = None \<or> \<not> fst (the verify_result)
              then make_decision False 403 ''request signature verification failed''
              else let boundary = verify_federation_request_signature
                         \<lparr>frs_origin = sfr_origin request, frs_key_id = sfr_key_id request,
                          frs_signature = sfr_signature request,
                          canonical_json_verified = sfr_canonical_json_verified request\<rparr>
                   in if \<not> fst boundary then make_decision False 403 (snd boundary)
                      else make_decision True 200 [])"

text \<open>
  The request that the router builds from the head of a message and its credentials. The destination is
  the receiver's own name, never the one claimed in the header.
\<close>

definition received_request :: "string \<Rightarrow> XMatrixCredentials \<Rightarrow> string \<Rightarrow> string \<Rightarrow> string \<Rightarrow> nat \<Rightarrow> SignedFederationRequest" where
  "received_request own_name c method_name target body now =
     \<lparr>sfr_method = method_name, sfr_target = target, sfr_origin = xm_origin c, sfr_destination = own_name,
      sfr_key_id = xm_key_id c, sfr_signature = xm_signature c, sfr_now_ts = now,
      sfr_canonical_json_verified = True, sfr_signature_verified = False, sfr_body = body, sfr_remote_addr = []\<rparr>"

section \<open>Events\<close>

record FederationPdu =
  pdu_event_id :: string
  pdu_room_id :: string
  pdu_event_type :: string
  pdu_sender :: string
  pdu_signatures :: "EventSignature list"
  pdu_json :: string
  pdu_room_version :: string

definition empty_pdu :: FederationPdu where
  "empty_pdu = \<lparr>pdu_event_id = [], pdu_room_id = [], pdu_event_type = [], pdu_sender = [], pdu_signatures = [],
     pdu_json = [], pdu_room_version = ''12''\<rparr>"

definition user_id_server_name :: "string \<Rightarrow> string" where
  "user_id_server_name user_id =
     (if length user_id < 2 \<or> hd user_id \<noteq> CHR ''@'' then []
      else case find_char (CHR '':'') user_id of None \<Rightarrow> []
        | Some separator \<Rightarrow> if separator + 1 \<ge> length user_id then [] else drop (separator + 1) user_id)"

definition sender_domain :: "string \<Rightarrow> string" where
  "sender_domain sender_id = user_id_server_name sender_id"

function split_fields :: "string \<Rightarrow> char \<Rightarrow> string list" where
  "split_fields input separator =
     (if input = [] then []
      else case find_char separator input of None \<Rightarrow> [input]
        | Some position \<Rightarrow> take position input # split_fields (drop (position + 1) input) separator)"
  by pat_completeness auto

termination
  by (relation "measure (\<lambda>(input, separator). length input)") auto

declare split_fields.simps [simp del]

definition authorize_federation_pdu ::
  "Sodium \<Rightarrow> YyjsonReader \<Rightarrow> FederationPdu \<Rightarrow> FederationKeyRecord option \<Rightarrow> nat \<Rightarrow> FederationDecision" where
  "authorize_federation_pdu S reader pdu key now_ts =
     (if pdu_event_id pdu = [] \<or> pdu_room_id pdu = [] \<or> pdu_event_type pdu = [] \<or> pdu_sender pdu = []
      then make_decision False 400 ''PDU is missing required fields''
      else let pdu_sender_domain = sender_domain (pdu_sender pdu);
               presence = verify_federation_event_signatures (pdu_signatures pdu) pdu_sender_domain
        in if \<not> fst presence then make_decision False 403 (snd presence)
           else case key of
             None \<Rightarrow> make_decision False 403 ''sender domain signing key unavailable''
           | Some k \<Rightarrow>
               if fkr_server_name k \<noteq> pdu_sender_domain
               then make_decision False 403 ''sender domain signing key unavailable''
               else if now_ts \<noteq> 0 \<and> valid_until_ts k \<noteq> 0 \<and> now_ts > valid_until_ts k
               then make_decision False 403 ''sender domain signing key has expired''
               else let room_ver = (if pdu_room_version pdu = [] then ''12'' else pdu_room_version pdu)
                 in case find_room_version_policy room_ver of
                      None \<Rightarrow> make_decision False 500 ''room version policy is unavailable''
                    | Some policy \<Rightarrow>
                        if pdu_json pdu \<noteq> [] then
                          (case parse_lossless reader (pdu_json pdu) of
                             Inl e \<Rightarrow> make_decision False 400 ''PDU JSON is not canonical-parseable''
                           | Inr parsed \<Rightarrow>
                               (let verified = verify_event_signature S parsed policy
                                      \<lparr>sk_server_name = fkr_server_name k, sk_key_id = fkr_key_id k\<rparr>
                                      (public_key_bytes k) (make_runtime_provider [])
                                in if \<not> fst verified then make_decision False 403 (snd verified)
                                   else make_decision True 200 []))
                        else make_decision False 400
                               ''comma-delimited PDUs require JSON for cryptographic verification'')"

definition parse_federation_pdu ::
  "Sodium \<Rightarrow> YyjsonReader \<Rightarrow> string \<Rightarrow> (string \<Rightarrow> string) option \<Rightarrow> FederationPdu" where
  "parse_federation_pdu S reader encoded version_resolver =
     (if encoded \<noteq> [] \<and> hd encoded = CHR ''{'' then
        (case parse_lossless reader encoded of
           Inl e \<Rightarrow> empty_pdu
         | Inr parsed \<Rightarrow>
             (case parse_event_envelope parsed of
                Inl e \<Rightarrow> empty_pdu
              | Inr event \<Rightarrow>
                  (let room_ver = (case version_resolver of Some resolve \<Rightarrow> resolve (room_id event) | None \<Rightarrow> ''12'')
                   in case find_room_version_policy room_ver of
                        None \<Rightarrow> empty_pdu
                      | Some policy \<Rightarrow>
                          \<lparr>pdu_event_id = (case make_reference_hash_event_id S parsed policy of Inl e \<Rightarrow> [] | Inr i \<Rightarrow> i),
                           pdu_room_id = room_id event, pdu_event_type = event_type event, pdu_sender = sender event,
                           pdu_signatures = signatures event, pdu_json = encoded, pdu_room_version = room_ver\<rparr>)))
      else let fs = split_fields encoded (CHR '','')
           in if length fs \<noteq> 7 \<or> fs ! 6 = [] then empty_pdu
              else \<lparr>pdu_event_id = fs ! 0, pdu_room_id = fs ! 1, pdu_event_type = fs ! 2, pdu_sender = fs ! 3,
                    pdu_signatures = [\<lparr>server_name = fs ! 4, key_id = fs ! 5, signature = fs ! 6\<rparr>],
                    pdu_json = [], pdu_room_version = ''12''\<rparr>)"

section \<open>What is sent is read back\<close>

definition header_safe :: "string \<Rightarrow> bool" where
  "header_safe v \<longleftrightarrow> CHR 0x22 \<notin> set v \<and> CHR 0x5C \<notin> set v"

lemma quoted_value_safe: "header_safe v \<Longrightarrow> quoted_value w (v @ CHR 0x22 # rest) = Some (w @ v, rest)"
  by (induction v arbitrary: w) (auto simp: header_safe_def)

lemma next_parameter_quoted:
  assumes "header_safe v" "CHR ''='' \<notin> set name" "name \<noteq> []" "\<not> header_blank (last name)"
  shows "next_parameter (name @ CHR ''='' # CHR 0x22 # v @ CHR 0x22 # rest) =
    Some (name, v, let r = dropWhile header_blank rest in if r \<noteq> [] \<and> hd r = CHR '','' then tl r else r)"
proof -
  have "find_char (CHR ''='') (name @ CHR ''='' # CHR 0x22 # v @ CHR 0x22 # rest) = Some (length name)"
    using assms(2) by (rule find_char_at)
  moreover have "rev (dropWhile header_blank (rev name)) = name"
    using assms(3,4) by (cases name rule: rev_cases) simp_all
  moreover have "\<not> header_blank (CHR 0x22)" by (simp add: header_blank_def)
  ultimately show ?thesis
    using quoted_value_safe [OF assms(1), of "[]" rest]
    by (simp add: next_parameter_def parameter_value_def Let_def)
qed

lemma x_matrix_parameters_step:
  assumes "header_safe v" "CHR ''='' \<notin> set name" "name \<noteq> []" "\<not> header_blank (hd name)" "\<not> header_blank (last name)"
  shows "x_matrix_parameters p (name @ CHR ''='' # CHR 0x22 # v @ CHR 0x22 # rest) =
    x_matrix_parameters (take_parameter p name v)
      (let r = dropWhile header_blank rest in if r \<noteq> [] \<and> hd r = CHR '','' then tl r else r)"
proof -
  have "dropWhile header_blank (name @ CHR ''='' # CHR 0x22 # v @ CHR 0x22 # rest) = name @ CHR ''='' # CHR 0x22 # v @ CHR 0x22 # rest"
    using assms(3,4) by (cases name) simp_all
  then show ?thesis
    using next_parameter_quoted [OF assms(1-3,5), of rest] by (subst x_matrix_parameters.simps) (simp add: assms(3))
qed

text \<open>What a receiver reads from the header of a call.\<close>

lemma header_read_back:
  assumes "header_safe origin" "header_safe destination" "header_safe key" "header_safe sig"
    and "origin \<noteq> []" "key \<noteq> []" "sig \<noteq> []"
  shows "parse_x_matrix_authorization_header
      (''X-Matrix origin='' @ CHR 0x22 # origin @ CHR 0x22 # '',destination='' @ CHR 0x22 # destination
       @ CHR 0x22 # '',key='' @ CHR 0x22 # key @ CHR 0x22 # '',sig='' @ CHR 0x22 # sig @ [CHR 0x22])
    = Some \<lparr>xm_origin = origin, xm_destination = destination, xm_key_id = key, xm_signature = sig\<rparr>"
proof -
  have comma: "\<not> header_blank (CHR '','')" by (simp add: header_blank_def)
  note step = x_matrix_parameters_step [where name = "''origin''", simplified]
    x_matrix_parameters_step [where name = "''destination''", simplified]
    x_matrix_parameters_step [where name = "''key''", simplified]
    x_matrix_parameters_step [where name = "''sig''", simplified]
  have finished: "x_matrix_parameters p [] = Some p" for p by (subst x_matrix_parameters.simps) simp
  show ?thesis
    unfolding parse_x_matrix_authorization_header_def
    using assms by (simp add: step comma header_blank_def finished take_parameter_def no_credentials_def)
qed

definition base64_char :: "char \<Rightarrow> bool" where
  "base64_char c \<longleftrightarrow> c \<in> {CHR ''A'' .. CHR ''Z''} \<or> c \<in> {CHR ''a'' .. CHR ''z''}
     \<or> c \<in> {CHR ''0'' .. CHR ''9''} \<or> c = CHR ''+'' \<or> c = CHR ''/''"

text \<open>The alphabet that libsodium documents for the standard variant of base64 without padding.\<close>

definition base64_alphabet :: "Sodium \<Rightarrow> bool" where
  "base64_alphabet S \<longleftrightarrow> (\<forall>b. list_all base64_char (sodium_bin2base64 S False b))"

lemma base64_header_safe: "base64_alphabet S \<Longrightarrow> header_safe (matrix_base64_from_bytes S b)"
proof -
  assume alphabet: "base64_alphabet S"
  have "\<not> base64_char (CHR 0x22)" "\<not> base64_char (CHR 0x5C)" by (simp_all add: base64_char_def less_eq_char_def)
  with alphabet show ?thesis
    unfolding base64_alphabet_def header_safe_def matrix_base64_from_bytes_def list_all_iff by auto
qed

lemma make_federation_signature_nonempty:
  assumes "make_federation_signature S reader env origin destination method_name target body secret \<noteq> []"
  obtains payload sig where
    "federation_request_payload reader env origin destination method_name target body = Some payload"
    "crypto_sign_detached S secret payload = Some sig"
    "make_federation_signature S reader env origin destination method_name target body secret = matrix_base64_from_bytes S sig"
  using assms
  by (auto simp: make_federation_signature_def ed25519_sign_detached_def split: if_splits option.splits)

text \<open>
  C4: a request signed with one half of a key pair is accepted by whoever holds the other half. The
  header that is sent is read back with the names it was built from, and the request built from it
  verifies, whenever a signature could be made at all, the names have no quotes or backslashes and the
  key is not out of date.
\<close>
theorem signed_request_verifies:
  assumes "sodium_documented S" "base64_alphabet S" "sodium_keypair S (public_key_bytes key) secret"
    and "length (public_key_bytes key) = 32"
    and "server_name_is_valid origin" "fkr_server_name key = origin" "fkr_key_id key \<noteq> []"
    and "header_safe origin" "header_safe destination" "header_safe (fkr_key_id key)"
    and "valid_until_ts key = 0 \<or> now \<le> valid_until_ts key"
    and "make_federation_signature S reader env origin destination method_name target body secret \<noteq> []"
  shows "\<exists>c. parse_x_matrix_authorization_header
        (build_authorization_header S reader env origin destination method_name target body (fkr_key_id key) secret) = Some c
      \<and> xm_origin c = origin \<and> xm_destination c = destination \<and> xm_key_id c = fkr_key_id key
      \<and> fd_accepted (verify_signed_federation_request S reader env (received_request destination c method_name target body now) key)"
proof -
  let ?sig = "make_federation_signature S reader env origin destination method_name target body secret"
  obtain payload sig where sig: "federation_request_payload reader env origin destination method_name target body = Some payload"
    "crypto_sign_detached S secret payload = Some sig" "?sig = matrix_base64_from_bytes S sig"
    using make_federation_signature_nonempty [OF assms(12)] .
  have decoded: "matrix_bytes_from_base64 S ?sig = sig"
    using matrix_base64_round_trip [OF assms(1), of sig] assms(12) sig(3) by simp
  have verified: "length sig = 64" "crypto_sign_verify_detached S sig payload (public_key_bytes key)"
    using assms(3) sig(2) unfolding sodium_keypair_def by auto
  have origin: "origin \<noteq> []" using assms(5) by (auto simp: server_name_is_valid_def)
  define c where "c = \<lparr>xm_origin = origin, xm_destination = destination, xm_key_id = fkr_key_id key, xm_signature = ?sig\<rparr>"
  have read: "parse_x_matrix_authorization_header
      (build_authorization_header S reader env origin destination method_name target body (fkr_key_id key) secret) = Some c"
    unfolding build_authorization_header_def c_def
    using assms(7-10,12) origin base64_header_safe [OF assms(2)] by (intro header_read_back) (simp_all add: sig(3))
  have "fd_accepted (verify_signed_federation_request S reader env (received_request destination c method_name target body now) key)"
    using assms(4-7,11,12) sig(1) decoded verified
    by (auto simp: verify_signed_federation_request_def received_request_def c_def Let_def make_decision_def
      ed25519_verify_def ed25519_public_key_shape_is_valid_def ed25519_signature_shape_is_valid_def
      verify_federation_request_signature_def)
  with read show ?thesis by (auto simp: c_def)
qed

section \<open>What a signature binds\<close>

lemma serialize_float_free:
  "float_free v \<Longrightarrow> serialize_value env rf v = serialize_value env' rf' v"
  "list_all float_free xs \<Longrightarrow> serialize_array env rf xs = serialize_array env' rf' xs"
  "list_all (\<lambda>m. float_free (snd m)) ms \<Longrightarrow> serialize_object env rf ms = serialize_object env' rf' ms"
  by (induction env rf v and env rf xs and env rf ms rule: serialize_value_serialize_array_serialize_object.induct)
    (auto simp: list_all_iff split: sum.splits)

lemma serialize_canonical_float_free: "float_free v \<Longrightarrow> serialize_canonical env v = serialize_canonical_strict v"
  unfolding serialize_canonical_def serialize_canonical_strict_def by (rule serialize_float_free)

lemma parse_lossless_serializable:
  assumes "yyjson_documented reader" "parse_lossless reader input = Inr v"
  shows "serializable v"
proof -
  from assms obtain doc root where "reader True input = Inr doc"
    and "doc_root doc = Some root" and conv: "convert_yyjson_value root 0 = Inr v"
    by (auto simp: parse_lossless_def parse_document_Inr)
  with assms(1) have "raw_tree root" "utf8_tree root" by (auto simp: yyjson_documented_def)
  moreover from this conv have "root = tree_of v" "within_limits 0 v" by (simp_all add: convert_yyjson_value_Inr)
  ultimately show ?thesis using tree_serializable [of v 0] by simp
qed

definition request_object :: "Value option \<Rightarrow> string \<Rightarrow> string \<Rightarrow> string \<Rightarrow> string \<Rightarrow> Object" where
  "request_object content origin destination method_name uri =
     (case content of None \<Rightarrow> [] | Some v \<Rightarrow> [(''content'', v)])
     @ [(''destination'', VString destination), (''method'', VString method_name),
        (''origin'', VString origin), (''uri'', VString uri)]"

text \<open>What the body contributes: nothing when it is empty, its value when it parses.\<close>

definition body_content :: "YyjsonReader \<Rightarrow> string \<Rightarrow> Value option option" where
  "body_content reader body =
     (if body = [] then Some None
      else case parse_lossless reader body of Inl e \<Rightarrow> None | Inr v \<Rightarrow> Some (Some v))"

lemma payload_eq:
  "federation_request_payload reader env origin destination method_name uri body =
    (case body_content reader body of None \<Rightarrow> None
     | Some content \<Rightarrow>
         (case serialize_canonical env (VObject (request_object content origin destination method_name uri))
          of Inl e \<Rightarrow> None | Inr p \<Rightarrow> Some p))"
  by (simp add: federation_request_payload_def body_content_def request_object_def make_member_def Let_def split: sum.splits)

lemma payload_Some:
  assumes "yyjson_documented reader"
  shows "federation_request_payload reader env origin destination method_name uri body = Some p \<longleftrightarrow>
    (\<exists>content. body_content reader body = Some content
       \<and> serialize_canonical_strict (VObject (request_object content origin destination method_name uri)) = Inr p)"
proof -
  have "serialize_canonical env (VObject (request_object content origin destination method_name uri)) =
      serialize_canonical_strict (VObject (request_object content origin destination method_name uri))"
    if "body_content reader body = Some content" for content
  proof (rule serialize_canonical_float_free)
    have "float_free v" if "content = Some v" for v
      using that \<open>body_content reader body = Some content\<close> parse_lossless_serializable [OF assms, of body v]
        serializable_float_free [of v]
      by (auto simp: body_content_def split: if_splits sum.splits)
    then show "float_free (VObject (request_object content origin destination method_name uri))"
      by (cases content) (auto simp: request_object_def)
  qed
  then show ?thesis unfolding payload_eq by (auto split: option.splits sum.splits)
qed

lemma object_member_request_object:
  "object_member (request_object c o1 d1 m1 u1) ''content'' = c"
  "object_member (request_object c o1 d1 m1 u1) ''origin'' = Some (VString o1)"
  "object_member (request_object c o1 d1 m1 u1) ''destination'' = Some (VString d1)"
  "object_member (request_object c o1 d1 m1 u1) ''method'' = Some (VString m1)"
  "object_member (request_object c o1 d1 m1 u1) ''uri'' = Some (VString u1)"
  by (cases c; simp add: request_object_def object_member_def)+

lemma distinct_request_object: "distinct (map fst (request_object c o1 d1 m1 u1))"
  by (cases c) (simp_all add: request_object_def)

lemma request_object_canon:
  "canon (VObject (request_object c' o2 d2 m2 u2)) = canon (VObject (request_object c o1 d1 m1 u1)) \<longleftrightarrow>
    o2 = o1 \<and> d2 = d1 \<and> m2 = m1 \<and> u2 = u1 \<and> map_option canon c' = map_option canon c"
  (is "canon (VObject ?new) = canon (VObject ?old) \<longleftrightarrow> ?same")
proof
  assume "canon (VObject ?new) = canon (VObject ?old)"
  then have "map_option canon (object_member ?new k) = map_option canon (object_member ?old k)" for k
    using distinct_request_object by (intro object_member_same_form)
  from this [of "''content''"] this [of "''origin''"] this [of "''destination''"] this [of "''method''"] this [of "''uri''"]
  show ?same by (simp add: object_member_request_object)
next
  assume ?same
  then have "canon_members ?new = canon_members ?old"
    by (cases c; cases c') (auto simp: canon_members_def request_object_def)
  then show "canon (VObject ?new) = canon (VObject ?old)" using distinct_request_object by (intro canon_object_eqI) simp_all
qed

text \<open>
  C21: the signed bytes of a request identify it. Two requests have the same payload exactly when origin,
  destination, method and target agree and the bodies are both absent or parse to values that differ only
  in the order of object members. So a signature over one request serves for no other.
\<close>
theorem request_payload_identifies_request:
  assumes "yyjson_documented reader"
    and "federation_request_payload reader env origin destination method_name uri body = Some p"
  shows "federation_request_payload reader env origin' destination' method_name' uri' body' = Some p \<longleftrightarrow>
    origin' = origin \<and> destination' = destination \<and> method_name' = method_name \<and> uri' = uri
    \<and> body_content reader body' \<noteq> None
    \<and> map_option (map_option canon) (body_content reader body') = map_option (map_option canon) (body_content reader body)"
proof -
  from assms(2) obtain c where c: "body_content reader body = Some c"
    "serialize_canonical_strict (VObject (request_object c origin destination method_name uri)) = Inr p"
    unfolding payload_Some [OF assms(1)] by blast
  note same = request_object_canon canonical_json.bytes_identify [OF c(2)]
  show ?thesis unfolding payload_Some [OF assms(1)] same c(1) by auto
qed

section \<open>What an accepted event is\<close>

lemma envelope_members:
  assumes "parse_event_envelope js = Inr e"
  shows "\<exists>obj. js = VObject obj \<and> string_member obj ''sender'' = Some (sender e)
    \<and> room_id e = (case string_member obj ''room_id'' of None \<Rightarrow> [] | Some r \<Rightarrow> r)"
proof -
  from assms obtain obj where "js = VObject obj" "string_member obj ''sender'' = Some (sender e)"
    "case string_member obj ''room_id'' of Some r \<Rightarrow> r = room_id e \<and> matrix_id_is_valid r (CHR ''!'')
       | None \<Rightarrow> room_id e = [] \<and> event_type e = ''m.room.create''"
    unfolding parse_event_envelope_iff by blast
  then show ?thesis by (cases "string_member obj ''room_id''") auto
qed

lemma authorized_pdu_iff:
  "fd_accepted (authorize_federation_pdu S reader pdu key now_ts) \<longleftrightarrow>
     pdu_event_id pdu \<noteq> [] \<and> pdu_room_id pdu \<noteq> [] \<and> pdu_event_type pdu \<noteq> [] \<and> pdu_sender pdu \<noteq> []
     \<and> fst (verify_federation_event_signatures (pdu_signatures pdu) (sender_domain (pdu_sender pdu)))
     \<and> pdu_json pdu \<noteq> []
     \<and> (\<exists>k policy v. key = Some k \<and> fkr_server_name k = sender_domain (pdu_sender pdu)
          \<and> (now_ts = 0 \<or> valid_until_ts k = 0 \<or> now_ts \<le> valid_until_ts k)
          \<and> find_room_version_policy (if pdu_room_version pdu = [] then ''12'' else pdu_room_version pdu) = Some policy
          \<and> parse_lossless reader (pdu_json pdu) = Inr v
          \<and> fst (verify_event_signature S v policy \<lparr>sk_server_name = fkr_server_name k, sk_key_id = fkr_key_id k\<rparr>
                  (public_key_bytes k) (make_runtime_provider [])))"
  by (auto simp: authorize_federation_pdu_def Let_def make_decision_def split: option.splits sum.splits)

text \<open>
  C5: an event received from another server is accepted only when the server of its sender has signed
  it. If the text of an event is accepted with a key, the text parses to an object, the key belongs to
  the server named in its \<open>sender\<close> member and is not out of date, and the signature stored under that server and key
  verifies over the bytes of the event that the room version signs.
\<close>
theorem accepted_pdu_is_signed_by_sender:
  assumes "fd_accepted (authorize_federation_pdu S reader (parse_federation_pdu S reader encoded resolver) (Some key) now_ts)"
  shows "\<exists>obj sender_id policy sig payload.
      parse_lossless reader encoded = Inr (VObject obj) \<and> string_member obj ''sender'' = Some sender_id
      \<and> fkr_server_name key = user_id_server_name sender_id
      \<and> (now_ts = 0 \<or> valid_until_ts key = 0 \<or> now_ts \<le> valid_until_ts key)
      \<and> find_room_version_policy (case resolver of None \<Rightarrow> ''12''
           | Some resolve \<Rightarrow> resolve (case string_member obj ''room_id'' of None \<Rightarrow> [] | Some r \<Rightarrow> r)) = Some policy
      \<and> find_signature (VObject obj) \<lparr>sk_server_name = fkr_server_name key, sk_key_id = fkr_key_id key\<rparr> = Some sig
      \<and> make_event_signing_payload (VObject obj) policy = Inr payload
      \<and> crypto_sign_verify_detached S (matrix_bytes_from_base64 S sig) payload (public_key_bytes key)"
proof -
  let ?pdu = "parse_federation_pdu S reader encoded resolver"
  from assms obtain policy v where pdu: "pdu_json ?pdu \<noteq> []" "fkr_server_name key = sender_domain (pdu_sender ?pdu)"
      "now_ts = 0 \<or> valid_until_ts key = 0 \<or> now_ts \<le> valid_until_ts key"
      "parse_lossless reader (pdu_json ?pdu) = Inr v"
      "find_room_version_policy (if pdu_room_version ?pdu = [] then ''12'' else pdu_room_version ?pdu) = Some policy"
    and signed: "fst (verify_event_signature S v policy \<lparr>sk_server_name = fkr_server_name key, sk_key_id = fkr_key_id key\<rparr>
        (public_key_bytes key) (make_runtime_provider []))"
    unfolding authorized_pdu_iff by auto
  from pdu(1) obtain parsed event policy' where event: "parse_lossless reader encoded = Inr parsed"
      "parse_event_envelope parsed = Inr event" "pdu_sender ?pdu = sender event" "pdu_json ?pdu = encoded"
      "pdu_room_version ?pdu = (case resolver of None \<Rightarrow> ''12'' | Some resolve \<Rightarrow> resolve (room_id event))"
      "find_room_version_policy (pdu_room_version ?pdu) = Some policy'"
    by (auto simp: parse_federation_pdu_def empty_pdu_def Let_def split: if_splits sum.splits option.splits)
  then obtain obj where obj: "v = VObject obj" "string_member obj ''sender'' = Some (sender event)"
      "room_id event = (case string_member obj ''room_id'' of None \<Rightarrow> [] | Some r \<Rightarrow> r)"
    using pdu(4) envelope_members [OF event(2)] by auto
  have "find_room_version_policy [] = None" by code_simp
  then have version: "find_room_version_policy (pdu_room_version ?pdu) = Some policy"
    using pdu(5) event(6) by (auto split: if_splits)
  then have policy: "find_room_version_policy (case resolver of None \<Rightarrow> ''12''
      | Some resolve \<Rightarrow> resolve (case string_member obj ''room_id'' of None \<Rightarrow> [] | Some r \<Rightarrow> r)) = Some policy"
    unfolding event(5) obj(3) .
  from signed obtain sig payload where
    "find_signature v \<lparr>sk_server_name = fkr_server_name key, sk_key_id = fkr_key_id key\<rparr> = Some sig"
    "make_event_signing_payload v policy = Inr payload"
    "crypto_sign_verify_detached S (matrix_bytes_from_base64 S sig) payload (public_key_bytes key)"
    unfolding verify_event_signature_True provider_verify_def ed25519_verify_def by (auto simp: Let_def split: if_splits)
  then show ?thesis using pdu(2-4) event(1,3,4) obj(1,2) policy
    by (intro exI [of _ obj] exI [of _ "sender event"] exI [of _ policy] exI [of _ sig] exI [of _ payload])
      (simp add: sender_domain_def)
qed

section \<open>Concrete messages\<close>

definition sample_key :: FederationKeyRecord where
  "sample_key = \<lparr>fkr_server_name = ''a.org'', fkr_key_id = ''ed25519:1'', valid_until_ts = 0,
     public_key_bytes = replicate 32 (CHR ''p'')\<rparr>"

lemma sample_base64_alphabet: "base64_alphabet sample_sodium"
proof -
  have "base64_char x" if "65 \<le> byte x" "byte x \<le> 80" for x
    using that by (simp add: base64_char_def less_eq_char_def)
  then show ?thesis
    unfolding base64_alphabet_def sample_sodium_def list_all_iff using letter_pair_chars by auto
qed

lemma null_reader_documented: "yyjson_documented null_reader"
  by (auto simp: yyjson_documented_def null_reader_def split: if_splits)

theorem signed_request_verifies_witness:
  "\<exists>c. parse_x_matrix_authorization_header
        (build_authorization_header sample_sodium null_reader no_numeric_env ''a.org'' ''b.org'' ''PUT'' ''/x'' ''null''
           ''ed25519:1'' sample_secret) = Some c
      \<and> xm_origin c = ''a.org'' \<and> xm_destination c = ''b.org'' \<and> xm_key_id c = ''ed25519:1''
      \<and> fd_accepted (verify_signed_federation_request sample_sodium null_reader no_numeric_env
           (received_request ''b.org'' c ''PUT'' ''/x'' ''null'' 5) sample_key)"
proof -
  have "server_name_is_valid ''a.org''" "header_safe ''a.org''" "header_safe ''b.org''" "header_safe ''ed25519:1''"
    "make_federation_signature sample_sodium null_reader no_numeric_env ''a.org'' ''b.org'' ''PUT'' ''/x'' ''null'' sample_secret \<noteq> []"
    by code_simp+
  then show ?thesis
    using signed_request_verifies [OF sample_sodium_documented sample_base64_alphabet sample_sodium_keypair,
      of sample_key "''a.org''" "''b.org''" 5 null_reader no_numeric_env "''PUT''" "''/x''" "''null''" sample_secret]
    by (simp add: sample_key_def)
qed

theorem request_payload_identifies_request_witness:
  "federation_request_payload null_reader no_numeric_env ''a.org'' ''b.org'' ''GET'' ''/x'' [] \<noteq> None
   \<and> federation_request_payload null_reader no_numeric_env ''a.org'' ''c.org'' ''GET'' ''/x'' []
     \<noteq> federation_request_payload null_reader no_numeric_env ''a.org'' ''b.org'' ''GET'' ''/x'' []
   \<and> federation_request_payload null_reader no_numeric_env ''a.org'' ''b.org'' ''GET'' ''/x'' ''null''
     \<noteq> federation_request_payload null_reader no_numeric_env ''a.org'' ''b.org'' ''GET'' ''/x'' []"
proof -
  let ?payload = "federation_request_payload null_reader no_numeric_env ''a.org'' ''b.org'' ''GET'' ''/x'' []"
  have "?payload \<noteq> None" by code_simp
  then obtain p where p: "?payload = Some p" by blast
  have "body_content null_reader [] = Some None" "body_content null_reader ''null'' = Some (Some VNull)" by code_simp+
  then have "federation_request_payload null_reader no_numeric_env ''a.org'' ''c.org'' ''GET'' ''/x'' [] \<noteq> Some p"
    "federation_request_payload null_reader no_numeric_env ''a.org'' ''b.org'' ''GET'' ''/x'' ''null'' \<noteq> Some p"
    unfolding request_payload_identifies_request [OF null_reader_documented p] by simp_all
  then show ?thesis unfolding p by simp
qed

definition sample_event_tree :: YyjsonValue where
  "sample_event_tree = YObject
     [(''type'', YString ''m.room.message''), (''sender'', YString ''@u:a.org''), (''room_id'', YString ''!r:a.org''),
      (''origin_server_ts'', YRaw ''1''), (''content'', YObject []),
      (''signatures'', YObject [(''a.org'', YObject
         [(''ed25519:1'', YString (concat (map letter_pair (replicate 64 (CHR ''s'')))))])])]"

definition event_reader :: YyjsonReader where
  "event_reader raw input =
     (if input = ''{event}'' then Inr \<lparr>doc_root = Some sample_event_tree, dat_read = 7\<rparr> else Inl ERROR_LITERAL)"

theorem accepted_pdu_is_signed_by_sender_witness:
  "\<exists>obj policy sig payload.
      parse_lossless event_reader ''{event}'' = Inr (VObject obj)
      \<and> find_room_version_policy ''12'' = Some policy
      \<and> find_signature (VObject obj) \<lparr>sk_server_name = ''a.org'', sk_key_id = ''ed25519:1''\<rparr> = Some sig
      \<and> make_event_signing_payload (VObject obj) policy = Inr payload
      \<and> crypto_sign_verify_detached sample_sodium (matrix_bytes_from_base64 sample_sodium sig) payload (replicate 32 (CHR ''p''))"
proof -
  have "fd_accepted (authorize_federation_pdu sample_sodium event_reader
      (parse_federation_pdu sample_sodium event_reader ''{event}'' None) (Some sample_key) 5)"
    by code_simp
  from accepted_pdu_is_signed_by_sender [OF this] show ?thesis by (auto simp: sample_key_def)
qed

end
