(* ===== verification/Inbound_Gate.thy ===== *)
theory Inbound_Gate
  imports Request_Auth Federation_Routes
begin

text \<open>
  The gate in front of inbound federation: resolution of the remote's key with its budgets, the policies
  and the signature check of \<open>src/federation/inbound_request.cpp\<close>, with the server policy of
  \<open>src/federation/runtime_federation.cpp\<close>. The steady clock is an argument of each operation, its epoch the default time point; the
  key resolver and the probe of the key cache, which reach the network and the database, are arguments
  too. The locks make each operation on the bookkeeping atomic; the resolver runs outside
  them, so its start and its end are separate steps of \<open>resolution_step\<close>. Log output is left out.

  Shown: what an accepted request has passed; what the budgets bound; and two ways in which the gate fails
  its purpose.
\<close>

section \<open>State\<close>

record FederationRemoteRuntime =
  remote_name :: string
  remote_trust :: RemoteTrustState
  remote_signing_key :: FederationKeyRecord
  remote_discovery :: RemoteServerRecord

record KeyResolutionBucket =
  bucket_source :: string
  resolutions_seen :: nat
  bucket_window_start :: nat

record KeyResolutionFailure =
  failure_origin :: string
  failure_key_id :: string
  failure_expires_at :: nat

datatype AuditCategory = category_auth | category_key_lifecycle | category_policy | category_moderation | category_admin

record AuditLogEvent =
  audit_category :: AuditCategory
  audit_type :: string
  audit_actor_name :: string
  audit_target :: string
  audit_reason_code :: string
  audit_request_id :: string

record RuntimeFederationConfig =
  federation_enabled :: bool
  default_policy :: string
  allowed_servers :: "string list"
  denied_servers :: "string list"
  key_resolution_per_ip_rate :: RateLimitPolicy
  key_resolution_max_in_flight :: nat
  key_resolution_failure_ttl_seconds :: nat

record FederationRuntimeState =
  rt_config :: RuntimeFederationConfig
  rt_remotes :: "FederationRemoteRuntime list"
  rt_audit_events :: "AuditLogEvent list"
  rt_unsafe_audit_events :: nat
  rt_key_buckets :: "KeyResolutionBucket list"
  rt_key_failures :: "KeyResolutionFailure list"
  rt_in_flight :: nat

record FederationResponse =
  response_status :: nat
  response_body :: string
  response_content_type :: string

abbreviation respond :: "nat \<Rightarrow> string \<Rightarrow> FederationResponse" where
  "respond status body \<equiv> \<lparr>response_status = status, response_body = body, response_content_type = []\<rparr>"

type_synonym RemoteKeyResolver = "string \<Rightarrow> string \<Rightarrow> FederationRemoteRuntime option"
type_synonym RemoteKeyCacheProbe = "string \<Rightarrow> string \<Rightarrow> bool"

text \<open>
  The configuration and the state have the fields that the gate reads and writes. Time points count nanoseconds.\<close>

definition clock_seconds :: "nat \<Rightarrow> nat" where
  "clock_seconds s = s * 1000000000"

section \<open>Server policy\<close>

definition contains_server :: "string list \<Rightarrow> string \<Rightarrow> bool" where
  "contains_server servers name = list_ex (\<lambda>server. server = name) servers"

definition federation_server_policy :: "RuntimeFederationConfig \<Rightarrow> string \<Rightarrow> bool \<times> string" where
  "federation_server_policy config name =
     (if \<not> federation_enabled config then (False, ''federation disabled'')
      else if name = [] then (False, ''remote server name is empty'')
      else if contains_server (denied_servers config) name then (False, ''remote server is denied'')
      else if default_policy config = ''deny'' \<and> \<not> contains_server (allowed_servers config) name
      then (False, ''remote server is not in federation allow list'')
      else (True, []))"

section \<open>Remotes\<close>

definition find_remote :: "FederationRuntimeState \<Rightarrow> string \<Rightarrow> FederationRemoteRuntime option" where
  "find_remote rt name = find (\<lambda>remote. remote_name remote = name) (rt_remotes rt)"

definition remote_snapshot :: "FederationRuntimeState \<Rightarrow> string \<Rightarrow> FederationRemoteRuntime option" where
  "remote_snapshot rt name = find_remote rt name"

text \<open>Assignment to the entry that \<^const>\<open>find_remote\<close> points to.\<close>

fun update_remote :: "string \<Rightarrow> (FederationRemoteRuntime \<Rightarrow> FederationRemoteRuntime) \<Rightarrow> FederationRemoteRuntime list
  \<Rightarrow> FederationRemoteRuntime list" where
  "update_remote name f [] = []"
| "update_remote name f (r # rs) = (if remote_name r = name then f r # rs else r # update_remote name f rs)"

definition persist_remote_trust :: "FederationRuntimeState \<Rightarrow> FederationRemoteRuntime \<Rightarrow> FederationRuntimeState" where
  "persist_remote_trust rt remote =
     rt\<lparr>rt_remotes := update_remote (remote_name remote) (\<lambda>r. r\<lparr>remote_trust := remote_trust remote\<rparr>) (rt_remotes rt)\<rparr>"

definition persist_remote_signing_key :: "FederationRuntimeState \<Rightarrow> FederationRemoteRuntime \<Rightarrow> FederationRuntimeState" where
  "persist_remote_signing_key rt remote =
     rt\<lparr>rt_remotes := update_remote (remote_name remote)
          (\<lambda>r. r\<lparr>remote_signing_key := remote_signing_key remote\<rparr>) (rt_remotes rt)\<rparr>"

definition upsert_remote :: "FederationRuntimeState \<Rightarrow> FederationRemoteRuntime \<Rightarrow> FederationRuntimeState" where
  "upsert_remote rt remote =
     (if find_remote rt (remote_name remote) \<noteq> None
      then rt\<lparr>rt_remotes := update_remote (remote_name remote) (\<lambda>r. remote) (rt_remotes rt)\<rparr>
      else rt\<lparr>rt_remotes := rt_remotes rt @ [remote]\<rparr>)"

section \<open>Audit ring\<close>

definition kMaxAuditEvents :: nat where
  "kMaxAuditEvents = 10000"

definition audit_reason_is_unsafe :: "string \<Rightarrow> bool" where
  "audit_reason_is_unsafe r \<longleftrightarrow> find_text r ''sig:v1:'' 0 \<noteq> None \<or> find_text r ''verify_token'' 0 \<noteq> None"

definition audit_federation ::
  "FederationRuntimeState \<Rightarrow> string \<Rightarrow> string \<Rightarrow> string \<Rightarrow> string \<Rightarrow> FederationRuntimeState" where
  "audit_federation rt event_kind origin target r =
     (let rt1 = (if length (rt_audit_events rt) \<ge> kMaxAuditEvents
                 then rt\<lparr>rt_unsafe_audit_events :=
                            (if audit_reason_is_unsafe (audit_reason_code (hd (rt_audit_events rt)))
                                \<and> rt_unsafe_audit_events rt > 0
                             then rt_unsafe_audit_events rt - 1 else rt_unsafe_audit_events rt),
                          rt_audit_events := tl (rt_audit_events rt)\<rparr>
                 else rt);
          rt2 = (if audit_reason_is_unsafe r then rt1\<lparr>rt_unsafe_audit_events := rt_unsafe_audit_events rt1 + 1\<rparr> else rt1)
      in rt2\<lparr>rt_audit_events := rt_audit_events rt2 @
              [\<lparr>audit_category = category_policy, audit_type = event_kind, audit_actor_name = origin, audit_target = target, audit_reason_code = r,
                audit_request_id = ''federation''\<rparr>]\<rparr>)"

definition federation_audit_is_safe :: "FederationRuntimeState \<Rightarrow> bool" where
  "federation_audit_is_safe rt \<longleftrightarrow> rt_unsafe_audit_events rt = 0"

section \<open>Budget of key resolutions\<close>

definition kMaxKeyResolutionBuckets :: nat where
  "kMaxKeyResolutionBuckets = 4096"

definition kMaxKeyResolutionFailures :: nat where
  "kMaxKeyResolutionFailures = 4096"

definition expire_key_resolution_failures :: "FederationRuntimeState \<Rightarrow> nat \<Rightarrow> FederationRuntimeState" where
  "expire_key_resolution_failures rt now =
     rt\<lparr>rt_key_failures := dropWhile (\<lambda>f. failure_expires_at f \<le> now) (rt_key_failures rt)\<rparr>"

definition key_resolution_recently_failed ::
  "FederationRuntimeState \<Rightarrow> string \<Rightarrow> string \<Rightarrow> nat \<Rightarrow> bool \<times> FederationRuntimeState" where
  "key_resolution_recently_failed rt origin key now =
     (let rt' = expire_key_resolution_failures rt now
      in (list_ex (\<lambda>f. failure_origin f = origin \<and> failure_key_id f = key \<and> failure_expires_at f > now)
            (rt_key_failures rt'), rt'))"

definition remember_key_resolution_failure ::
  "FederationRuntimeState \<Rightarrow> string \<Rightarrow> string \<Rightarrow> nat \<Rightarrow> FederationRuntimeState" where
  "remember_key_resolution_failure rt origin key now =
     (let ttl = key_resolution_failure_ttl_seconds (rt_config rt)
      in if ttl = 0 then rt
         else let rt1 = expire_key_resolution_failures rt now;
                  kept = (if length (rt_key_failures rt1) \<ge> kMaxKeyResolutionFailures
                          then tl (rt_key_failures rt1) else rt_key_failures rt1)
              in rt1\<lparr>rt_key_failures := kept @
                   [\<lparr>failure_origin = origin, failure_key_id = key, failure_expires_at = now + clock_seconds ttl\<rparr>]\<rparr>)"

text \<open>The bucket of a source after the window check, with the other buckets in place.\<close>

definition open_bucket :: "nat \<Rightarrow> nat \<Rightarrow> KeyResolutionBucket \<Rightarrow> KeyResolutionBucket" where
  "open_bucket window now b =
     (if bucket_window_start b = 0 \<or> now - bucket_window_start b \<ge> clock_seconds window
      then b\<lparr>resolutions_seen := 0, bucket_window_start := now\<rparr> else b)"

fun update_bucket :: "string \<Rightarrow> (KeyResolutionBucket \<Rightarrow> KeyResolutionBucket) \<Rightarrow> KeyResolutionBucket list
  \<Rightarrow> KeyResolutionBucket list" where
  "update_bucket source f [] = []"
| "update_bucket source f (b # bs) = (if bucket_source b = source then f b # bs else b # update_bucket source f bs)"

definition admit_key_resolution ::
  "FederationRuntimeState \<Rightarrow> string \<Rightarrow> string \<Rightarrow> string \<Rightarrow> nat \<Rightarrow> (bool \<times> string) \<times> FederationRuntimeState" where
  "admit_key_resolution rt source origin key now =
     (let policy = key_resolution_per_ip_rate (rt_config rt)
      in if \<not> rate_limit_policy_is_valid policy then ((False, ''invalid key-resolution rate-limit policy''), rt)
         else if \<not> server_name_is_valid origin then ((False, ''origin is not a valid server name''), rt)
         else if key = [] \<or> length key > 255 then ((False, ''key id is missing or oversized''), rt)
         else let (failed, rt1) = key_resolution_recently_failed rt origin key now
           in if failed then ((False, ''key resolution for this origin and key id recently failed''), rt1)
              else if rt_in_flight rt1 \<ge> key_resolution_max_in_flight (rt_config rt1)
              then ((False, ''too many key resolutions in flight''), rt1)
              else let who = (if source = [] then ''<unknown>'' else source);
                       buckets = (if list_ex (\<lambda>b. bucket_source b = who) (rt_key_buckets rt1) then rt_key_buckets rt1
                                  else (if length (rt_key_buckets rt1) \<ge> kMaxKeyResolutionBuckets
                                        then tl (rt_key_buckets rt1) else rt_key_buckets rt1)
                                       @ [\<lparr>bucket_source = who, resolutions_seen = 0, bucket_window_start = now\<rparr>]);
                       opened = update_bucket who (open_bucket (window_seconds policy) now) buckets;
                       seen = (case find (\<lambda>b. bucket_source b = who) opened of
                                 Some b \<Rightarrow> resolutions_seen b | None \<Rightarrow> 0)
                in if seen \<ge> max_requests policy
                   then ((False, ''key resolution rate exceeded for source''), rt1\<lparr>rt_key_buckets := opened\<rparr>)
                   else ((True, []),
                         rt1\<lparr>rt_key_buckets := update_bucket who (\<lambda>b. b\<lparr>resolutions_seen := resolutions_seen b + 1\<rparr>) opened,
                             rt_in_flight := rt_in_flight rt1 + 1\<rparr>))"

definition release_key_resolution :: "FederationRuntimeState \<Rightarrow> FederationRuntimeState" where
  "release_key_resolution rt = (if rt_in_flight rt > 0 then rt\<lparr>rt_in_flight := rt_in_flight rt - 1\<rparr> else rt)"

definition key_resolution_is_cache_served ::
  "RemoteKeyCacheProbe option \<Rightarrow> string \<Rightarrow> string \<Rightarrow> bool" where
  "key_resolution_is_cache_served probe origin key = (case probe of None \<Rightarrow> False | Some p \<Rightarrow> p origin key)"

text \<open>The admission in front of a call of the resolver; a call the cache serves is not charged.\<close>

definition begin_key_resolution ::
  "RemoteKeyCacheProbe option \<Rightarrow> FederationRuntimeState \<Rightarrow> SignedFederationRequest \<Rightarrow> nat
    \<Rightarrow> (bool \<times> string) \<times> FederationRuntimeState" where
  "begin_key_resolution probe rt request now =
     (if key_resolution_is_cache_served probe (sfr_origin request) (sfr_key_id request) then ((True, []), rt)
      else admit_key_resolution rt (sfr_remote_addr request) (sfr_origin request) (sfr_key_id request) now)"


section \<open>The gate\<close>

type_synonym InboundResolveOutcome = "FederationResponse + FederationRouteMatch \<times> FederationRemoteRuntime"

record GateEnv =
  gate_inet :: Inet
  gate_sodium :: Sodium
  gate_reader :: YyjsonReader
  gate_numeric :: NumericEnv
  gate_resolver :: "RemoteKeyResolver option"
  gate_probe :: "RemoteKeyCacheProbe option"

definition reject_audited ::
  "FederationRuntimeState \<Rightarrow> SignedFederationRequest \<Rightarrow> nat \<Rightarrow> string \<Rightarrow> (FederationResponse + 'a) \<times> FederationRuntimeState" where
  "reject_audited rt request status r =
     (Inl (respond status r), audit_federation rt ''federation.rejected'' (sfr_origin request) (sfr_target request) r)"

definition complete_resolved :: "string \<Rightarrow> FederationRemoteRuntime \<Rightarrow> FederationRemoteRuntime" where
  "complete_resolved origin resolved =
     (let named = (if remote_name resolved = [] then resolved\<lparr>remote_name := origin\<rparr> else resolved)
      in if reputation_score (remote_trust named) = 0
         then named\<lparr>remote_trust := (remote_trust named)\<lparr>reputation_score := 100\<rparr>\<rparr> else named)"

text \<open>An unknown remote is looked up; the slot is released at the end of the block.\<close>

definition resolve_unknown_remote ::
  "GateEnv \<Rightarrow> FederationRuntimeState \<Rightarrow> SignedFederationRequest \<Rightarrow> nat
    \<Rightarrow> (FederationResponse + FederationRemoteRuntime) \<times> FederationRuntimeState" where
  "resolve_unknown_remote genv rt request now =
     (case remote_snapshot rt (sfr_origin request) of
        Some remote \<Rightarrow> (Inr remote, rt)
      | None \<Rightarrow>
          (case gate_resolver genv of
             None \<Rightarrow> reject_audited rt request 403 ''remote is unknown''
           | Some resolve \<Rightarrow>
               (let (admission, rt1) = begin_key_resolution (gate_probe genv) rt request now
                in if \<not> fst admission then reject_audited rt1 request 429 (snd admission)
                   else case resolve (sfr_origin request) (sfr_key_id request) of
                     None \<Rightarrow>
                       (let rt2 = remember_key_resolution_failure rt1 (sfr_origin request) (sfr_key_id request) now
                        in reject_audited (release_key_resolution rt2) request 403 ''remote is unknown'')
                   | Some resolved \<Rightarrow>
                       (let rt2 = upsert_remote rt1 (complete_resolved (sfr_origin request) resolved);
                            rt3 = release_key_resolution rt2
                        in case remote_snapshot rt2 (sfr_origin request) of
                             None \<Rightarrow> reject_audited rt3 request 403 ''remote is unknown''
                           | Some remote \<Rightarrow> (Inr remote, rt3)))))"

text \<open>A known remote whose key does not fit is refreshed before the stored record is used.\<close>

definition refresh_remote_key ::
  "GateEnv \<Rightarrow> FederationRuntimeState \<Rightarrow> SignedFederationRequest \<Rightarrow> FederationRemoteRuntime \<Rightarrow> nat
    \<Rightarrow> (FederationResponse + FederationRemoteRuntime) \<times> FederationRuntimeState" where
  "refresh_remote_key genv rt request remote now =
     (let cached_key_id_mismatches = fkr_key_id (remote_signing_key remote) \<noteq> sfr_key_id request;
          cached_key_expired = valid_until_ts (remote_signing_key remote) \<noteq> 0
            \<and> sfr_now_ts request \<ge> valid_until_ts (remote_signing_key remote)
      in case gate_resolver genv of
           None \<Rightarrow> (Inr remote, rt)
         | Some resolve \<Rightarrow>
             if \<not> (cached_key_id_mismatches \<or> cached_key_expired) then (Inr remote, rt)
             else let (admission, rt1) = begin_key_resolution (gate_probe genv) rt request now
               in if \<not> fst admission then (Inl (respond 429 (snd admission)), rt1)
                  else case resolve (sfr_origin request) (sfr_key_id request) of
                    None \<Rightarrow> (Inr remote, release_key_resolution rt1)
                  | Some refreshed \<Rightarrow>
                      if public_key_bytes (remote_signing_key refreshed) = [] then (Inr remote, release_key_resolution rt1)
                      else let remote' = remote\<lparr>remote_signing_key := remote_signing_key refreshed\<rparr>
                        in (Inr remote', release_key_resolution (persist_remote_signing_key rt1 remote')))"

definition check_remote_policies ::
  "GateEnv \<Rightarrow> FederationRuntimeState \<Rightarrow> SignedFederationRequest \<Rightarrow> FederationRouteMatch \<Rightarrow> FederationRemoteRuntime
    \<Rightarrow> InboundResolveOutcome \<times> FederationRuntimeState" where
  "check_remote_policies genv rt request route_match remote =
     (let discovery = federation_discovery_policy (gate_inet genv) (remote_discovery remote);
          trust = remote_trust_policy (remote_trust remote)
      in if \<not> fst discovery then reject_audited rt request 403 (snd discovery)
         else if \<not> trust_accepted trust
         then reject_audited rt request (if apply_backoff trust then 429 else 403) (trust_reason trust)
         else (Inr (route_match, remote), rt))"

definition resolve_inbound_remote ::
  "GateEnv \<Rightarrow> FederationRuntimeState \<Rightarrow> SignedFederationRequest \<Rightarrow> nat \<Rightarrow> InboundResolveOutcome \<times> FederationRuntimeState" where
  "resolve_inbound_remote genv rt request now =
     (let route_match = match_federation_route (sfr_method request) (sfr_target request);
          server_policy = federation_server_policy (rt_config rt) (sfr_origin request)
      in if \<not> matched route_match then (Inl (respond 404 (match_reason route_match)), rt)
         else if \<not> fst server_policy then reject_audited rt request 403 (snd server_policy)
         else case resolve_unknown_remote genv rt request now of
           (Inl e, rt1) \<Rightarrow> (Inl e, rt1)
         | (Inr remote, rt1) \<Rightarrow>
             (case refresh_remote_key genv rt1 request remote now of
                (Inl e, rt2) \<Rightarrow> (Inl e, rt2)
              | (Inr remote', rt2) \<Rightarrow> check_remote_policies genv rt2 request route_match remote'))"

definition check_inbound_request_signature ::
  "GateEnv \<Rightarrow> FederationRuntimeState \<Rightarrow> SignedFederationRequest \<Rightarrow> FederationRemoteRuntime
    \<Rightarrow> FederationResponse option \<times> FederationRuntimeState" where
  "check_inbound_request_signature genv rt request remote =
     (let request_signature = verify_signed_federation_request (gate_sodium genv) (gate_reader genv) (gate_numeric genv)
            request (remote_signing_key remote)
      in if \<not> fd_accepted request_signature then
           (let trust = remote_trust remote;
                remote' = remote\<lparr>remote_trust := trust\<lparr>consecutive_failures := consecutive_failures trust + 1\<rparr>\<rparr>;
                rt1 = persist_remote_trust rt remote'
            in (Some (respond (fd_status request_signature) (fd_reason request_signature)),
                audit_federation rt1 ''federation.rejected'' (sfr_origin request) (sfr_target request)
                  (fd_reason request_signature)))
         else (None, rt))"

text \<open>The identity of the peer, its name and the id of its key, or the response to the peer.\<close>

definition verify_inbound_federation_signature ::
  "GateEnv \<Rightarrow> FederationRuntimeState \<Rightarrow> SignedFederationRequest \<Rightarrow> nat
    \<Rightarrow> (FederationResponse + string \<times> string) \<times> FederationRuntimeState" where
  "verify_inbound_federation_signature genv rt request now =
     (case resolve_inbound_remote genv rt request now of
        (Inl e, rt1) \<Rightarrow> (Inl e, rt1)
      | (Inr (route_match, remote), rt1) \<Rightarrow>
          (case check_inbound_request_signature genv rt1 request remote of
             (Some rejection, rt2) \<Rightarrow> (Inl rejection, rt2)
           | (None, rt2) \<Rightarrow> (Inr (sfr_origin request, sfr_key_id request), rt2)))"

section \<open>What an accepted request has passed\<close>

lemma verified_request:
  assumes "fd_accepted (verify_signed_federation_request S reader env request key)"
  shows "sfr_origin request = fkr_server_name key \<and> sfr_key_id request = fkr_key_id key
    \<and> (valid_until_ts key = 0 \<or> sfr_now_ts request \<le> valid_until_ts key)
    \<and> (\<exists>payload. federation_request_payload reader env (sfr_origin request) (sfr_destination request)
             (sfr_method request) (sfr_target request) (sfr_body request) = Some payload
         \<and> crypto_sign_verify_detached S (matrix_bytes_from_base64 S (sfr_signature request)) payload (public_key_bytes key))"
  using assms
  by (auto simp: verify_signed_federation_request_def Let_def make_decision_def ed25519_verify_def split: if_splits)

lemma reject_audited_fst [simp]: "fst (reject_audited rt request status r) = Inl (respond status r)"
  by (simp add: reject_audited_def)

lemma resolved_passed:
  assumes "fst (resolve_inbound_remote genv rt request now) = Inr found"
  shows "matched (match_federation_route (sfr_method request) (sfr_target request))
    \<and> fst (federation_server_policy (rt_config rt) (sfr_origin request))"
  using assms by (auto simp: resolve_inbound_remote_def Let_def split: if_splits)


section \<open>What a forged request can do\<close>

definition locked_out :: "FederationRuntimeState \<Rightarrow> string \<Rightarrow> bool" where
  "locked_out rt origin \<longleftrightarrow>
     (\<exists>remote. remote_snapshot rt origin = Some remote \<and> consecutive_failures (remote_trust remote) \<ge> 3)"

fun gate_answers :: "GateEnv \<Rightarrow> FederationRuntimeState \<Rightarrow> (SignedFederationRequest \<times> nat) list
  \<Rightarrow> (FederationResponse + string \<times> string) list" where
  "gate_answers genv rt [] = []"
| "gate_answers genv rt ((request, now) # rest) =
     (case verify_inbound_federation_signature genv rt request now of
        (answer, rt') \<Rightarrow> answer # gate_answers genv rt' rest)"

lemma find_update_remote:
  assumes "\<And>r. remote_name (f r) = remote_name r"
  shows "find (\<lambda>r. remote_name r = name) (update_remote other f rs) =
    (if name = other then map_option f (find (\<lambda>r. remote_name r = name) rs) else find (\<lambda>r. remote_name r = name) rs)"
  using assms by (induction rs) auto

lemma snapshot_name: "remote_snapshot rt origin = Some remote \<Longrightarrow> remote_name remote = origin"
  by (auto simp: remote_snapshot_def find_remote_def find_Some_iff)

lemma bookkeeping_keeps_remotes [simp]:
  "rt_remotes (audit_federation rt event_kind origin target r) = rt_remotes rt"
  "rt_remotes (release_key_resolution rt) = rt_remotes rt"
  "rt_remotes (snd (admit_key_resolution rt source origin key now)) = rt_remotes rt"
  "rt_remotes (snd (begin_key_resolution probe rt request now)) = rt_remotes rt"
  by (simp_all add: audit_federation_def release_key_resolution_def admit_key_resolution_def begin_key_resolution_def
    key_resolution_recently_failed_def expire_key_resolution_failures_def Let_def)

lemma snapshot_cong: "rt_remotes rt = rt_remotes rt' \<Longrightarrow> remote_snapshot rt origin = remote_snapshot rt' origin"
  by (simp add: remote_snapshot_def find_remote_def)

lemma refresh_keeps_trust:
  assumes "remote_snapshot rt origin = Some remote" "refresh_remote_key genv rt request remote now = (outcome, rt')"
  shows "\<exists>remote'. remote_snapshot rt' origin = Some remote' \<and> remote_trust remote' = remote_trust remote"
    and "outcome = Inr fresh \<Longrightarrow> remote_trust fresh = remote_trust remote"
proof -
  have name: "remote_name remote = origin" using assms(1) by (rule snapshot_name)
  have kept: "remote_snapshot rt1 origin = Some remote" if "rt_remotes rt1 = rt_remotes rt" for rt1
    using snapshot_cong [OF that] assms(1) by simp
  have persisted: "remote_snapshot (release_key_resolution (persist_remote_signing_key rt1 (remote\<lparr>remote_signing_key := key\<rparr>))) origin
      = Some (remote\<lparr>remote_signing_key := key\<rparr>)" if "rt_remotes rt1 = rt_remotes rt" for rt1 key
    using kept [OF that] name
    by (simp add: remote_snapshot_def find_remote_def persist_remote_signing_key_def find_update_remote)
  obtain admission rt1 where begun: "begin_key_resolution (gate_probe genv) rt request now = (admission, rt1)"
    by (rule prod.exhaust)
  then have remotes: "rt_remotes rt1 = rt_remotes rt" by (metis bookkeeping_keeps_remotes(4) snd_conv)
  note parts = assms(2) [unfolded refresh_remote_key_def Let_def begun]
  show "\<exists>remote'. remote_snapshot rt' origin = Some remote' \<and> remote_trust remote' = remote_trust remote"
    using parts kept [OF refl] kept [OF remotes] persisted [OF remotes] remotes kept [of "release_key_resolution rt1"]
    by (auto split: option.splits if_splits)
  show "outcome = Inr fresh \<Longrightarrow> remote_trust fresh = remote_trust remote"
    using parts by (auto split: option.splits if_splits)
qed

lemma locked_out_stays:
  assumes "locked_out rt origin" "sfr_origin request = origin"
    and "verify_inbound_federation_signature genv rt request now = (answer, rt')"
  shows "isl answer \<and> locked_out rt' origin"
proof -
  obtain remote where remote: "remote_snapshot rt origin = Some remote" "consecutive_failures (remote_trust remote) \<ge> 3"
    using assms(1) unfolding locked_out_def by blast
  have known: "resolve_unknown_remote genv rt request now = (Inr remote, rt)"
    using remote(1) assms(2) by (simp add: resolve_unknown_remote_def)
  obtain outcome rt1 where refreshed: "refresh_remote_key genv rt request remote now = (outcome, rt1)" by (rule prod.exhaust)
  note trust = refresh_keeps_trust [OF remote(1) refreshed]
  have locked: "locked_out rt2 origin" if "rt_remotes rt2 = rt_remotes rt \<or> rt_remotes rt2 = rt_remotes rt1" for rt2
    using that trust(1) remote snapshot_cong [of rt2 rt origin] snapshot_cong [of rt2 rt1 origin]
    unfolding locked_out_def by auto
  have "\<exists>e rt2. resolve_inbound_remote genv rt request now = (Inl e, rt2) \<and> (rt_remotes rt2 = rt_remotes rt \<or> rt_remotes rt2 = rt_remotes rt1)"
    using trust(2) remote(2)
    by (auto simp: resolve_inbound_remote_def Let_def known refreshed reject_audited_def check_remote_policies_def
      remote_trust_policy_def split: sum.splits)
  then show ?thesis using assms(3) locked unfolding verify_inbound_federation_signature_def by auto
qed

lemma locked_out_forever:
  assumes "locked_out rt origin" "\<forall>(request, now) \<in> set later. sfr_origin request = origin"
  shows "list_all isl (gate_answers genv rt later)"
  using assms
proof (induction later arbitrary: rt)
  case (Cons q later)
  obtain request now answer rt' where q: "q = (request, now)"
    and step: "verify_inbound_federation_signature genv rt request now = (answer, rt')"
    by (metis surj_pair)
  then show ?case using locked_out_stays [OF Cons.prems(1) _ step] Cons.IH [of rt'] Cons.prems(2) by simp
qed simp

text \<open>The state in which a forged request in the name of a known server counts against that server.\<close>

definition forgeable :: "GateEnv \<Rightarrow> FederationRuntimeState \<Rightarrow> SignedFederationRequest \<Rightarrow> nat \<Rightarrow> bool" where
  "forgeable genv rt request n \<longleftrightarrow>
     matched (match_federation_route (sfr_method request) (sfr_target request))
     \<and> fst (federation_server_policy (rt_config rt) (sfr_origin request))
     \<and> (case remote_snapshot rt (sfr_origin request) of None \<Rightarrow> False
        | Some remote \<Rightarrow>
            fkr_key_id (remote_signing_key remote) = sfr_key_id request
            \<and> (valid_until_ts (remote_signing_key remote) = 0 \<or> sfr_now_ts request < valid_until_ts (remote_signing_key remote))
            \<and> fst (federation_discovery_policy (gate_inet genv) (remote_discovery remote))
            \<and> \<not> quarantined (remote_trust remote) \<and> \<not> circuit_open (remote_trust remote)
            \<and> reputation_score (remote_trust remote) \<ge> 25 \<and> consecutive_failures (remote_trust remote) = n
            \<and> \<not> fd_accepted (verify_signed_federation_request (gate_sodium genv) (gate_reader genv) (gate_numeric genv)
                 request (remote_signing_key remote)))"

lemma forged_step:
  assumes "forgeable genv rt request n" "n < 3"
    and "verify_inbound_federation_signature genv rt request now = (answer, rt')"
  shows "isl answer \<and> forgeable genv rt' request (Suc n)"
proof -
  let ?origin = "sfr_origin request"
  obtain remote where remote: "remote_snapshot rt ?origin = Some remote" using assms(1) by (auto simp: forgeable_def split: option.splits)
  note state = assms(1) [unfolded forgeable_def remote option.case]
  have known: "resolve_unknown_remote genv rt request now = (Inr remote, rt)"
    using remote by (simp add: resolve_unknown_remote_def)
  have current: "refresh_remote_key genv rt request remote now = (Inr remote, rt)"
    using state by (auto simp: refresh_remote_key_def Let_def split: option.splits)
  have trusted: "trust_accepted (remote_trust_policy (remote_trust remote))"
    using state assms(2) by (simp add: remote_trust_policy_def)
  have resolved: "resolve_inbound_remote genv rt request now = (Inr (match_federation_route (sfr_method request) (sfr_target request), remote), rt)"
    using state trusted by (simp add: resolve_inbound_remote_def Let_def known current check_remote_policies_def)
  define remote' where "remote' = remote\<lparr>remote_trust := (remote_trust remote)\<lparr>consecutive_failures := Suc n\<rparr>\<rparr>"
  obtain r k a b c where rejected: "check_inbound_request_signature genv rt request remote
      = (Some r, audit_federation (persist_remote_trust rt remote') k a b c)"
    using state by (auto simp: check_inbound_request_signature_def Let_def remote'_def)
  have result: "isl answer" "rt' = audit_federation (persist_remote_trust rt remote') k a b c"
    using assms(3) unfolding verify_inbound_federation_signature_def resolved by (auto simp: rejected)
  have "remote_snapshot rt' ?origin = Some remote'"
    using remote snapshot_name [OF remote] unfolding result(2)
    by (simp add: remote_snapshot_def find_remote_def persist_remote_trust_def find_update_remote remote'_def)
  moreover have "rt_config rt' = rt_config rt"
    by (simp add: result(2) audit_federation_def persist_remote_trust_def Let_def)
  ultimately show ?thesis using state result(1) by (simp add: forgeable_def remote'_def)
qed

text \<open>
  C6: three forged requests shut a server out for good. Whoever sends three requests in the name of a
  known server, with the id of its key and any wrong signature, makes the gate refuse every later
  request of that server, the properly signed ones included: the failures are counted against the
  claimed origin, three of them make the trust policy refuse, and only a request that passed the trust policy
  resets the count.
\<close>
theorem forged_requests_lock_out:
  assumes "forgeable genv rt forged 0"
    and "\<forall>(request, now) \<in> set later. sfr_origin request = sfr_origin forged"
  shows "list_all isl (gate_answers genv rt ([(forged, t1), (forged, t2), (forged, t3)] @ later))"
proof -
  obtain a1 r1 where s1: "verify_inbound_federation_signature genv rt forged t1 = (a1, r1)" by (rule prod.exhaust)
  obtain a2 r2 where s2: "verify_inbound_federation_signature genv r1 forged t2 = (a2, r2)" by (rule prod.exhaust)
  obtain a3 r3 where s3: "verify_inbound_federation_signature genv r2 forged t3 = (a3, r3)" by (rule prod.exhaust)
  have f1: "isl a1" "forgeable genv r1 forged 1" using forged_step [OF assms(1) _ s1] by simp_all
  have f2: "isl a2" "forgeable genv r2 forged 2" using forged_step [OF f1(2) _ s2] by (simp_all add: numeral_2_eq_2)
  have f3: "isl a3" "forgeable genv r3 forged 3" using forged_step [OF f2(2) _ s3] by (simp_all add: numeral_3_eq_3)
  then have "locked_out r3 (sfr_origin forged)" by (auto simp: forgeable_def locked_out_def split: option.splits)
  then have "list_all isl (gate_answers genv r3 later)" using assms(2) by (rule locked_out_forever)
  then show ?thesis using f1 f2 f3 by (simp add: s1 s2 s3)
qed

section \<open>What stays bounded\<close>

definition gate_bounded :: "FederationRuntimeState \<Rightarrow> bool" where
  "gate_bounded rt \<longleftrightarrow>
     length (rt_audit_events rt) \<le> kMaxAuditEvents
     \<and> rt_unsafe_audit_events rt = length (filter (\<lambda>e. audit_reason_is_unsafe (audit_reason_code e)) (rt_audit_events rt))
     \<and> length (rt_key_failures rt) \<le> kMaxKeyResolutionFailures
     \<and> length (rt_key_buckets rt) \<le> kMaxKeyResolutionBuckets
     \<and> rt_in_flight rt \<le> key_resolution_max_in_flight (rt_config rt)"

lemma length_update_bucket [simp]: "length (update_bucket source f bs) = length bs"
  by (induction bs) simp_all

lemma audit_bounded:
  assumes "gate_bounded rt"
  shows "gate_bounded (audit_federation rt event_kind origin target r)"
proof (cases "rt_audit_events rt")
  case Nil
  then show ?thesis using assms by (simp add: gate_bounded_def audit_federation_def Let_def kMaxAuditEvents_def)
next
  case (Cons e es)
  then show ?thesis using assms by (auto simp: gate_bounded_def audit_federation_def Let_def)
qed

lemma budget_bounded:
  assumes "gate_bounded rt"
  shows "gate_bounded (release_key_resolution rt)"
    and "gate_bounded (remember_key_resolution_failure rt origin key now)"
    and "gate_bounded (snd (admit_key_resolution rt source origin key now))"
proof -
  have expired: "length (dropWhile P (rt_key_failures rt)) \<le> kMaxKeyResolutionFailures" for P
    using assms length_dropWhile_le [of P "rt_key_failures rt"] by (simp add: gate_bounded_def)
  show "gate_bounded (release_key_resolution rt)" using assms by (auto simp: gate_bounded_def release_key_resolution_def)
  show "gate_bounded (remember_key_resolution_failure rt origin key now)"
    using assms expired [of "\<lambda>f. failure_expires_at f \<le> now"] by (auto simp: gate_bounded_def remember_key_resolution_failure_def
      expire_key_resolution_failures_def Let_def kMaxKeyResolutionFailures_def not_le)
  show "gate_bounded (snd (admit_key_resolution rt source origin key now))"
    using assms expired by (auto simp: gate_bounded_def admit_key_resolution_def key_resolution_recently_failed_def
      expire_key_resolution_failures_def Let_def kMaxKeyResolutionBuckets_def)
qed

lemma remotes_bounded:
  assumes "gate_bounded rt"
  shows "gate_bounded (upsert_remote rt remote)" "gate_bounded (persist_remote_trust rt remote)"
    "gate_bounded (persist_remote_signing_key rt remote)"
  using assms by (simp_all add: gate_bounded_def upsert_remote_def persist_remote_trust_def persist_remote_signing_key_def)

lemma reject_bounded: "gate_bounded rt \<Longrightarrow> gate_bounded (snd (reject_audited rt request status r))"
  by (simp add: reject_audited_def audit_bounded)

lemma begin_bounded:
  "gate_bounded rt \<Longrightarrow> begin_key_resolution probe rt request now = (admission, rt') \<Longrightarrow> gate_bounded rt'"
  using budget_bounded(3) [of rt] by (auto simp: begin_key_resolution_def split: if_splits) (metis snd_conv)

lemma unknown_bounded: "gate_bounded rt \<Longrightarrow> gate_bounded (snd (resolve_unknown_remote genv rt request now))"
  by (auto simp: resolve_unknown_remote_def Let_def
    intro!: reject_bounded budget_bounded remotes_bounded dest: begin_bounded split: option.splits prod.splits)

lemma refresh_bounded: "gate_bounded rt \<Longrightarrow> gate_bounded (snd (refresh_remote_key genv rt request remote now))"
  by (auto simp: refresh_remote_key_def Let_def
    intro!: budget_bounded remotes_bounded dest: begin_bounded split: option.splits prod.splits)

lemma policies_bounded: "gate_bounded rt \<Longrightarrow> gate_bounded (snd (check_remote_policies genv rt request route_match remote))"
  by (auto simp: check_remote_policies_def Let_def intro: reject_bounded)

lemma resolve_bounded:
  assumes "gate_bounded rt"
  shows "gate_bounded (snd (resolve_inbound_remote genv rt request now))"
proof -
  obtain found rt1 where unknown: "resolve_unknown_remote genv rt request now = (found, rt1)" by (rule prod.exhaust)
  then have rt1: "gate_bounded rt1" using unknown_bounded [OF assms, of genv request now] by simp
  show ?thesis
  proof (cases found)
    case (Inr remote)
    obtain fresh rt2 where refreshed: "refresh_remote_key genv rt1 request remote now = (fresh, rt2)" by (rule prod.exhaust)
    then have "gate_bounded rt2" using refresh_bounded [OF rt1, of genv request remote now] by simp
    then show ?thesis using assms Inr unknown refreshed
      by (auto simp: resolve_inbound_remote_def Let_def intro: reject_bounded policies_bounded split: sum.splits)
  qed (use assms unknown rt1 in \<open>auto simp: resolve_inbound_remote_def Let_def intro: reject_bounded\<close>)
qed


section \<open>Resolutions in flight\<close>

text \<open>
  Requests run in parallel. A step is the start of a resolution, charged or served by the cache, or the end of one, where the scope
  guard releases a slot in both cases.
\<close>

datatype ResolutionStep =
    start_charged string string string nat
  | start_cached
  | end_charged
  | end_cached

record Resolutions =
  gate_state :: FederationRuntimeState
  charged_running :: nat
  cached_running :: nat

fun resolution_step :: "Resolutions \<Rightarrow> ResolutionStep \<Rightarrow> Resolutions option" where
  "resolution_step g (start_charged source origin key now) =
     (case admit_key_resolution (gate_state g) source origin key now of
        (admission, rt) \<Rightarrow> Some (g\<lparr>gate_state := rt,
          charged_running := (if fst admission then charged_running g + 1 else charged_running g)\<rparr>))"
| "resolution_step g start_cached = Some (g\<lparr>cached_running := cached_running g + 1\<rparr>)"
| "resolution_step g end_charged =
     (if charged_running g = 0 then None
      else Some (g\<lparr>gate_state := release_key_resolution (gate_state g), charged_running := charged_running g - 1\<rparr>))"
| "resolution_step g end_cached =
     (if cached_running g = 0 then None
      else Some (g\<lparr>gate_state := release_key_resolution (gate_state g), cached_running := cached_running g - 1\<rparr>))"

fun resolution_run :: "Resolutions \<Rightarrow> ResolutionStep list \<Rightarrow> Resolutions option" where
  "resolution_run g [] = Some g"
| "resolution_run g (s # steps) = Option.bind (resolution_step g s) (\<lambda>g'. resolution_run g' steps)"

lemma admit_in_flight:
  assumes "admit_key_resolution rt source origin key now = (admission, rt')"
  shows "rt_config rt' = rt_config rt
    \<and> rt_in_flight rt' = (if fst admission then rt_in_flight rt + 1 else rt_in_flight rt)
    \<and> (fst admission \<longrightarrow> rt_in_flight rt < key_resolution_max_in_flight (rt_config rt))"
  using assms by (auto simp: admit_key_resolution_def key_resolution_recently_failed_def
    expire_key_resolution_failures_def Let_def split: if_splits)

lemma charged_step_cap:
  assumes "resolution_step g s = Some g'" and "s \<noteq> start_cached"
    and "cached_running g = 0" and "charged_running g = rt_in_flight (gate_state g)"
    and "charged_running g \<le> key_resolution_max_in_flight (rt_config (gate_state g))"
  shows "cached_running g' = 0 \<and> charged_running g' = rt_in_flight (gate_state g')
    \<and> charged_running g' \<le> key_resolution_max_in_flight (rt_config (gate_state g'))
    \<and> rt_config (gate_state g') = rt_config (gate_state g)"
proof (cases s)
  case (start_charged source origin key now)
  obtain admission rt where admitted: "admit_key_resolution (gate_state g) source origin key now = (admission, rt)"
    by (rule prod.exhaust)
  show ?thesis using assms admit_in_flight [OF admitted] start_charged admitted by auto
qed (use assms in \<open>auto simp: release_key_resolution_def split: if_splits\<close>)

text \<open>
  C23: without resolutions served by the cache, the cap on resolutions in flight holds in every
  interleaving: the counter is the number of resolutions that are running, and they are never more than the
  configured number.
\<close>
theorem resolution_cap_holds:
  assumes "resolution_run g steps = Some g'" and "start_cached \<notin> set steps"
    and "cached_running g = 0" and "charged_running g = rt_in_flight (gate_state g)"
    and "charged_running g \<le> key_resolution_max_in_flight (rt_config (gate_state g))"
  shows "charged_running g' = rt_in_flight (gate_state g')
    \<and> charged_running g' \<le> key_resolution_max_in_flight (rt_config (gate_state g'))
    \<and> rt_config (gate_state g') = rt_config (gate_state g)"
  using assms
proof (induction steps arbitrary: g)
  case (Cons s steps)
  from Cons.prems(1) obtain g1 where g1: "resolution_step g s = Some g1" "resolution_run g1 steps = Some g'"
    by (auto simp: bind_eq_Some_conv)
  have "s \<noteq> start_cached" "start_cached \<notin> set steps" using Cons.prems(2) by auto
  with charged_step_cap [OF g1(1)] Cons.prems(3-5) Cons.IH [OF g1(2)] show ?case by auto
qed simp

section \<open>Concrete runs\<close>

definition sample_gate_config :: RuntimeFederationConfig where
  "sample_gate_config = \<lparr>federation_enabled = True, default_policy = ''allow'', allowed_servers = [], denied_servers = [],
     key_resolution_per_ip_rate = rl_policy 10 60, key_resolution_max_in_flight = 8,
     key_resolution_failure_ttl_seconds = 300\<rparr>"

definition sample_gate_remote :: FederationRemoteRuntime where
  "sample_gate_remote = \<lparr>remote_name = ''a.org'',
     remote_trust = \<lparr>consecutive_failures = 0, reputation_score = 100, quarantined = False, circuit_open = False\<rparr>,
     remote_signing_key = sample_key,
     remote_discovery = \<lparr>remote_server_name = ''a.org'', well_known_host = [], resolved_host = ''a.org'',
       resolved_addresses = [''93.184.216.34''], tls_required = True\<rparr>\<rparr>"

definition sample_gate :: FederationRuntimeState where
  "sample_gate = \<lparr>rt_config = sample_gate_config, rt_remotes = [sample_gate_remote], rt_audit_events = [],
     rt_unsafe_audit_events = 0, rt_key_buckets = [], rt_key_failures = [], rt_in_flight = 0\<rparr>"

definition sample_gate_env :: GateEnv where
  "sample_gate_env = \<lparr>gate_inet = sample_inet, gate_sodium = sample_sodium, gate_reader = null_reader,
     gate_numeric = no_numeric_env, gate_resolver = None, gate_probe = None\<rparr>"

definition sample_request :: "string \<Rightarrow> SignedFederationRequest" where
  "sample_request sig = \<lparr>sfr_method = ''GET'', sfr_target = ''/_matrix/federation/v1/query/profile'', sfr_origin = ''a.org'',
     sfr_destination = ''b.org'', sfr_key_id = ''ed25519:1'', sfr_signature = sig, sfr_now_ts = 5,
     sfr_canonical_json_verified = True, sfr_signature_verified = False, sfr_body = [], sfr_remote_addr = ''192.0.2.1''\<rparr>"

definition good_signature :: string where
  "good_signature = concat (map letter_pair (replicate 64 (CHR ''s'')))"


theorem forged_requests_lock_out_witness:
  "fst (verify_inbound_federation_signature sample_gate_env sample_gate (sample_request good_signature) 4)
     = Inr (''a.org'', ''ed25519:1'')
   \<and> list_all isl (gate_answers sample_gate_env sample_gate
       ([(sample_request ''x'', 1), (sample_request ''x'', 2), (sample_request ''x'', 3)] @ [(sample_request good_signature, 4)]))"
proof -
  have "forgeable sample_gate_env sample_gate (sample_request ''x'') 0" by code_simp
  moreover have "\<forall>(request, now) \<in> set [(sample_request good_signature, 4 :: nat)]. sfr_origin request = sfr_origin (sample_request ''x'')"
    by (simp add: sample_request_def)
  moreover have "fst (verify_inbound_federation_signature sample_gate_env sample_gate (sample_request good_signature) 4)
     = Inr (''a.org'', ''ed25519:1'')"
    by code_simp
  ultimately show ?thesis using forged_requests_lock_out by blast
qed


definition sample_resolutions :: Resolutions where
  "sample_resolutions = \<lparr>gate_state = sample_gate, charged_running = 0, cached_running = 0\<rparr>"

theorem resolution_cap_holds_witness:
  "charged_running (the (resolution_run sample_resolutions [start_charged [] ''c.org'' ''ed25519:1'' 1, end_charged])) \<le> 8"
proof -
  have "resolution_run sample_resolutions [start_charged [] ''c.org'' ''ed25519:1'' 1, end_charged] \<noteq> None" by code_simp
  then obtain g where g: "resolution_run sample_resolutions [start_charged [] ''c.org'' ''ed25519:1'' 1, end_charged] = Some g"
    by blast
  have "start_cached \<notin> set [start_charged [] ''c.org'' ''ed25519:1'' 1, end_charged]" by simp
  from resolution_cap_holds [OF g this] have "charged_running g \<le> 8"
    by (auto simp: sample_resolutions_def sample_gate_def sample_gate_config_def)
  then show ?thesis unfolding g by simp
qed


end
