(* ===== verification/Spec2Isabelle.thy ===== *)
theory Spec2Isabelle
  imports Json_Parser Event_Envelope State_Resolution_V2 Rate_Limit Server_Acl
    Default_Push_Rules Stream_Token Query_Params Http_Connection Trust_Safety Inbound_Gate
begin

text \<open>
  The event engine of the Merovingian homeserver, a Matrix server in C++. Paths below are those of
  the repository; sources stand under \<open>src/\<close> and headers under \<open>include/merovingian/\<close>.

  \<^bold>\<open>The parts and how they interact.\<close> A server receives an event as JSON text. The parser
  (\<open>canonicaljson/parser.cpp\<close>) turns it into a value tree and refuses what cannot be serialized
  canonically; the envelope (\<open>events/event.cpp\<close>) picks out the members every event has. The event
  is redacted (\<open>events/redaction.cpp\<close>) under the rules of its room version
  (\<open>rooms/room_version_policy.cpp\<close>), serialized canonically (\<open>canonicaljson/serializer.cpp\<close>), hashed
  to its event id (\<open>events/event_id.cpp\<close>) and its signatures are checked
  (\<open>events/event_signer.cpp\<close> over \<open>crypto/\<close>). Whether it may happen is decided against the room's
  state (\<open>events/authorization.cpp\<close>), and where branches of a room's history disagree on the state,
  state resolution (\<open>events/state_resolution.cpp\<close>) merges them, using the same rules.

  \<^bold>\<open>Theories and sources.\<close>
  \<^item> \<open>Merovingian_Prelude\<close>: bytes, decimal text (\<open>std::to_string\<close>, \<open>std::from_chars\<close>), stable
    sorting and the interface \<open>identity_order\<close> of its comparisons.
  \<^item> \<open>Json_Value\<close>, \<open>Json_Utf8\<close>, \<open>Json_Serializer\<close>, \<open>Json_Canonical\<close>, \<open>Json_Parser\<close>:
    \<open>canonicaljson/\<close>. A \<open>std::variant\<close> value is the datatype \<open>Value\<close>, an object the list of its
    members in document order. Shown: the UTF-8 check is exact, strict serialization succeeds
    exactly on valid float-free trees, canonical bytes identify a value up to member order
    (interface \<open>canonical_text\<close>), the parser accepts exactly what its bounds allow and everything it
    accepts can be serialized.
  \<^item> \<open>Room_Version\<close>: \<open>rooms/\<close>, the policy table and the encryption rule for new rooms.
  \<^item> \<open>Event_Envelope\<close>: \<open>events/event.cpp\<close>, acceptance of an envelope and the signature caps.
  \<^item> \<open>Redaction\<close>: \<open>events/redaction.cpp\<close>, one definition per helper; redaction is idempotent.
  \<^item> \<open>Crypto_Boundary\<close>: \<open>crypto/ed25519.cpp\<close>, the key providers, the signing service and the key
    store of the homeserver.
  \<^item> \<open>Event_Id\<close>, \<open>Event_Signer\<close>: hashes, ids, signing and verification. Shown: ids and signatures
    survive redaction and ignore unsigned data, a payload identifies what is signed, and what the
    server signs verifies.
  \<^item> \<open>Power_Levels\<close>, \<open>Authorization\<close>, \<open>Authorization_Rules\<close>: \<open>events/authorization.cpp\<close>, one
    definition per rule of the long function \<open>authorize_event_against_auth_events\<close>, composed in its
    order; the theorems say what an authorized event implies (no escalation, peers, bans, joins,
    kicks, federation).
  \<^item> \<open>State_Resolution\<close>, \<open>State_Partition\<close>, \<open>State_Resolution_V2\<close>: \<open>events/state_resolution.cpp\<close>.
    Shown: the winners of version 1, the bounded mainline walk, the exact partition into conflicted
    and unconflicted keys, soundness of version 2 (every resolved event comes from the request and
    is unconflicted or authorized in a reachable state), agreed state stays, and independence of
    the order of the groups; \<open>auth_reachable\<close> is the step relation of the iterative checks and
    \<open>iterative_checks\<close> their interface.
  \<^item> \<open>Rate_Limit\<close>: \<open>http/rate_limit.hpp\<close> and \<open>http/rate_limit.cpp\<close>, the engine in front of the client
    API with time as an argument. Shown: the tables keep their bound, no bucket admits more than its
    policy allows in a window, waiting for the announced time is enough, and the two tables of
    default limits agree.
  \<^item> \<open>Text_Search\<close>, \<open>Http_Request\<close>: \<open>http/request.cpp\<close> and \<open>http/request_limits.cpp\<close>. Shown: an accepted
    head is well formed and says in one way where the request ends, and what is written is read back.
  \<^item> \<open>Query_Params\<close>, \<open>Stream_Token\<close>: \<open>core/query_params.cpp\<close> and \<open>sync/stream_token.cpp\<close>, round trips
    of the encodings and freedom from wrap-around.
  \<^item> \<open>Glob\<close>: what a match of a Matrix glob is, and the interface \<open>glob_matcher\<close> of the two
    table-driven matchers below.
  \<^item> \<open>Push_Rules\<close>, \<open>Default_Push_Rules\<close>: \<open>push/push_rules.cpp\<close> and
    \<open>homeserver/default_push_ruleset.cpp\<close>. Shown: what the text conditions match, and which events
    notify and highlight under the default rules.
  \<^item> \<open>Federation_Security\<close>, \<open>Server_Acl\<close>: \<open>federation/security.cpp\<close> and \<open>federation/server_acl.cpp\<close>.
    Shown: discovery never accepts an internal address, as network prefixes of both families, and
    which servers an access control list admits.
  \<^item> \<open>Http_Connection\<close>: \<open>http/keep_alive.cpp\<close> and \<open>http/connection_guard.cpp\<close>, when a connection stays open.
  \<^item> \<open>Federation_Routes\<close>: \<open>federation/transactions.cpp\<close>. Shown: the hand-written branches read the
    templates of the table, and no request fits two routes.
  \<^item> \<open>Request_Auth\<close>, \<open>Inbound_Gate\<close>: request signing, the check of received events and the gate in front of
    the federation handlers, from \<open>federation/inbound_request.cpp\<close>, \<open>federation/outbound_transaction.cpp\<close>
    and \<open>federation/runtime_federation.cpp\<close>. Shown: what is signed and sent is accepted, what is accepted is signed by
    the peer it names, the bookkeeping reachable without authentication stays bounded, and two ways in which the
    gate fails: forged requests shut a server out, and the cap on key resolutions is not kept.
  \<^item> \<open>Trust_Safety\<close>: \<open>trust_safety/policy_engine.cpp\<close> and \<open>trust_safety/ignore_list.cpp\<close>, with the
    contract \<open>policy_check\<close>. Shown: the checks fail closed.
  \<^item> This theory: what holds of authorization and state resolution together.

  \<^bold>\<open>Conventions.\<close> A \<open>std::string\<close> is a list of characters, ordered bytewise; \<open>int64_t\<close> is an
  integer with its range written out where it matters (\<open>int64_ok\<close>), a double is its 64 bits;
  a failing function returns a sum with the error on the left; a struct is a record whose fields may
  carry a prefix (\<open>am_\<close>, \<open>se_\<close>) to stay apart. An \<open>unordered_map\<close> is an association list, and
  results that depend on its iteration order are compared as sets.

  \<^bold>\<open>Parameters.\<close> yyjson is a reader function (\<open>YyjsonReader\<close>, documented by
  \<open>yyjson_documented\<close>), libsodium the record \<open>Sodium\<close> (\<open>sodium_documented\<close>, \<open>sodium_keypair\<close>), the
  printing of doubles by the C library \<open>NumericEnv\<close>, the parser of address literals \<open>Inet\<close>
  (\<open>inet_documented\<close>). Each property that relies on them has a witness
  with a concrete instance.

  \<^bold>\<open>Bounds.\<close> The caps are the code's own: nesting depth and object width of the parser, 50 servers
  and 100 keys of signatures, 1000 state groups, 10000 events, conflicted keys and mainline steps. No
  fuel is added: the walks recurse on the number of steps the code still allows.

  \<^bold>\<open>Not modelled.\<close> Network and process handling, the database, the HTTP handlers, media, push and
  sync work on state outside the event engine; log output and the locking and wiping of secret
  memory have no effect on results.
\<close>

section \<open>Authorization and state resolution together\<close>

lemma sender_member_of_state:
  assumes "string_member obj ''sender'' = Some user"
    and "map_of m (make_state_key ''m.room.member'' user) = Some e"
  shows "am_sender_member (build_auth_event_map_from_state (VObject obj) m) = se_json e"
  using assms by (simp add: build_auth_event_map_from_state_def state_json_def Let_def)

text \<open>
  C15: a ban survives state resolution: if two groups of a request agree that a user is banned, no
  event the user sent enters the resolved state through a conflict, unless it is the token-backed
  invite of someone else that the authorization rules leave to a banned user.
\<close>
theorem banned_user_cannot_win_conflict:
  assumes "res_resolved (resolve_state_v2 S request policy)"
    and "list_all one_event_per_key (sr_state_groups request)" and "length (sr_state_groups request) \<le> 2"
    and "agreed (sr_state_groups request) (make_state_key ''m.room.member'' user)"
    and "member_state (se_json (the (state_group_event (hd (sr_state_groups request)) (make_state_key ''m.room.member'' user)))) = Ban"
    and "e \<in> set (res_state (resolve_state_v2 S request policy))"
    and "se_json e = VObject obj" and "string_member obj ''sender'' = Some user"
    and "string_member obj ''type'' \<noteq> Some ''m.room.create''"
  shows "agreed (sr_state_groups request) (se_key e)
     \<or> string_member obj ''type'' = Some ''m.room.member'' \<and> extract_content_membership (VObject obj) = ''invite''
       \<and> string_member obj ''state_key'' \<noteq> Some user \<and> third_party_invite_of obj \<noteq> None"
proof (rule disjCI)
  let ?gs = "sr_state_groups request" and ?k = "make_state_key ''m.room.member'' user"
  let ?u = "fst (partition_conflicted_state ?gs)"
  assume other: "\<not> (string_member obj ''type'' = Some ''m.room.member'' \<and> extract_content_membership (VObject obj) = ''invite''
       \<and> string_member obj ''state_key'' \<noteq> Some user \<and> third_party_invite_of obj \<noteq> None)"
  have ne: "?gs \<noteq> []" using assms(4) by (simp add: agreed_def)
  obtain m where res: "res_state (resolve_state_v2 S request policy) = map snd m" and m: "state_map m"
    and reach: "auth_reachable S policy (conflicted_set ?gs) ?u m" and few: "few_state_keys ?gs"
    using resolve_state_v2_resolved [OF assms(1) ne] by metis
  note ag = agreed_iff [OF assms(2), of ?k, THEN iffD1, OF assms(4)]
  have "?k \<notin> se_key ` conflicted_set ?gs"
    using partition_agreed(2) [OF few] ag by (auto simp: conflicted_set_def)
  then have ban: "map_of m' ?k = Some (hd (events_at ?gs ?k))" if "auth_reachable S policy (conflicted_set ?gs) ?u m'" for m'
    using auth_reachable_frame [OF that] partition_agreed(1) [OF few] ag by simp
  have banned: "member_state (se_json (hd (events_at ?gs ?k))) = Ban"
    using assms(5) agreed_head [OF assms(2,4)] by simp
  have False if "auth_reachable S policy (conflicted_set ?gs) ?u m'" "passes_auth S policy m' e" for m'
  proof -
    have "authorized S (VObject obj) policy (build_auth_event_map_from_state (VObject obj) m')"
      using that(2) assms(7) by (simp add: passes_auth_def)
    moreover from this obtain etype where "string_member obj ''type'' = Some etype"
      by (auto simp: authorize_allowed)
    moreover have "member_state (am_sender_member (build_auth_event_map_from_state (VObject obj) m')) = Ban"
      using sender_member_of_state [OF assms(8) ban [OF that(1)]] banned by simp
    ultimately show False
      using banned_sender_cannot_act [of S obj policy] assms(8,9) other by auto
  qed
  moreover have "map_of m (se_key e) = Some e" using assms(6) m unfolding res by (simp only: state_map_events)
  ultimately have "map_of ?u (se_key e) = Some e" using auth_reachable_origin [OF reach] by blast
  with partition_two_groups [OF few assms(2,3)] show "agreed ?gs (se_key e)" by simp
qed

definition text_event :: "string \<Rightarrow> string \<Rightarrow> string \<Rightarrow> StateEventReference" where
  "text_event etype event_id sndr =
     state_event etype [] event_id sndr
       (VObject [(''type'', VString etype), (''sender'', VString sndr), (''state_key'', VString []),
                 (''content'', VObject [])])"

definition ban_group :: "string \<Rightarrow> string \<Rightarrow> StateGroup" where
  "ban_group event_id sndr = \<lparr>sg_group_id = event_id, sg_state =
     [state_event ''m.room.create'' [] ''$c'' ''@a:x'' sample_create,
      state_event ''m.room.power_levels'' [] ''$p'' ''@a:x'' sample_power_levels,
      state_event ''m.room.member'' ''@a:x'' ''$ma'' ''@a:x'' (member_event ''@a:x'' ''@a:x'' ''join''),
      state_event ''m.room.member'' ''@u:x'' ''$mu'' ''@a:x'' (member_event ''@a:x'' ''@u:x'' ''ban''),
      text_event ''m.room.topic'' ''$t'' ''@u:x'', text_event ''m.room.name'' event_id sndr]\<rparr>"

definition ban_request :: StateResolutionRequest where
  "ban_request = levels_request [ban_group ''$n1'' ''@u:x'', ban_group ''$n2'' ''@a:x'']"

theorem banned_user_cannot_win_conflict_witness:
  "agreed (sr_state_groups ban_request) (se_key (text_event ''m.room.topic'' ''$t'' ''@u:x''))
   \<and> text_event ''m.room.name'' ''$n1'' ''@u:x'' \<notin> set (res_state (resolve_state_v2 sample_sodium ban_request room_v10))"
proof -
  let ?obj = "[(''type'', VString ''m.room.topic''), (''sender'', VString ''@u:x''), (''state_key'', VString []),
    (''content'', VObject [])]"
  have "agreed (sr_state_groups ban_request) (se_key (text_event ''m.room.topic'' ''$t'' ''@u:x''))
     \<or> string_member ?obj ''type'' = Some ''m.room.member'' \<and> extract_content_membership (VObject ?obj) = ''invite''
       \<and> string_member ?obj ''state_key'' \<noteq> Some ''@u:x'' \<and> third_party_invite_of ?obj \<noteq> None"
    by (rule banned_user_cannot_win_conflict [where S = sample_sodium and policy = room_v10]) code_simp+
  moreover have "\<not> agreed (sr_state_groups ban_request) (se_key (text_event ''m.room.name'' ''$n1'' ''@u:x''))" by code_simp
  moreover have "text_event ''m.room.name'' ''$n1'' ''@u:x'' \<notin> set (res_state (resolve_state_v2 sample_sodium ban_request room_v10))"
    by code_simp
  ultimately show ?thesis by (simp add: member_defs)
qed

end
